(* ===== verification/PyBase.thy ===== *)
theory PyBase
  imports Prelude "HOL-Library.Word"
begin

text \<open>
  The Python values and exceptions the program uses: exceptions and their classes
  (\<open>shared/exceptions\<close>, \<open>domain/exceptions\<close>), UTC datetimes, the rounding of
  \<open>timedelta(seconds=...)\<close>, decimal digits, and the dynamically typed values of metadata,
  payloads and JSON bodies.

  Floating-point numbers are rationals: the rounding of a single float operation is not modelled,
  the rounding of \<open>timedelta\<close> to microseconds is. Datetimes are the microseconds since
  0001-01-01T00:00:00 UTC; their upper limit (year 9999) is not modelled. A \<open>string\<close> is a list
  of code points below 256.
\<close>

section \<open>Identifiers, time and numbers\<close>

type_synonym uuid = "128 word"
type_synonym datetime = int
type_synonym seconds = rat

definition round_half_even :: "rat \<Rightarrow> int" where
  "round_half_even r =
     (let f = \<lfloor>r\<rfloor>; d = r - of_int f
      in if d < 1/2 then f else if d > 1/2 then f + 1 else if even f then f else f + 1)"

text \<open>\<open>timedelta(seconds=s)\<close> in microseconds.\<close>

definition timedelta :: "seconds \<Rightarrow> int" where
  "timedelta s = round_half_even (s * 1000000)"

lemma round_half_even_of_int [simp]: "round_half_even (of_int i) = i"
  by (simp add: round_half_even_def)

lemma round_half_even_near: "\<bar>of_int (round_half_even r) - r\<bar> \<le> 1/2"
proof -
  have "of_int \<lfloor>r\<rfloor> \<le> r" "r < of_int \<lfloor>r\<rfloor> + 1" by linarith+
  then show ?thesis by (auto simp: round_half_even_def Let_def abs_le_iff)
qed

lemma round_half_even_mono:
  assumes "r \<le> s"
  shows "round_half_even r \<le> round_half_even s"
proof (cases "\<lfloor>r\<rfloor> = \<lfloor>s\<rfloor>")
  case True
  with assms show ?thesis by (auto simp: round_half_even_def Let_def)
next
  case False
  with floor_mono [OF assms] have "\<lfloor>r\<rfloor> + 1 \<le> \<lfloor>s\<rfloor>" by linarith
  moreover have "round_half_even r \<le> \<lfloor>r\<rfloor> + 1" "\<lfloor>s\<rfloor> \<le> round_half_even s"
    by (auto simp: round_half_even_def Let_def)
  ultimately show ?thesis by linarith
qed

lemma timedelta_of_int [simp]: "timedelta (of_int n) = n * 1000000"
proof -
  have "(of_int n :: rat) * 1000000 = of_int (n * 1000000)" by simp
  then show ?thesis by (simp only: timedelta_def round_half_even_of_int)
qed

lemma timedelta_zero [simp]: "timedelta 0 = 0"
  using timedelta_of_int [of 0] by simp

lemma timedelta_mono: "s \<le> t \<Longrightarrow> timedelta s \<le> timedelta t"
  by (simp add: timedelta_def round_half_even_mono)

lemma timedelta_nonneg: "0 \<le> s \<Longrightarrow> 0 \<le> timedelta s"
  using timedelta_mono [of 0 s] by simp

section \<open>Decimal digits\<close>

definition digit_char :: "nat \<Rightarrow> char" where
  "digit_char d = ''0123456789'' ! d"

fun nat_str :: "nat \<Rightarrow> string" where
  "nat_str n = (if n < 10 then [digit_char n] else nat_str (n div 10) @ [digit_char (n mod 10)])"

declare nat_str.simps [simp del]

lemma nat_str_small [simp]: "n < 10 \<Longrightarrow> nat_str n = [digit_char n]"
  by (subst nat_str.simps) simp

lemma nat_str_step: "10 \<le> n \<Longrightarrow> nat_str n = nat_str (n div 10) @ [digit_char (n mod 10)]"
  by (subst nat_str.simps) simp

lemma nat_str_nonempty [simp]: "nat_str n \<noteq> []"
  by (subst nat_str.simps) simp

definition int_str :: "int \<Rightarrow> string" where
  "int_str i = (if i < 0 then ''-'' @ nat_str (nat (- i)) else nat_str (nat i))"

definition is_digit :: "char \<Rightarrow> bool" where
  "is_digit c \<longleftrightarrow> c \<in> set ''0123456789''"

definition digit_val :: "char \<Rightarrow> nat" where
  "digit_val c = of_char c - 48"

text \<open>The value of a run of decimal digits, most significant first.\<close>

definition digits_val :: "string \<Rightarrow> nat" where
  "digits_val s = foldl (\<lambda>n c. 10 * n + digit_val c) 0 s"

lemma digit_cases: "d < 10 \<Longrightarrow> d \<in> {0, 1, 2, 3, 4, 5, 6, 7, 8, 9 :: nat}"
  by auto

lemma digit_val_char [simp]: "d < 10 \<Longrightarrow> digit_val (digit_char d) = d"
  by (drule digit_cases) (auto simp: digit_val_def digit_char_def)

lemma is_digit_char [simp]: "d < 10 \<Longrightarrow> is_digit (digit_char d)"
  by (drule digit_cases) (auto simp: is_digit_def digit_char_def)

lemma digits_val_snoc: "digits_val (s @ [c]) = 10 * digits_val s + digit_val c"
  by (simp add: digits_val_def)

lemma digits_val_nat_str [simp]: "digits_val (nat_str n) = n"
proof (induction n rule: nat_str.induct)
  case (1 n)
  show ?case
  proof (cases "n < 10")
    case True
    then show ?thesis by (simp add: digits_val_def)
  next
    case False
    with 1 show ?thesis by (simp add: nat_str_step digits_val_snoc)
  qed
qed

lemma nat_str_digits: "list_all is_digit (nat_str n)"
proof (induction n rule: nat_str.induct)
  case (1 n)
  then show ?case by (cases "n < 10") (simp_all add: nat_str_step)
qed

lemma nat_str_inj: "nat_str m = nat_str n \<Longrightarrow> m = n"
  by (metis digits_val_nat_str)

text \<open>The number of decimal digits of a coefficient, \<open>len(str(n))\<close>.\<close>

definition ndigits :: "nat \<Rightarrow> nat" where
  "ndigits n = length (nat_str n)"

lemma ndigits_bounds: "n < 10 ^ ndigits n \<and> (0 < n \<longrightarrow> 10 ^ (ndigits n - 1) \<le> n)"
proof (induction n rule: nat_str.induct)
  case (1 n)
  show ?case
  proof (cases "n < 10")
    case True
    then show ?thesis by (simp add: ndigits_def)
  next
    case False
    define q where "q = n div 10"
    from 1 False have IH: "q < 10 ^ ndigits q" "0 < q \<longrightarrow> 10 ^ (ndigits q - 1) \<le> q"
      by (auto simp: q_def)
    from False have q0: "0 < q" by (simp add: q_def div_greater_zero_iff)
    have nd: "ndigits n = Suc (ndigits q)" using False by (simp add: ndigits_def nat_str_step q_def)
    have pos: "0 < ndigits q" by (simp add: ndigits_def)
    have n: "n < 10 * (q + 1)" "10 * q \<le> n" by (simp_all add: q_def)
    have "10 * (q + 1) \<le> 10 * 10 ^ ndigits q" using IH(1) by (intro mult_le_mono2) simp
    with n(1) have up: "n < 10 ^ ndigits n" by (simp add: nd)
    have "(10::nat) ^ ndigits q = 10 * 10 ^ (ndigits q - 1)"
      using pos by (metis power_minus_mult mult.commute)
    also have "\<dots> \<le> 10 * q" using IH(2) q0 by simp
    finally have "10 ^ (ndigits n - 1) \<le> n" using n(2) by (simp add: nd)
    with up show ?thesis by simp
  qed
qed

lemma ndigits_le_iff: "0 < k \<Longrightarrow> ndigits n \<le> k \<longleftrightarrow> n < 10 ^ k"
proof
  assume "ndigits n \<le> k"
  then have "(10::nat) ^ ndigits n \<le> 10 ^ k" by (simp add: power_increasing)
  with ndigits_bounds [of n] show "n < 10 ^ k" by linarith
next
  assume k: "0 < k" and n: "n < 10 ^ k"
  show "ndigits n \<le> k"
  proof (rule ccontr)
    assume "\<not> ndigits n \<le> k"
    then have "k \<le> ndigits n - 1" and "n = 0 \<or> 0 < n" by auto
    then have "n = 0 \<or> (10::nat) ^ k \<le> 10 ^ (ndigits n - 1)" by (auto simp: power_increasing)
    with ndigits_bounds [of n] n have "n = 0" by linarith
    then have "ndigits n = 1" by (simp add: ndigits_def)
    with k \<open>\<not> ndigits n \<le> k\<close> show False by simp
  qed
qed

section \<open>Exceptions\<close>

text \<open>
  The exceptions the program raises or handles, by class. The payments exceptions derive from
  \<open>DomainException\<close> and carry its \<open>details\<close>; \<open>DBAPIError\<close> is an error the database driver
  raises; \<open>External\<close> is any other exception of a call into code outside the repository;
  \<open>CancelledError\<close> is asyncio's, which is not an \<open>Exception\<close>.
\<close>

datatype exn =
    ValueError string
  | InvalidOperation
  | TypeError string
  | KeyError string
  | AttributeError string
  | RuntimeError string
  | InvalidStateTransition string string
  | InvalidPaymentData string
  | PaymentNotFound uuid
  | IdempotencyConflict string
  | DBAPIError string
  | External string
  | CancelledError

fun is_Exception :: "exn \<Rightarrow> bool" where
  "is_Exception CancelledError = False"
| "is_Exception _ = True"

fun is_ValueError :: "exn \<Rightarrow> bool" where
  "is_ValueError (ValueError _) = True"
| "is_ValueError _ = False"

text \<open>\<open>DomainException.code\<close>: the class attribute each payments exception overrides.\<close>

fun exn_code :: "exn \<Rightarrow> string option" where
  "exn_code (InvalidStateTransition _ _) = Some ''INVALID_STATE_TRANSITION''"
| "exn_code (IdempotencyConflict _) = Some ''IDEMPOTENCY_CONFLICT''"
| "exn_code (PaymentNotFound _) = Some ''NOT_FOUND''"
| "exn_code (InvalidPaymentData _) = Some ''VALIDATION_ERROR''"
| "exn_code _ = None"

section \<open>Dynamic values\<close>

text \<open>
  The values of metadata, gateway responses, event payloads and message bodies. A \<open>dict\<close> is the
  list of its items in insertion order.
\<close>

datatype pyval =
    VNone
  | VBool bool
  | VInt int
  | VFloat rat
  | VStr string
  | VList "pyval list"
  | VTuple "pyval list"
  | VDict "(string \<times> pyval) list"
  | VDatetime datetime
  | VUuid uuid

type_synonym pydict = "(string \<times> pyval) list"

definition opt_str :: "string option \<Rightarrow> pyval" where
  "opt_str s = (case s of None \<Rightarrow> VNone | Some x \<Rightarrow> VStr x)"

text \<open>The values \<open>json.dumps\<close> and a JSONB column accept.\<close>

fun jsonable :: "pyval \<Rightarrow> bool" where
  "jsonable (VList vs) = list_all jsonable vs"
| "jsonable (VTuple vs) = list_all jsonable vs"
| "jsonable (VDict kvs) = list_all (\<lambda>kv. jsonable (snd kv)) kvs"
| "jsonable (VDatetime _) = False"
| "jsonable (VUuid _) = False"
| "jsonable _ = True"

end
