(* ===== verification/Lifecycle.thy ===== *)
theory Lifecycle
  imports PyBase
begin

text \<open>
  The interface the three state machines of the domain share: \<open>Payment\<close>, \<open>PaymentAttempt\<close> and
  \<open>WebhookDelivery\<close> each hold a table \<open>_VALID_TRANSITIONS\<close>, a method \<open>_transition\<close> that checks it
  before it assigns the status, and methods that change the status only through it. The locales
  state what the clients rely on; the component theories interpret them on their own methods.
\<close>

section \<open>A transition table\<close>

text \<open>
  \<open>valid s\<close> lists the states the table allows after \<open>s\<close>; \<open>rank\<close> orders the life cycle, so that
  a move to another state goes strictly up.
\<close>

locale transition_table =
  fixes valid :: "'s \<Rightarrow> 's list"
    and rank :: "'s \<Rightarrow> nat"
  assumes valid_rank: "t \<in> set (valid s) \<Longrightarrow> s = t \<or> rank s < rank t"
begin

abbreviation reaches :: "'s \<Rightarrow> 's \<Rightarrow> bool" where
  "reaches \<equiv> (\<lambda>s t. t \<in> set (valid s))\<^sup>*\<^sup>*"

lemma reaches_rank: "reaches s t \<Longrightarrow> s = t \<or> rank s < rank t"
proof (induction rule: rtranclp_induct)
  case base
  show ?case by simp
next
  case (step t u)
  with valid_rank [of u t] show ?case by auto
qed

lemma reaches_antisym: "reaches s t \<Longrightarrow> reaches t s \<Longrightarrow> s = t"
  using reaches_rank [of s t] reaches_rank [of t s] by auto

lemma final_stuck: "reaches s t \<Longrightarrow> set (valid s) \<subseteq> {s} \<Longrightarrow> t = s"
  by (induction rule: rtranclp_induct) auto

end

section \<open>Objects whose methods respect the table\<close>

text \<open>
  \<open>ops\<close> are the methods of the class (with their arguments); a method that raises leaves the
  object as it was, which is how a caller that catches the exception sees it.
\<close>

definition call :: "('o \<Rightarrow> exn + 'o) \<Rightarrow> 'o \<Rightarrow> 'o" where
  "call f x = (case f x of Inl e \<Rightarrow> x | Inr y \<Rightarrow> y)"

definition calls :: "('o \<Rightarrow> exn + 'o) list \<Rightarrow> 'o \<Rightarrow> 'o" where
  "calls fs x = fold call fs x"

lemma calls_Nil [simp]: "calls [] x = x"
  by (simp add: calls_def)

lemma calls_Cons [simp]: "calls (f # fs) x = calls fs (call f x)"
  by (simp add: calls_def)

locale lifecycle = transition_table valid rank
  for valid :: "'s \<Rightarrow> 's list" and rank :: "'s \<Rightarrow> nat" +
  fixes status :: "'o \<Rightarrow> 's"
    and ops :: "('o \<Rightarrow> exn + 'o) set"
    and inv :: "'o \<Rightarrow> bool"
  assumes op_status: "f \<in> ops \<Longrightarrow> f x = Inr y \<Longrightarrow> status y = status x \<or> status y \<in> set (valid (status x))"
    and op_inv: "f \<in> ops \<Longrightarrow> inv x \<Longrightarrow> f x = Inr y \<Longrightarrow> inv y"
begin

lemma call_reaches: "f \<in> ops \<Longrightarrow> reaches (status x) (status (call f x))"
  by (auto simp: call_def dest!: op_status split: sum.splits)

lemma calls_reaches: "set fs \<subseteq> ops \<Longrightarrow> reaches (status x) (status (calls fs x))"
proof (induction fs arbitrary: x)
  case Nil
  then show ?case by simp
next
  case (Cons f fs)
  then have "reaches (status (call f x)) (status (calls fs (call f x)))" by simp
  with call_reaches [of f x] Cons.prems show ?case by (auto intro: rtranclp_trans)
qed

lemma calls_inv: "set fs \<subseteq> ops \<Longrightarrow> inv x \<Longrightarrow> inv (calls fs x)"
proof (induction fs arbitrary: x)
  case Nil
  then show ?case by simp
next
  case (Cons f fs)
  then have "inv (call f x)" by (auto simp: call_def intro: op_inv split: sum.splits)
  with Cons show ?case by simp
qed

text \<open>A final status is never left again, whatever is called.\<close>

lemma calls_final:
  "set fs \<subseteq> ops \<Longrightarrow> valid (status x) = [] \<Longrightarrow> status (calls fs x) = status x"
  by (rule final_stuck [OF calls_reaches]) auto

lemma calls_rank: "set fs \<subseteq> ops \<Longrightarrow> rank (status x) \<le> rank (status (calls fs x))"
  using reaches_rank [OF calls_reaches] by (metis less_imp_le order_refl)

end

end
