(* ===== verification/Decimals.thy ===== *)
theory Decimals
  imports PyBase
begin

text \<open>
  The part of Python's \<open>decimal\<close> and of its string functions that \<open>value_objects/money.py\<close> and
  the money columns use: \<open>Decimal(str)\<close>, comparison with 0, \<open>quantize(Decimal('0.01'))\<close> under
  the default context (28 digits, ROUND_HALF_EVEN, InvalidOperation trapped), numeric equality
  and \<open>str(Decimal)\<close>. A finite decimal is its signed coefficient and its exponent; the sign of
  zero and the exponent limits of a context are not modelled.
\<close>

section \<open>Strings\<close>

definition py_space :: "char \<Rightarrow> bool" where
  "py_space c \<longleftrightarrow> (let n = of_char c :: nat in
     9 \<le> n \<and> n \<le> 13 \<or> 28 \<le> n \<and> n \<le> 32 \<or> n = 133 \<or> n = 160)"

definition py_strip :: "string \<Rightarrow> string" where
  "py_strip s = rev (dropWhile py_space (rev (dropWhile py_space s)))"

definition ascii_lower :: "char \<Rightarrow> char" where
  "ascii_lower c = (let n = of_char c :: nat in if 65 \<le> n \<and> n \<le> 90 then char_of (n + 32) else c)"

text \<open>\<open>repr(str)\<close> for code points below 256.\<close>

definition hex_lower :: "nat \<Rightarrow> char" where
  "hex_lower d = ''0123456789abcdef'' ! d"

definition repr_char :: "char \<Rightarrow> char \<Rightarrow> string" where
  "repr_char quote c =
     (let n = of_char c :: nat in
      if c = quote \<or> c = CHR 0x5C then [CHR 0x5C, c]
      else if n = 9 then [CHR 0x5C, CHR ''t'']
      else if n = 10 then [CHR 0x5C, CHR ''n'']
      else if n = 13 then [CHR 0x5C, CHR ''r'']
      else if n < 32 \<or> 127 \<le> n \<and> n \<le> 160 \<or> n = 173
        then [CHR 0x5C, CHR ''x'', hex_lower (n div 16), hex_lower (n mod 16)]
      else [c])"

definition py_repr :: "string \<Rightarrow> string" where
  "py_repr s =
     (let quote = (if CHR 0x27 \<in> set s \<and> CHR 0x22 \<notin> set s then CHR 0x22 else CHR 0x27)
      in quote # concat (map (repr_char quote) s) @ [quote])"

section \<open>Decimals\<close>

datatype decimal = Finite int int | Infinity bool | NaN bool

fun dec_val :: "decimal \<Rightarrow> rat" where
  "dec_val (Finite c e) = of_int c * 10 powi e"
| "dec_val _ = 0"

fun is_finite :: "decimal \<Rightarrow> bool" where
  "is_finite (Finite c e) = True"
| "is_finite _ = False"

text \<open>\<open>d <= 0\<close>: an ordering comparison with a NaN signals InvalidOperation.\<close>

fun dec_le_zero :: "decimal \<Rightarrow> exn + bool" where
  "dec_le_zero (Finite c e) = Inr (c \<le> 0)"
| "dec_le_zero (Infinity neg) = Inr neg"
| "dec_le_zero (NaN sig) = Inl InvalidOperation"

text \<open>Numeric equality of finite decimals, by scaling to the smaller exponent.\<close>

fun dec_eq :: "decimal \<Rightarrow> decimal \<Rightarrow> bool" where
  "dec_eq (Finite c e) (Finite c' e') =
     (let m = min e e' in c * 10 ^ nat (e - m) = c' * 10 ^ nat (e' - m))"
| "dec_eq (Infinity a) (Infinity b) = (a = b)"
| "dec_eq _ _ = False"

definition div_half_even :: "int \<Rightarrow> int \<Rightarrow> int" where
  "div_half_even c d =
     (let q = \<bar>c\<bar> div d; r = \<bar>c\<bar> mod d;
          q' = (if 2 * r < d then q else if 2 * r > d then q + 1 else if even q then q else q + 1)
      in sgn c * q')"

text \<open>The coefficient of \<open>Finite c e\<close> rescaled to exponent \<open>-2\<close>.\<close>

definition rescale2 :: "int \<Rightarrow> int \<Rightarrow> int" where
  "rescale2 c e =
     (if -2 \<le> e then c * 10 ^ nat (e + 2) else div_half_even c (10 ^ nat (- 2 - e)))"

definition prec :: nat where
  "prec = 28"

fun quantize_cent :: "decimal \<Rightarrow> exn + decimal" where
  "quantize_cent (Finite c e) =
     (let c' = rescale2 c e in
      if c \<noteq> 0 \<and> int (ndigits (nat \<bar>c\<bar>)) + e + 2 > int prec \<or> ndigits (nat \<bar>c'\<bar>) > prec
      then Inl InvalidOperation else Inr (Finite c' (-2)))"
| "quantize_cent (Infinity neg) = Inl InvalidOperation"
| "quantize_cent (NaN sig) = (if sig then Inl InvalidOperation else Inr (NaN False))"

text \<open>\<open>Decimal(s)\<close>: \<open>None\<close> is the ConversionSyntax InvalidOperation.\<close>

definition split_sign :: "string \<Rightarrow> bool \<times> string" where
  "split_sign s = (case s of [] \<Rightarrow> (False, [])
     | c # r \<Rightarrow> if c = CHR ''-'' then (True, r) else if c = CHR ''+'' then (False, r) else (False, s))"

definition signed :: "bool \<Rightarrow> nat \<Rightarrow> int" where
  "signed neg n = (if neg then - int n else int n)"

definition decimal_number :: "bool \<Rightarrow> string \<Rightarrow> decimal option" where
  "decimal_number neg t =
     (let ip = takeWhile is_digit t; r1 = dropWhile is_digit t;
          (fp, r2) = (case r1 of [] \<Rightarrow> ([], [])
             | c # q \<Rightarrow> if c = CHR ''.'' then (takeWhile is_digit q, dropWhile is_digit q) else ([], r1));
          c = signed neg (digits_val (ip @ fp)); e = - int (length fp)
      in if ip = [] \<and> fp = [] then None
         else case r2 of [] \<Rightarrow> Some (Finite c e)
           | x # q \<Rightarrow>
               (let (eneg, ds) = split_sign q in
                if (x = CHR ''e'' \<or> x = CHR ''E'') \<and> ds \<noteq> [] \<and> list_all is_digit ds
                then Some (Finite c (signed eneg (digits_val ds) + e)) else None))"

definition decimal_of_string :: "string \<Rightarrow> decimal option" where
  "decimal_of_string s =
     (let (neg, t) = split_sign (filter (\<lambda>c. c \<noteq> CHR ''_'') (py_strip s)); low = map ascii_lower t
      in if low = ''inf'' \<or> low = ''infinity'' then Some (Infinity neg)
         else if take 3 low = ''nan'' \<and> list_all is_digit (drop 3 low) then Some (NaN False)
         else if take 4 low = ''snan'' \<and> list_all is_digit (drop 4 low) then Some (NaN True)
         else decimal_number neg t)"

text \<open>\<open>str(Decimal)\<close>: plain notation for small non-positive exponents, scientific otherwise.\<close>

definition dec_exp_suffix :: "int \<Rightarrow> string" where
  "dec_exp_suffix x =
     (if x = 0 then [] else CHR ''E'' # (if 0 < x then ''+'' else ''-'') @ nat_str (nat \<bar>x\<bar>))"

fun dec_str :: "decimal \<Rightarrow> string" where
  "dec_str (Finite c e) =
     (let digits = nat_str (nat \<bar>c\<bar>); n = int (length digits); left = e + n;
          dot = (if e \<le> 0 \<and> - 6 < left then left else 1);
          body = (if dot \<le> 0 then ''0.'' @ replicate (nat (- dot)) (CHR ''0'') @ digits
                  else if n \<le> dot then digits @ replicate (nat (dot - n)) (CHR ''0'')
                  else take (nat dot) digits @ ''.'' @ drop (nat dot) digits)
      in (if c < 0 then ''-'' else []) @ body @ dec_exp_suffix (left - dot))"
| "dec_str (Infinity neg) = (if neg then ''-Infinity'' else ''Infinity'')"
| "dec_str (NaN sig) = (if sig then ''sNaN'' else ''NaN'')"

section \<open>Facts\<close>

lemma powi_split: "(10::rat) powi e = 10 ^ nat (e - m) * 10 powi m" if "m \<le> e"
proof -
  from that have "e = int (nat (e - m)) + m" by simp
  then have "(10::rat) powi e = 10 powi (int (nat (e - m)) + m)" by simp
  also have "\<dots> = 10 powi (int (nat (e - m))) * 10 powi m" by (subst power_int_add) auto
  finally show ?thesis by (simp only: power_int_of_nat)
qed

lemma dec_eq_iff_val: "dec_eq (Finite c e) (Finite c' e') \<longleftrightarrow> dec_val (Finite c e) = dec_val (Finite c' e')"
proof -
  define m where "m = min e e'"
  have "dec_val (Finite c e) = of_int (c * 10 ^ nat (e - m)) * 10 powi m"
    and "dec_val (Finite c' e') = of_int (c' * 10 ^ nat (e' - m)) * 10 powi m"
    using powi_split [of m e] powi_split [of m e'] by (simp_all add: m_def)
  moreover have "(10::rat) powi m \<noteq> 0" by simp
  ultimately have "dec_val (Finite c e) = dec_val (Finite c' e') \<longleftrightarrow>
      (of_int (c * 10 ^ nat (e - m)) :: rat) = of_int (c' * 10 ^ nat (e' - m))"
    by (simp add: mult_cancel_right del: of_int_mult of_int_power dec_val.simps)
  also have "\<dots> \<longleftrightarrow> c * 10 ^ nat (e - m) = c' * 10 ^ nat (e' - m)" by (simp only: of_int_eq_iff)
  finally show ?thesis by (simp add: m_def Let_def)
qed

lemma div_half_even_exact: "0 < d \<Longrightarrow> d dvd c \<Longrightarrow> div_half_even c d * d = c"
  by (auto simp: div_half_even_def Let_def sgn_if elim!: dvdE simp: abs_mult)

text \<open>
  A finite decimal equals its value rounded to cents exactly when it is a whole number of
  cents.
\<close>

definition whole_cents :: "int \<Rightarrow> int \<Rightarrow> bool" where
  "whole_cents c e \<longleftrightarrow> -2 \<le> e \<or> 10 ^ nat (- 2 - e) dvd c"

lemma dec_eq_rescale2: "dec_eq (Finite c e) (Finite (rescale2 c e) (-2)) \<longleftrightarrow> whole_cents c e"
proof (cases "-2 \<le> e")
  case True
  then show ?thesis by (simp add: rescale2_def whole_cents_def Let_def min_def)
next
  case False
  define d :: int where "d = 10 ^ nat (- 2 - e)"
  have d: "0 < d" by (simp add: d_def)
  from False have "dec_eq (Finite c e) (Finite (rescale2 c e) (-2)) \<longleftrightarrow> c = div_half_even c d * d"
    by (simp add: rescale2_def Let_def min_def d_def)
  also have "\<dots> \<longleftrightarrow> d dvd c"
    using div_half_even_exact [OF d, of c] by (metis dvd_triv_right)
  finally show ?thesis using False by (simp add: whole_cents_def d_def)
qed

lemma whole_cents_val: "whole_cents c e \<longleftrightarrow> (\<exists>k. dec_val (Finite c e) * 100 = of_int k)"
proof (cases "-2 \<le> e")
  case True
  then have "(10::rat) powi e * 100 = 10 ^ nat (e + 2)"
    using powi_split [of "-2" e] by (simp add: power_int_minus)
  then have "dec_val (Finite c e) * 100 = of_int (c * 10 ^ nat (e + 2))" by (simp add: mult.assoc)
  with True show ?thesis by (auto simp only: whole_cents_def)
next
  case False
  define d :: int where "d = 10 ^ nat (- 2 - e)"
  have d: "0 < d" by (simp add: d_def)
  have "(10::rat) powi (-2) = of_int d * 10 powi e"
    using powi_split [of e "-2"] False by (simp add: d_def)
  then have "(10::rat) powi e * 100 = 1 / of_int d"
    using d by (simp add: power_int_minus field_simps)
  then have v: "dec_val (Finite c e) * 100 = of_int c / of_int d"
    by (simp only: dec_val.simps mult.assoc) simp
  have "(\<exists>k. (of_int c / of_int d :: rat) = of_int k) \<longleftrightarrow> d dvd c"
  proof
    assume "\<exists>k. (of_int c / of_int d :: rat) = of_int k"
    then obtain k where "(of_int c :: rat) = of_int (k * d)" using d by (auto simp: field_simps)
    then show "d dvd c" by (simp only: of_int_eq_iff) simp
  next
    assume "d dvd c"
    then obtain k where "c = d * k" by (auto elim: dvdE)
    with d show "\<exists>k. (of_int c / of_int d :: rat) = of_int k" by auto
  qed
  with False show ?thesis unfolding v whole_cents_def d_def by simp
qed

end
