(* ===== verification/ValueObjects.thy ===== *)
theory ValueObjects
  imports Decimals
begin

text \<open>
  The value objects of \<open>domain/value_objects/\<close>: \<open>Money\<close> and \<open>Currency\<close> (money.py),
  \<open>IdempotencyKey\<close> (idempotency_key.py) and \<open>RetryPolicy\<close> (retry_policy.py). Each constructor is
  a function that raises or returns the object.
\<close>

section \<open>Money\<close>

datatype currency = RUB | USD | EUR

fun currency_value :: "currency \<Rightarrow> string" where
  "currency_value RUB = ''RUB''"
| "currency_value USD = ''USD''"
| "currency_value EUR = ''EUR''"

definition mk_currency :: "string \<Rightarrow> exn + currency" where
  "mk_currency s =
     (if s = ''RUB'' then Inr RUB else if s = ''USD'' then Inr USD else if s = ''EUR'' then Inr EUR
      else Inl (ValueError (py_repr s @ '' is not a valid Currency'')))"

datatype money = Money (money_amount: decimal) (money_currency: currency)

text \<open>
  The types the constructor accepts for an amount. A float is given by its \<open>str\<close>, which is all
  the constructor uses of it.
\<close>

datatype amount_arg = ADecimal decimal | AFloat string | AInt int | AStr string

fun amount_decimal :: "amount_arg \<Rightarrow> exn + decimal" where
  "amount_decimal (AFloat s) =
     (case decimal_of_string s of None \<Rightarrow> Inl InvalidOperation | Some d \<Rightarrow> Inr d)"
| "amount_decimal (ADecimal d) = Inr d"
| "amount_decimal (AInt i) = Inr (Finite i 0)"
| "amount_decimal (AStr s) =
     (case decimal_of_string s of
        None \<Rightarrow> Inl (ValueError (''Invalid amount: '' @ py_repr s)) | Some d \<Rightarrow> Inr d)"

definition mk_money :: "amount_arg \<Rightarrow> string \<Rightarrow> exn + money" where
  "mk_money amount cur =
     bind_res (amount_decimal amount) (\<lambda>d.
     bind_res (dec_le_zero d) (\<lambda>nonpos.
     if nonpos then Inl (ValueError ''Amount must be positive'')
     else bind_res (quantize_cent d) (\<lambda>q.
       if \<not> dec_eq d q then Inl (ValueError ''Amount must have at most 2 decimal places'')
       else map_res (Money d) (mk_currency cur))))"

fun money_eq :: "money \<Rightarrow> money \<Rightarrow> bool" where
  "money_eq (Money a c) (Money b d) \<longleftrightarrow> dec_eq a b \<and> c = d"

definition money_repr :: "money \<Rightarrow> string" where
  "money_repr m = ''Money('' @ dec_str (money_amount m) @ '' '' @ currency_value (money_currency m) @ '')''"

text \<open>Python hashes a number by its value; \<open>h\<close> is \<open>hash\<close> on the pair.\<close>

definition money_hash :: "(rat \<times> currency \<Rightarrow> int) \<Rightarrow> money \<Rightarrow> int" where
  "money_hash h m = h (dec_val (money_amount m), money_currency m)"

text \<open>What a \<open>Money\<close> object promises.\<close>

fun money_ok :: "money \<Rightarrow> bool" where
  "money_ok (Money (Finite c e) _) \<longleftrightarrow>
     0 < c \<and> whole_cents c e \<and> int (ndigits (nat c)) + e \<le> 26"
| "money_ok _ \<longleftrightarrow> False"

lemma mk_currency_value [simp]: "mk_currency (currency_value c) = Inr c"
  by (cases c) (simp_all add: mk_currency_def)

lemma mk_currency_Inr: "mk_currency s = Inr c \<longleftrightarrow> s = currency_value c"
  by (cases c) (auto simp: mk_currency_def)

lemma rescale2_pos_digits:
  assumes "0 < c" "whole_cents c e" "int (ndigits (nat c)) + e \<le> 26"
  shows "ndigits (nat \<bar>rescale2 c e\<bar>) \<le> 28"
proof (cases "-2 \<le> e")
  case True
  let ?k = "nat (e + 2)"
  have "nat c < 10 ^ ndigits (nat c)" using ndigits_bounds by blast
  then have "nat c * 10 ^ ?k < 10 ^ ndigits (nat c) * 10 ^ ?k" by simp
  also have "\<dots> = 10 ^ (ndigits (nat c) + ?k)" by (simp add: power_add)
  also have "\<dots> \<le> 10 ^ 28" using assms(3) True by (intro power_increasing) auto
  finally have "nat c * 10 ^ ?k < 10 ^ 28" .
  moreover have "nat \<bar>rescale2 c e\<bar> = nat c * 10 ^ ?k"
    using assms(1) True by (simp add: rescale2_def nat_mult_distrib nat_power_eq)
  ultimately show ?thesis by (simp only: ndigits_le_iff [of 28])
next
  case False
  define d :: int where "d = 10 ^ nat (- 2 - e)"
  have d: "0 < d" "d dvd c" using False assms(2) by (simp_all add: d_def whole_cents_def)
  have eq: "rescale2 c e * d = c"
    using div_half_even_exact [OF d] False by (simp add: rescale2_def d_def)
  with assms(1) d(1) have r0: "0 < rescale2 c e" by (metis zero_less_mult_pos2)
  then have r: "nat \<bar>rescale2 c e\<bar> = nat (rescale2 c e)" by simp
  have "nat c < 10 ^ ndigits (nat c)" using ndigits_bounds by blast
  then have "c < 10 ^ ndigits (nat c)" using assms(1) by (simp add: nat_less_iff)
  also have "\<dots> \<le> 10 ^ (28 + nat (- 2 - e))" using assms(3) False by (intro power_increasing) auto
  also have "\<dots> = 10 ^ 28 * d" by (simp add: power_add d_def)
  finally have "rescale2 c e * d < 10 ^ 28 * d" by (simp only: eq)
  with d(1) have "rescale2 c e < 10 ^ 28" by simp
  then have "nat (rescale2 c e) < 10 ^ 28" by (simp add: nat_less_iff)
  then show ?thesis by (simp only: r ndigits_le_iff [of 28])
qed

lemma quantize_cent_ok:
  "money_ok (Money (Finite c e) k) \<Longrightarrow> quantize_cent (Finite c e) = Inr (Finite (rescale2 c e) (-2))"
  using rescale2_pos_digits [of c e] by (auto simp: Let_def prec_def)

lemma quantize_cent_Inr:
  "quantize_cent (Finite c e) = Inr q \<Longrightarrow>
     q = Finite (rescale2 c e) (-2) \<and> (c \<noteq> 0 \<longrightarrow> int (ndigits (nat \<bar>c\<bar>)) + e \<le> 26)"
  by (auto simp: Let_def prec_def split: if_splits)

lemma mk_money_decimal:
  "mk_money (ADecimal d) cur = Inr m \<longleftrightarrow>
     m = Money d (money_currency m) \<and> money_ok m \<and> cur = currency_value (money_currency m)"
proof (cases d)
  case d: (Finite c e)
  show ?thesis
  proof
    assume "mk_money (ADecimal d) cur = Inr m"
    with d obtain q k where q: "quantize_cent (Finite c e) = Inr q" "dec_eq (Finite c e) q"
      and "0 < c" "mk_currency cur = Inr k" "m = Money (Finite c e) k"
      by (auto simp: mk_money_def res_simps not_le simp del: quantize_cent.simps dec_eq.simps
          split: if_splits)
    moreover from quantize_cent_Inr [OF q(1)] q(2) \<open>0 < c\<close>
    have "whole_cents c e" "int (ndigits (nat c)) + e \<le> 26"
      by (simp_all only: dec_eq_rescale2) simp_all
    ultimately show "m = Money d (money_currency m) \<and> money_ok m \<and>
        cur = currency_value (money_currency m)"
      using d by (simp add: mk_currency_Inr)
  next
    assume R: "m = Money d (money_currency m) \<and> money_ok m \<and> cur = currency_value (money_currency m)"
    then obtain k where m: "m = Money (Finite c e) k" and cur: "cur = currency_value k"
      using d by (cases m) auto
    from R have ok: "money_ok (Money (Finite c e) k)" by (simp only: m)
    then have "0 < c" "dec_eq (Finite c e) (Finite (rescale2 c e) (-2))"
      by (simp_all only: money_ok.simps dec_eq_rescale2)
    then show "mk_money (ADecimal d) cur = Inr m"
      using d m cur quantize_cent_ok [OF ok]
      by (simp add: mk_money_def del: quantize_cent.simps dec_eq.simps)
  qed
next
  case (Infinity neg)
  then show ?thesis by (cases m) (auto simp: mk_money_def split: if_splits)
next
  case (NaN sig)
  then show ?thesis by (cases m) (auto simp: mk_money_def)
qed

lemma mk_money_ok: "mk_money a cur = Inr m \<Longrightarrow> money_ok m"
proof -
  assume "mk_money a cur = Inr m"
  moreover then obtain d where "amount_decimal a = Inr d" by (auto simp: mk_money_def res_simps)
  ultimately have "mk_money (ADecimal d) cur = Inr m" by (simp add: mk_money_def)
  then show "money_ok m" by (simp add: mk_money_decimal)
qed

lemma ndigits_dec_val:
  assumes "0 < c"
  shows "int (ndigits (nat c)) + e \<le> k \<longleftrightarrow> dec_val (Finite c e) < 10 powi k"
proof -
  define n where "n = ndigits (nat c)"
  have n: "0 < n" by (simp add: n_def ndigits_def)
  have b: "nat c < 10 ^ n" "10 ^ (n - 1) \<le> nat c"
    using ndigits_bounds [of "nat c"] assms by (auto simp: n_def)
  have up: "(of_int c :: rat) < 10 powi int n" "10 powi (int n - 1) \<le> (of_int c :: rat)"
  proof -
    from b(1) have "c < 10 ^ n" using assms by (simp add: nat_less_iff)
    then have "(of_int c :: rat) < of_int (10 ^ n)" by (simp only: of_int_less_iff)
    then show "(of_int c :: rat) < 10 powi int n" by simp
    from b(2) assms have "10 ^ (n - 1) \<le> c" by (simp add: le_nat_iff)
    then have "of_int (10 ^ (n - 1)) \<le> (of_int c :: rat)" by (simp only: of_int_le_iff)
    moreover have "int n - 1 = int (n - 1)" using n by simp
    ultimately show "10 powi (int n - 1) \<le> (of_int c :: rat)"
      by (simp only: power_int_of_nat) simp
  qed
  show ?thesis
  proof
    assume k: "int (ndigits (nat c)) + e \<le> k"
    have "dec_val (Finite c e) < 10 powi int n * 10 powi e" using up(1) by simp
    also have "\<dots> = 10 powi (int n + e)" by (simp add: power_int_add)
    also have "\<dots> \<le> 10 powi k" using k by (intro power_int_increasing) (auto simp: n_def)
    finally show "dec_val (Finite c e) < 10 powi k" .
  next
    assume lt: "dec_val (Finite c e) < 10 powi k"
    show "int (ndigits (nat c)) + e \<le> k"
    proof (rule ccontr)
      assume "\<not> ?thesis"
      then have "(10 :: rat) powi k \<le> 10 powi ((int n - 1) + e)"
        by (intro power_int_increasing) (auto simp: n_def)
      also have "\<dots> = 10 powi (int n - 1) * 10 powi e" by (simp add: power_int_add)
      also have "\<dots> \<le> dec_val (Finite c e)" using up(2) by simp
      finally show False using lt by simp
    qed
  qed
qed

lemma currency_values: "(\<exists>k. s = currency_value k) \<longleftrightarrow> s \<in> {''RUB'', ''USD'', ''EUR''}"
proof -
  have "(\<exists>k. s = currency_value k) \<longleftrightarrow>
      s = currency_value RUB \<or> s = currency_value USD \<or> s = currency_value EUR"
    by (metis currency.exhaust)
  then show ?thesis by simp
qed

text \<open>
  Which Decimal amounts a \<open>Money\<close> takes: what \<open>quantize\<close> and the comparison come to as a number.
\<close>

lemma money_accepts:
  "(\<exists>m. mk_money (ADecimal d) cur = Inr m) \<longleftrightarrow>
     is_finite d \<and> 0 < dec_val d \<and> (\<exists>cents. dec_val d * 100 = of_int cents) \<and> dec_val d < 10 ^ 26 \<and>
     cur \<in> {''RUB'', ''USD'', ''EUR''}"
proof (cases d)
  case d: (Finite c e)
  have pos: "0 < dec_val d \<longleftrightarrow> 0 < c"
  proof -
    have "(0::rat) < 10 powi e" by (rule zero_less_power_int) simp
    then have "\<not> (10::rat) powi e < 0" by linarith
    then show ?thesis by (simp add: d zero_less_mult_iff)
  qed
  have nd: "int (ndigits (nat c)) + e \<le> 26 \<longleftrightarrow> dec_val d < 10 ^ 26" if "0 < c"
    using ndigits_dec_val [OF that, of e 26] by (simp add: d)
  have "(\<exists>m. mk_money (ADecimal d) cur = Inr m) \<longleftrightarrow> (\<exists>k. money_ok (Money d k) \<and> cur = currency_value k)"
    unfolding mk_money_decimal by (metis money.sel(2))
  also have "\<dots> \<longleftrightarrow> 0 < c \<and> whole_cents c e \<and> int (ndigits (nat c)) + e \<le> 26 \<and>
      cur \<in> {''RUB'', ''USD'', ''EUR''}"
    by (auto simp: d currency_values)
  also have "\<dots> \<longleftrightarrow> 0 < dec_val d \<and> (\<exists>k. dec_val d * 100 = of_int k) \<and> dec_val d < 10 ^ 26 \<and>
      cur \<in> {''RUB'', ''USD'', ''EUR''}"
    using pos nd whole_cents_val [of c e, folded d] by blast
  finally show ?thesis by (simp add: d)
next
  case (Infinity neg)
  then show ?thesis by (auto simp: mk_money_def)
next
  case (NaN sig)
  then show ?thesis by (auto simp: mk_money_def)
qed

text \<open>
  Property C30. \<open>Money(amount, currency)\<close> with a Decimal amount succeeds exactly when the amount
  is finite, positive, a whole number of cents and below 10^26, and the currency is RUB, USD or
  EUR; the object then holds that amount, with the same digits and exponent, and that currency.
\<close>

theorem money_accepts_iff:
  "mk_money (ADecimal d) cur = Inr m \<longleftrightarrow>
     is_finite d \<and> 0 < dec_val d \<and> (\<exists>cents. dec_val d * 100 = of_int cents) \<and> dec_val d < 10 ^ 26 \<and>
     cur \<in> {''RUB'', ''USD'', ''EUR''} \<and> money_amount m = d \<and> currency_value (money_currency m) = cur"
proof -
  have held: "money_amount m = d" "currency_value (money_currency m) = cur" if "mk_money (ADecimal d) cur = Inr m" for m
  proof -
    from that obtain k where "m = Money d k" "cur = currency_value (money_currency m)"
      unfolding mk_money_decimal by blast
    then show "money_amount m = d" "currency_value (money_currency m) = cur" by simp_all
  qed
  have only: "mk_money (ADecimal d) cur = Inr m"
    if n: "mk_money (ADecimal d) cur = Inr n" and m: "money_amount m = d" "currency_value (money_currency m) = cur" for n
  proof -
    from held(2) [OF n] m(2) have "money_currency m = money_currency n"
      by (cases "money_currency m"; cases "money_currency n") auto
    with held(1) [OF n] m(1) have "m = n" by (cases m, cases n) simp
    with n show ?thesis by simp
  qed
  show ?thesis using held only money_accepts [of d cur] by blast
qed

section \<open>Idempotency keys\<close>

datatype idempotency_key = IdempotencyKey (key_value: string)

definition key_max_length :: nat where
  "key_max_length = 255"

definition printable :: "char \<Rightarrow> bool" where
  "printable c \<longleftrightarrow> (let n = of_char c :: nat in 33 \<le> n \<and> n \<le> 126)"

text \<open>
  \<open>re.compile('^[\x21-\x7E]+$').match(v)\<close>: the final \<open>$\<close> matches at the end of the string and
  also before a newline that ends it.
\<close>

definition key_re_match :: "string \<Rightarrow> bool" where
  "key_re_match v \<longleftrightarrow>
     (let w = (if v \<noteq> [] \<and> last v = CHR 0x0A then butlast v else v)
      in w \<noteq> [] \<and> list_all printable w)"

lemma key_re_match_iff:
  "key_re_match v \<longleftrightarrow> (\<exists>w. w \<noteq> [] \<and> list_all printable w \<and> (v = w \<or> v = w @ [CHR 0x0A]))"
proof (cases "v \<noteq> [] \<and> last v = CHR 0x0A")
  case True
  then obtain u where v: "v = u @ [CHR 0x0A]" by (metis append_butlast_last_id)
  then have "\<not> list_all printable v" by (simp add: printable_def)
  moreover have "key_re_match v \<longleftrightarrow> u \<noteq> [] \<and> list_all printable u" by (simp add: key_re_match_def v)
  ultimately show ?thesis by (auto simp: v)
next
  case False
  then show ?thesis by (auto simp: key_re_match_def)
qed

definition mk_idempotency_key :: "string \<Rightarrow> exn + idempotency_key" where
  "mk_idempotency_key v =
     (if v = [] then Inl (ValueError ''Idempotency key must not be empty'')
      else if length v > key_max_length
        then Inl (ValueError ''Idempotency key must not exceed 255 characters'')
      else if \<not> key_re_match v
        then Inl (ValueError ''Idempotency key must contain only printable ASCII (no whitespace)'')
      else Inr (IdempotencyKey v))"

definition key_eq :: "idempotency_key \<Rightarrow> idempotency_key \<Rightarrow> bool" where
  "key_eq k l \<longleftrightarrow> key_value k = key_value l"

definition key_hash :: "(string \<Rightarrow> int) \<Rightarrow> idempotency_key \<Rightarrow> int" where
  "key_hash h k = h (key_value k)"

definition key_repr :: "idempotency_key \<Rightarrow> string" where
  "key_repr k = ''IdempotencyKey('' @ py_repr (key_value k) @ '')''"

text \<open>Equal value objects have equal hashes, so they can be keys of a dictionary.\<close>

lemma key_hash_eq: "key_eq k l \<Longrightarrow> k = l \<and> key_hash h k = key_hash h l"
  by (cases k; cases l) (simp add: key_eq_def key_hash_def)

lemma money_hash_eq:
  assumes "money_ok m" "money_ok n" "money_eq m n"
  shows "money_hash h m = money_hash h n"
proof -
  from assms(1,2) obtain c e k c' e' k' where mn: "m = Money (Finite c e) k" "n = Money (Finite c' e') k'"
    by (cases m rule: money_ok.cases; cases n rule: money_ok.cases) auto
  with assms(3) have "dec_val (Finite c e) = dec_val (Finite c' e')" "k = k'" by (simp_all add: dec_eq_iff_val del: dec_eq.simps)
  then show ?thesis by (simp add: mn money_hash_def del: dec_val.simps)
qed

text \<open>
  Property C31. An idempotency key is accepted exactly when it has 1 to 255 characters and is a
  non-empty run of printable ASCII (0x21-0x7E), optionally followed by one newline; the object
  holds the string unchanged, and every rejection is a \<open>ValueError\<close>.
\<close>

theorem idempotency_key_accepts_iff:
  "(mk_idempotency_key v = Inr k \<longleftrightarrow>
     k = IdempotencyKey v \<and> length v \<le> 255 \<and>
     (\<exists>w. w \<noteq> [] \<and> list_all printable w \<and> (v = w \<or> v = w @ [CHR 0x0A]))) \<and>
   (is_ok (mk_idempotency_key v) \<or> (\<exists>s. mk_idempotency_key v = Inl (ValueError s)))"
proof -
  have "v \<noteq> []" if "key_re_match v" using that by (auto simp: key_re_match_def)
  then have "mk_idempotency_key v = Inr k \<longleftrightarrow>
      k = IdempotencyKey v \<and> length v \<le> 255 \<and> key_re_match v"
    by (auto simp: mk_idempotency_key_def key_max_length_def)
  moreover have "is_ok (mk_idempotency_key v) \<or> (\<exists>s. mk_idempotency_key v = Inl (ValueError s))"
    by (auto simp: mk_idempotency_key_def)
  ultimately show ?thesis by (simp only: key_re_match_iff)
qed

text \<open>
  The printable-ASCII rule the key promises is not what the code enforces: a key
  that ends in a newline, which is neither printable nor free of whitespace, is accepted.
\<close>

theorem idempotency_key_accepts_newline:
  "mk_idempotency_key ''order-42\<newline>'' = Inr (IdempotencyKey ''order-42\<newline>'') \<and>
   \<not> list_all printable ''order-42\<newline>''"
  by (simp add: mk_idempotency_key_def key_max_length_def key_re_match_def printable_def)

section \<open>Retry policy\<close>

record retry_policy =
  max_attempts :: int
  base_delay :: seconds

definition mk_retry_policy :: "int \<Rightarrow> seconds \<Rightarrow> exn + retry_policy" where
  "mk_retry_policy n d =
     (if n < 1 then Inl (ValueError ''max_attempts must be at least 1'')
      else if d < 0 then Inl (ValueError ''base_delay must be non-negative'')
      else Inr \<lparr>max_attempts = n, base_delay = d\<rparr>)"

definition should_retry :: "retry_policy \<Rightarrow> int \<Rightarrow> bool" where
  "should_retry p attempt \<longleftrightarrow> attempt < max_attempts p"

definition next_retry_at :: "retry_policy \<Rightarrow> int \<Rightarrow> datetime \<Rightarrow> datetime" where
  "next_retry_at p attempt now = now + timedelta (base_delay p * of_int attempt)"

definition policy_ok :: "retry_policy \<Rightarrow> bool" where
  "policy_ok p \<longleftrightarrow> 1 \<le> max_attempts p \<and> 0 \<le> base_delay p"

lemma mk_retry_policy_ok: "mk_retry_policy n d = Inr p \<Longrightarrow> policy_ok p"
  by (auto simp: mk_retry_policy_def policy_ok_def split: if_splits)

lemma next_retry_at_later: "policy_ok p \<Longrightarrow> 0 \<le> attempt \<Longrightarrow> now \<le> next_retry_at p attempt now"
  by (simp add: next_retry_at_def policy_ok_def timedelta_nonneg)

lemma next_retry_at_mono:
  "policy_ok p \<Longrightarrow> m \<le> n \<Longrightarrow> next_retry_at p m now \<le> next_retry_at p n now"
  by (simp add: next_retry_at_def policy_ok_def timedelta_mono mult_left_mono)

end
