(* ===== verification/Attempt.thy ===== *)
theory Attempt
  imports Lifecycle ValueObjects
begin

text \<open>
  \<open>domain/gateway.py\<close> (the result of a charge) and \<open>domain/entities/attempt.py\<close>: one attempt to
  charge a payment, its transition table and its methods. A method that assigns fields returns
  the updated object.
\<close>

record gateway_result =
  gr_success :: bool
  gr_gateway_id :: "string option"
  gr_error :: "string option"
  gr_raw :: "pydict option"

datatype attempt_status = ACreated | AProcessing | ASucceeded | AFailed

fun attempt_status_value :: "attempt_status \<Rightarrow> string" where
  "attempt_status_value ACreated = ''created''"
| "attempt_status_value AProcessing = ''processing''"
| "attempt_status_value ASucceeded = ''succeeded''"
| "attempt_status_value AFailed = ''failed''"

definition mk_attempt_status :: "string \<Rightarrow> exn + attempt_status" where
  "mk_attempt_status s =
     (if s = ''created'' then Inr ACreated else if s = ''processing'' then Inr AProcessing
      else if s = ''succeeded'' then Inr ASucceeded else if s = ''failed'' then Inr AFailed
      else Inl (ValueError (py_repr s @ '' is not a valid PaymentAttemptStatus'')))"

record attempt =
  a_id :: uuid
  a_payment_id :: uuid
  a_number :: int
  a_status :: attempt_status
  a_error :: "string option"
  a_gateway_response :: "pydict option"
  a_correlation_id :: "string option"
  a_created_at :: datetime
  a_updated_at :: datetime

fun attempt_valid :: "attempt_status \<Rightarrow> attempt_status list" where
  "attempt_valid ACreated = [AProcessing]"
| "attempt_valid AProcessing = [ASucceeded, AFailed]"
| "attempt_valid ASucceeded = []"
| "attempt_valid AFailed = []"

definition attempt_transition :: "attempt_status \<Rightarrow> attempt \<Rightarrow> exn + attempt" where
  "attempt_transition target a =
     (if target \<notin> set (attempt_valid (a_status a))
      then Inl (InvalidStateTransition (attempt_status_value (a_status a)) (attempt_status_value target))
      else Inr (a\<lparr>a_status := target\<rparr>))"

definition attempt_create ::
    "uuid \<Rightarrow> uuid \<Rightarrow> int \<Rightarrow> string option \<Rightarrow> datetime \<Rightarrow> attempt" where
  "attempt_create i pid n corr created =
     \<lparr>a_id = i, a_payment_id = pid, a_number = n, a_status = ACreated, a_error = None,
      a_gateway_response = None, a_correlation_id = corr, a_created_at = created,
      a_updated_at = created\<rparr>"

definition attempt_start :: "datetime \<Rightarrow> attempt \<Rightarrow> exn + attempt" where
  "attempt_start now a = map_res (\<lambda>a. a\<lparr>a_updated_at := now\<rparr>) (attempt_transition AProcessing a)"

definition attempt_succeed :: "datetime \<Rightarrow> gateway_result \<Rightarrow> attempt \<Rightarrow> exn + attempt" where
  "attempt_succeed now r a =
     map_res (\<lambda>a. a\<lparr>a_gateway_response := gr_raw r, a_error := None, a_updated_at := now\<rparr>)
       (attempt_transition ASucceeded a)"

definition attempt_fail :: "datetime \<Rightarrow> string option \<Rightarrow> attempt \<Rightarrow> exn + attempt" where
  "attempt_fail now err a =
     map_res (\<lambda>a. a\<lparr>a_error := err, a_updated_at := now\<rparr>) (attempt_transition AFailed a)"

section \<open>Facts\<close>

lemma mk_attempt_status_value [simp]: "mk_attempt_status (attempt_status_value s) = Inr s"
  by (cases s) (simp_all add: mk_attempt_status_def)

lemma mk_attempt_status_Inr: "mk_attempt_status s = Inr st \<longleftrightarrow> s = attempt_status_value st"
  by (cases st) (auto simp: mk_attempt_status_def)

lemma attempt_transition_Inr:
  "attempt_transition t a = Inr b \<longleftrightarrow> t \<in> set (attempt_valid (a_status a)) \<and> b = a\<lparr>a_status := t\<rparr>"
  by (auto simp: attempt_transition_def)

lemma attempt_start_Inr:
  "attempt_start now a = Inr b \<longleftrightarrow>
     a_status a = ACreated \<and> b = a\<lparr>a_status := AProcessing, a_updated_at := now\<rparr>"
  by (cases "a_status a") (auto simp: attempt_start_def attempt_transition_def)

lemma attempt_succeed_Inr:
  "attempt_succeed now r a = Inr b \<longleftrightarrow>
     a_status a = AProcessing \<and>
     b = a\<lparr>a_status := ASucceeded, a_gateway_response := gr_raw r, a_error := None, a_updated_at := now\<rparr>"
  by (cases "a_status a") (auto simp: attempt_succeed_def attempt_transition_def)

lemma attempt_fail_Inr:
  "attempt_fail now err a = Inr b \<longleftrightarrow>
     a_status a = AProcessing \<and>
     b = a\<lparr>a_status := AFailed, a_error := err, a_updated_at := now\<rparr>"
  by (cases "a_status a") (auto simp: attempt_fail_def attempt_transition_def)

lemmas attempt_ops_Inr = attempt_start_Inr attempt_succeed_Inr attempt_fail_Inr

text \<open>
  The methods of \<open>PaymentAttempt\<close>, and what they keep: the identity of the attempt, and that an
  error text appears only on a failed attempt, a gateway response only on a succeeded one.
\<close>

definition attempt_ops :: "(attempt \<Rightarrow> exn + attempt) set" where
  "attempt_ops =
     {attempt_start now | now. True} \<union> {attempt_succeed now r | now r. True} \<union>
     {attempt_fail now err | now err. True}"

lemma attempt_opsI [simp, intro]:
  "attempt_start now \<in> attempt_ops" "attempt_succeed now r \<in> attempt_ops"
  "attempt_fail now err \<in> attempt_ops"
  unfolding attempt_ops_def by blast+

definition attempt_wf :: "attempt \<Rightarrow> bool" where
  "attempt_wf a \<longleftrightarrow>
     (a_status a \<noteq> AFailed \<longrightarrow> a_error a = None) \<and>
     (a_status a \<noteq> ASucceeded \<longrightarrow> a_gateway_response a = None)"

fun attempt_rank :: "attempt_status \<Rightarrow> nat" where
  "attempt_rank ACreated = 0"
| "attempt_rank AProcessing = 1"
| "attempt_rank ASucceeded = 2"
| "attempt_rank AFailed = 2"

interpretation att: lifecycle attempt_valid attempt_rank a_status attempt_ops attempt_wf
proof unfold_locales
  show "s = t \<or> attempt_rank s < attempt_rank t" if "t \<in> set (attempt_valid s)" for s t
    using that by (cases s) auto
  show "a_status y = a_status x \<or> a_status y \<in> set (attempt_valid (a_status x))"
    if "f \<in> attempt_ops" "f x = Inr y" for f x y
    using that by (auto simp: attempt_ops_def attempt_ops_Inr)
  show "attempt_wf y" if "f \<in> attempt_ops" "attempt_wf x" "f x = Inr y" for f x y
    using that by (auto simp: attempt_ops_def attempt_ops_Inr attempt_wf_def)
qed

lemma attempt_create_wf [simp]: "attempt_wf (attempt_create i pid n corr t)"
  by (simp add: attempt_create_def attempt_wf_def)

text \<open>
  Whatever methods are called on a new attempt, in any order and with calls that
  raise being caught: once it has succeeded or failed its status never changes, an error is
  recorded only on a failed attempt and a gateway response only on a succeeded one.
\<close>

theorem attempt_lifecycle:
  assumes "set fs \<subseteq> attempt_ops" and "set gs \<subseteq> attempt_ops"
    and a: "a = calls fs (attempt_create i pid n corr t)"
  shows "attempt_wf a \<and>
    (a_status a \<in> {ASucceeded, AFailed} \<longrightarrow> a_status (calls gs a) = a_status a)"
  using att.calls_inv [OF assms(1) attempt_create_wf] att.calls_final [OF assms(2), of a]
  by (auto simp: a)

theorem attempt_lifecycle_witness:
  "let a = calls [attempt_start 5, attempt_fail 6 (Some ''declined'')] (attempt_create 1 2 1 None 4)
   in a_status a = AFailed \<and> a_error a = Some ''declined'' \<and>
      a_status (calls [attempt_start 7] a) = AFailed"
proof -
  let ?fs = "[attempt_start 5, attempt_fail 6 (Some ''declined'')]"
  have fs: "set ?fs \<subseteq> attempt_ops" and gs: "set [attempt_start 7] \<subseteq> attempt_ops"
    by simp_all
  show ?thesis
    using attempt_lifecycle [OF fs gs refl, of 1 2 1 None 4]
    by (simp add: Let_def call_def attempt_create_def attempt_start_def attempt_fail_def
        attempt_transition_def)
qed

end
