(* ===== verification/Payment.thy ===== *)
theory Payment
  imports Attempt
begin

text \<open>
  The aggregate \<open>Payment\<close> (\<open>domain/aggregates/payment.py\<close>) and its events (\<open>domain/events/\<close>).
  A method that assigns fields returns the updated aggregate; \<open>begin_attempt\<close> and the two methods
  that finish an attempt also return the attempt. In Python that attempt is the object at the end
  of \<open>_attempts\<close>, so an update made through the aggregate shows in it: the model returns the
  updated element again.
\<close>

section \<open>Events\<close>

record event_base =
  ev_aggregate_id :: uuid
  ev_occurred_at :: datetime
  ev_correlation_id :: "string option"

datatype domain_event =
    PaymentCreated event_base string string "string option" pydict string string datetime
  | PaymentProcessingStarted event_base
  | PaymentSucceeded event_base datetime
  | PaymentFailed event_base "string option" datetime

fun event_base_of :: "domain_event \<Rightarrow> event_base" where
  "event_base_of (PaymentCreated b _ _ _ _ _ _ _) = b"
| "event_base_of (PaymentProcessingStarted b) = b"
| "event_base_of (PaymentSucceeded b _) = b"
| "event_base_of (PaymentFailed b _ _) = b"

text \<open>\<open>type(event).__name__\<close>, which is also the key of the class in \<open>EVENT_TYPES\<close>.\<close>

fun event_type :: "domain_event \<Rightarrow> string" where
  "event_type (PaymentCreated _ _ _ _ _ _ _ _) = ''PaymentCreated''"
| "event_type (PaymentProcessingStarted _) = ''PaymentProcessingStarted''"
| "event_type (PaymentSucceeded _ _) = ''PaymentSucceeded''"
| "event_type (PaymentFailed _ _ _) = ''PaymentFailed''"

section \<open>The aggregate\<close>

datatype payment_status = Pending | Processing | Succeeded | Failed

fun payment_status_value :: "payment_status \<Rightarrow> string" where
  "payment_status_value Pending = ''pending''"
| "payment_status_value Processing = ''processing''"
| "payment_status_value Succeeded = ''succeeded''"
| "payment_status_value Failed = ''failed''"

definition mk_payment_status :: "string \<Rightarrow> exn + payment_status" where
  "mk_payment_status s =
     (if s = ''pending'' then Inr Pending else if s = ''processing'' then Inr Processing
      else if s = ''succeeded'' then Inr Succeeded else if s = ''failed'' then Inr Failed
      else Inl (ValueError (py_repr s @ '' is not a valid PaymentStatus'')))"

record payment =
  p_id :: uuid
  p_idempotency_key :: idempotency_key
  p_money :: money
  p_description :: "string option"
  p_metadata :: pydict
  p_webhook_url :: string
  p_correlation_id :: "string option"
  p_status :: payment_status
  p_created_at :: datetime
  p_processed_at :: "datetime option"
  p_version :: int
  p_events :: "domain_event list"
  p_attempts :: "attempt list"

fun payment_valid :: "payment_status \<Rightarrow> payment_status list" where
  "payment_valid Pending = [Processing]"
| "payment_valid Processing = [Succeeded, Failed]"
| "payment_valid Succeeded = []"
| "payment_valid Failed = []"

definition add_event :: "domain_event \<Rightarrow> payment \<Rightarrow> payment" where
  "add_event e p = p\<lparr>p_events := p_events p @ [e]\<rparr>"

definition payment_create ::
    "uuid \<Rightarrow> idempotency_key \<Rightarrow> money \<Rightarrow> string option \<Rightarrow> pydict \<Rightarrow> string \<Rightarrow> string option \<Rightarrow>
     datetime \<Rightarrow> payment" where
  "payment_create i key m descr meta url corr created =
     add_event
       (PaymentCreated \<lparr>ev_aggregate_id = i, ev_occurred_at = created, ev_correlation_id = corr\<rparr>
          (dec_str (money_amount m)) (currency_value (money_currency m)) descr meta url
          (key_value key) created)
       \<lparr>p_id = i, p_idempotency_key = key, p_money = m, p_description = descr, p_metadata = meta,
        p_webhook_url = url, p_correlation_id = corr, p_status = Pending, p_created_at = created,
        p_processed_at = None, p_version = 0, p_events = [], p_attempts = []\<rparr>"

definition payment_transition :: "payment_status \<Rightarrow> payment \<Rightarrow> exn + payment" where
  "payment_transition target p =
     (if target \<notin> set (payment_valid (p_status p))
      then Inl (InvalidStateTransition (payment_status_value (p_status p)) (payment_status_value target))
      else Inr (p\<lparr>p_status := target\<rparr>))"

definition base_at :: "datetime \<Rightarrow> payment \<Rightarrow> event_base" where
  "base_at now p =
     \<lparr>ev_aggregate_id = p_id p, ev_occurred_at = now, ev_correlation_id = p_correlation_id p\<rparr>"

definition mark_processing :: "datetime \<Rightarrow> payment \<Rightarrow> exn + payment" where
  "mark_processing now p =
     map_res (\<lambda>p. add_event (PaymentProcessingStarted (base_at now p)) (p\<lparr>p_version := p_version p + 1\<rparr>))
       (payment_transition Processing p)"

definition mark_succeeded :: "datetime \<Rightarrow> payment \<Rightarrow> exn + payment" where
  "mark_succeeded now p =
     map_res (\<lambda>p. add_event (PaymentSucceeded (base_at now p) now)
                (p\<lparr>p_processed_at := Some now, p_version := p_version p + 1\<rparr>))
       (payment_transition Succeeded p)"

definition mark_failed :: "datetime \<Rightarrow> string option \<Rightarrow> payment \<Rightarrow> exn + payment" where
  "mark_failed now reason p =
     map_res (\<lambda>p. add_event (PaymentFailed (base_at now p) reason now)
                (p\<lparr>p_processed_at := Some now, p_version := p_version p + 1\<rparr>))
       (payment_transition Failed p)"

section \<open>Attempts of the aggregate\<close>

definition hydrate_attempts :: "attempt list \<Rightarrow> payment \<Rightarrow> payment" where
  "hydrate_attempts as p = p\<lparr>p_attempts := as\<rparr>"

definition require_processing :: "string \<Rightarrow> payment \<Rightarrow> exn + unit" where
  "require_processing op p =
     (if p_status p \<noteq> Processing
      then Inl (InvalidStateTransition (payment_status_value (p_status p)) op) else Inr ())"

definition current_attempt :: "payment \<Rightarrow> exn + attempt" where
  "current_attempt p =
     (if p_attempts p = []
      then Inl (InvalidStateTransition (payment_status_value (p_status p)) ''attempt'')
      else Inr (last (p_attempts p)))"

text \<open>\<open>max((a.attempt_number for a in attempts), default=0) + 1\<close>\<close>

definition next_attempt_number :: "attempt list \<Rightarrow> int" where
  "next_attempt_number as =
     (case map a_number as of [] \<Rightarrow> 0 | n # ns \<Rightarrow> fold max ns n) + 1"

definition begin_attempt ::
    "uuid \<Rightarrow> string option \<Rightarrow> datetime \<Rightarrow> payment \<Rightarrow> exn + payment \<times> attempt" where
  "begin_attempt aid corr now p =
     bind_res (require_processing ''begin_attempt'' p) (\<lambda>_.
     map_res (\<lambda>a. (p\<lparr>p_attempts := p_attempts p @ [a]\<rparr>, a))
       (attempt_start now (attempt_create aid (p_id p) (next_attempt_number (p_attempts p)) corr now)))"

text \<open>Replace the current attempt, the last of the list, by its updated value.\<close>

definition set_current :: "attempt \<Rightarrow> payment \<Rightarrow> payment" where
  "set_current a p = p\<lparr>p_attempts := butlast (p_attempts p) @ [a]\<rparr>"

definition succeed_attempt :: "datetime \<Rightarrow> gateway_result \<Rightarrow> payment \<Rightarrow> exn + payment \<times> attempt" where
  "succeed_attempt now r p =
     bind_res (require_processing ''succeed_attempt'' p) (\<lambda>_.
     bind_res (current_attempt p) (\<lambda>a.
     map_res (\<lambda>a. (set_current a p, a)) (attempt_succeed now r a)))"

definition fail_attempt :: "datetime \<Rightarrow> string option \<Rightarrow> payment \<Rightarrow> exn + payment \<times> attempt" where
  "fail_attempt now err p =
     bind_res (require_processing ''fail_attempt'' p) (\<lambda>_.
     bind_res (current_attempt p) (\<lambda>a.
     map_res (\<lambda>a. (set_current a p, a)) (attempt_fail now err a)))"

definition pull_events :: "payment \<Rightarrow> domain_event list \<times> payment" where
  "pull_events p = (p_events p, p\<lparr>p_events := []\<rparr>)"

section \<open>Facts\<close>

lemma mk_payment_status_value [simp]: "mk_payment_status (payment_status_value s) = Inr s"
  by (cases s) (simp_all add: mk_payment_status_def)

lemma mk_payment_status_Inr: "mk_payment_status s = Inr st \<longleftrightarrow> s = payment_status_value st"
  by (cases st) (auto simp: mk_payment_status_def)

lemma payment_status_value_inj [simp]: "payment_status_value s = payment_status_value t \<longleftrightarrow> s = t"
  by (cases s; cases t) auto

lemma mark_processing_Inr:
  "mark_processing now p = Inr q \<longleftrightarrow> p_status p = Pending \<and>
     q = p\<lparr>p_status := Processing, p_version := p_version p + 1,
           p_events := p_events p @ [PaymentProcessingStarted (base_at now p)]\<rparr>"
  by (cases "p_status p")
    (auto simp: mark_processing_def payment_transition_def add_event_def base_at_def)

lemma mark_succeeded_Inr:
  "mark_succeeded now p = Inr q \<longleftrightarrow> p_status p = Processing \<and>
     q = p\<lparr>p_status := Succeeded, p_version := p_version p + 1, p_processed_at := Some now,
           p_events := p_events p @ [PaymentSucceeded (base_at now p) now]\<rparr>"
  by (cases "p_status p")
    (auto simp: mark_succeeded_def payment_transition_def add_event_def base_at_def)

lemma mark_failed_Inr:
  "mark_failed now reason p = Inr q \<longleftrightarrow> p_status p = Processing \<and>
     q = p\<lparr>p_status := Failed, p_version := p_version p + 1, p_processed_at := Some now,
           p_events := p_events p @ [PaymentFailed (base_at now p) reason now]\<rparr>"
  by (cases "p_status p")
    (auto simp: mark_failed_def payment_transition_def add_event_def base_at_def)

lemma begin_attempt_Inr:
  "begin_attempt aid corr now p = Inr (q, a) \<longleftrightarrow> p_status p = Processing \<and>
     a = (attempt_create aid (p_id p) (next_attempt_number (p_attempts p)) corr now)
           \<lparr>a_status := AProcessing, a_updated_at := now\<rparr> \<and>
     q = p\<lparr>p_attempts := p_attempts p @ [a]\<rparr>"
  by (auto simp: begin_attempt_def require_processing_def res_simps attempt_start_Inr
      attempt_create_def)

lemma succeed_attempt_Inr:
  "succeed_attempt now r p = Inr (q, a) \<longleftrightarrow> p_status p = Processing \<and> p_attempts p \<noteq> [] \<and>
     a_status (last (p_attempts p)) = AProcessing \<and>
     a = (last (p_attempts p))\<lparr>a_status := ASucceeded, a_gateway_response := gr_raw r, a_error := None,
           a_updated_at := now\<rparr> \<and>
     q = set_current a p"
  by (auto simp: succeed_attempt_def require_processing_def current_attempt_def res_simps
      attempt_succeed_Inr)

lemma fail_attempt_Inr:
  "fail_attempt now err p = Inr (q, a) \<longleftrightarrow> p_status p = Processing \<and> p_attempts p \<noteq> [] \<and>
     a_status (last (p_attempts p)) = AProcessing \<and>
     a = (last (p_attempts p))\<lparr>a_status := AFailed, a_error := err, a_updated_at := now\<rparr> \<and>
     q = set_current a p"
  by (auto simp: fail_attempt_def require_processing_def current_attempt_def res_simps
      attempt_fail_Inr)

lemmas payment_ops_Inr = mark_processing_Inr mark_succeeded_Inr mark_failed_Inr
  begin_attempt_Inr succeed_attempt_Inr fail_attempt_Inr

lemma fold_max: "fold max ns (n::int) = Max (set (n # ns))"
  by (metis Max.set_eq_fold)

lemma next_attempt_number_Max:
  "as \<noteq> [] \<Longrightarrow> next_attempt_number as = Max (set (map a_number as)) + 1"
  by (cases as) (simp_all only: next_attempt_number_def list.map list.case fold_max, simp)

lemma next_attempt_number_gt: "a \<in> set as \<Longrightarrow> a_number a < next_attempt_number as"
proof -
  assume a: "a \<in> set as"
  then have "a_number a \<le> Max (set (map a_number as))" by (intro Max_ge) auto
  with a show ?thesis by (subst next_attempt_number_Max) auto
qed

lemma next_attempt_number_Nil [simp]: "next_attempt_number [] = 1"
  by (simp add: next_attempt_number_def)

section \<open>The life cycle of a payment\<close>

fun payment_rank :: "payment_status \<Rightarrow> nat" where
  "payment_rank Pending = 0"
| "payment_rank Processing = 1"
| "payment_rank Succeeded = 2"
| "payment_rank Failed = 2"

text \<open>
  The methods that change an aggregate by its own state machine, and all its methods that change it:
  these with \<open>pull_events\<close> and with \<open>hydrate_attempts\<close>, which is given the attempt lists of \<open>H\<close>.
\<close>

definition payment_mutators :: "(payment \<Rightarrow> exn + payment) set" where
  "payment_mutators =
     {mark_processing now | now. True} \<union> {mark_succeeded now | now. True} \<union>
     {mark_failed now r | now r. True} \<union>
     {\<lambda>p. map_res fst (begin_attempt i c now p) | i c now. True} \<union>
     {\<lambda>p. map_res fst (succeed_attempt now r p) | now r. True} \<union>
     {\<lambda>p. map_res fst (fail_attempt now e p) | now e. True}"

definition payment_ops :: "attempt list set \<Rightarrow> (payment \<Rightarrow> exn + payment) set" where
  "payment_ops H = payment_mutators \<union> {\<lambda>p. Inr (snd (pull_events p))} \<union>
     {\<lambda>p. Inr (hydrate_attempts as p) | as. as \<in> H}"

lemma payment_mutatorsI [simp, intro]:
  "mark_processing now \<in> payment_mutators" "mark_succeeded now \<in> payment_mutators"
  "mark_failed now reason \<in> payment_mutators"
  "(\<lambda>p. map_res fst (begin_attempt i c now p)) \<in> payment_mutators"
  "(\<lambda>p. map_res fst (succeed_attempt now r p)) \<in> payment_mutators"
  "(\<lambda>p. map_res fst (fail_attempt now e p)) \<in> payment_mutators"
  unfolding payment_mutators_def by blast+

lemma payment_opsI [simp, intro]:
  "f \<in> payment_mutators \<Longrightarrow> f \<in> payment_ops H" "(\<lambda>p. Inr (snd (pull_events p))) \<in> payment_ops H"
  "as \<in> H \<Longrightarrow> (\<lambda>p. Inr (hydrate_attempts as p)) \<in> payment_ops H"
  unfolding payment_ops_def by blast+

lemma payment_mutator_cases [consumes 2, case_names processing succeeded failed begin_attempt succeed_attempt fail_attempt]:
  assumes "f \<in> payment_mutators" and "f x = Inr y"
  obtains now where "mark_processing now x = Inr y"
  | now where "mark_succeeded now x = Inr y"
  | now reason where "mark_failed now reason x = Inr y"
  | i c now a where "begin_attempt i c now x = Inr (y, a)"
  | now r a where "succeed_attempt now r x = Inr (y, a)"
  | now e a where "fail_attempt now e x = Inr (y, a)"
  using assms by (auto simp: payment_mutators_def res_simps)

text \<open>The attempts of payment \<open>i\<close>, numbered 1, 2, 3, ...\<close>

definition numbered_attempts :: "uuid \<Rightarrow> attempt list \<Rightarrow> bool" where
  "numbered_attempts i as \<longleftrightarrow>
     map a_number as = [1..int (length as)] \<and> (\<forall>a \<in> set as. a_payment_id a = i)"

definition payment_wf :: "attempt list set \<Rightarrow> payment \<Rightarrow> bool" where
  "payment_wf H p \<longleftrightarrow>
     p_version p = int (payment_rank (p_status p)) \<and>
     (p_processed_at p \<noteq> None \<longleftrightarrow> p_status p \<in> {Succeeded, Failed}) \<and>
     ((\<forall>as \<in> H. numbered_attempts (p_id p) as) \<longrightarrow> numbered_attempts (p_id p) (p_attempts p)) \<and>
     (H \<subseteq> {[]} \<and> p_status p = Pending \<longrightarrow> p_attempts p = [])"

lemma next_attempt_number_upto:
  assumes "map a_number as = [1..int (length as)]"
  shows "next_attempt_number as = int (length as) + 1"
proof (cases "as = []")
  case False
  then have "Max (set [1..int (length as)]) = int (length as)"
    by (intro Max_eqI) (auto simp: Suc_le_eq)
  then show ?thesis by (subst next_attempt_number_Max [OF False]) (simp only: assms)
qed simp

lemma set_current_numbers:
  assumes "p_attempts p \<noteq> []" "a_number a = a_number (last (p_attempts p))"
  shows "map a_number (p_attempts (set_current a p)) = map a_number (p_attempts p)"
proof -
  obtain us u where "p_attempts p = us @ [u]" using assms(1) by (metis append_butlast_last_id)
  then show ?thesis using assms(2) by (simp add: set_current_def)
qed

lemma set_current_simps [simp]:
  "p_status (set_current a p) = p_status p" "p_version (set_current a p) = p_version p"
  "p_id (set_current a p) = p_id p" "p_processed_at (set_current a p) = p_processed_at p"
  "p_events (set_current a p) = p_events p" "p_correlation_id (set_current a p) = p_correlation_id p"
  "p_created_at (set_current a p) = p_created_at p" "p_money (set_current a p) = p_money p"
  "p_idempotency_key (set_current a p) = p_idempotency_key p"
  by (simp_all add: set_current_def)

lemma set_current_wf:
  assumes wf: "payment_wf H p" and ne: "p_attempts p \<noteq> []"
    and a: "a_number a = a_number (last (p_attempts p))" "a_payment_id a = a_payment_id (last (p_attempts p))"
    and st: "p_status p = Processing"
  shows "payment_wf H (set_current a p)"
proof -
  have len: "length (p_attempts (set_current a p)) = length (p_attempts p)"
    using ne by (simp add: set_current_def)
  have "numbered_attempts i (p_attempts (set_current a p))" if n: "numbered_attempts i (p_attempts p)" for i
  proof -
    have "a_payment_id a = i" using n ne a(2) by (simp add: numbered_attempts_def)
    moreover have "map a_number (p_attempts (set_current a p)) = [1..int (length (p_attempts p))]"
      using set_current_numbers [OF ne a(1)] n by (simp add: numbered_attempts_def)
    ultimately show ?thesis using n
      by (auto simp: numbered_attempts_def len) (auto simp: set_current_def dest: in_set_butlastD)
  qed
  then show ?thesis using wf st by (simp add: payment_wf_def)
qed

lemma numbered_snoc:
  assumes "numbered_attempts i as"
  shows "numbered_attempts i (as @ [(attempt_create aid i (next_attempt_number as) c t)
           \<lparr>a_status := st, a_updated_at := u\<rparr>])"
proof -
  have "next_attempt_number as = int (length as) + 1"
    using assms by (intro next_attempt_number_upto) (simp add: numbered_attempts_def)
  moreover have "[1..int (length as) + 1] = [1..int (length as)] @ [int (length as) + 1]" by (simp add: upto_rec2)
  ultimately show ?thesis using assms by (simp add: numbered_attempts_def attempt_create_def add.commute)
qed

lemma payment_mutator_wf:
  assumes "f \<in> payment_mutators" "f x = Inr y" "payment_wf H x"
  shows "payment_wf H y"
  using assms(1,2)
proof (cases rule: payment_mutator_cases)
  case (begin_attempt i c now a)
  with assms(3) show ?thesis by (auto simp: begin_attempt_Inr payment_wf_def intro!: numbered_snoc)
next
  case (succeed_attempt now r a)
  with assms(3) show ?thesis by (auto simp: succeed_attempt_Inr intro!: set_current_wf)
next
  case (fail_attempt now e a)
  with assms(3) show ?thesis by (auto simp: fail_attempt_Inr intro!: set_current_wf)
qed (use assms(3) in \<open>auto simp: payment_ops_Inr payment_wf_def\<close>)

lemma payment_mutator_status:
  assumes "f \<in> payment_mutators" "f x = Inr y"
  shows "p_status y = p_status x \<or> p_status y \<in> set (payment_valid (p_status x))"
  using assms by (cases rule: payment_mutator_cases) (auto simp: payment_ops_Inr)

lemma pull_events_simps [simp]:
  "payment_wf H (snd (pull_events p)) = payment_wf H p" "p_status (snd (pull_events p)) = p_status p"
  by (simp_all add: pull_events_def payment_wf_def)

lemma hydrate_attempts_simps [simp]: "p_status (hydrate_attempts as p) = p_status p"
  by (simp add: hydrate_attempts_def)

lemma hydrate_attempts_wf: "as \<in> H \<Longrightarrow> payment_wf H p \<Longrightarrow> payment_wf H (hydrate_attempts as p)"
  by (auto simp: hydrate_attempts_def payment_wf_def)

interpretation pay: lifecycle payment_valid payment_rank p_status "payment_ops H" "payment_wf H" for H
proof unfold_locales
  show "s = t \<or> payment_rank s < payment_rank t" if "t \<in> set (payment_valid s)" for s t
    using that by (cases s) auto
  show "p_status y = p_status x \<or> p_status y \<in> set (payment_valid (p_status x))"
    if "f \<in> payment_ops H" "f x = Inr y" for f x y
    using that payment_mutator_status by (auto simp: payment_ops_def)
  show "payment_wf H y" if "f \<in> payment_ops H" "payment_wf H x" "f x = Inr y" for f x y
    using that by (auto simp: payment_ops_def intro: payment_mutator_wf hydrate_attempts_wf)
qed

lemma payment_create_wf [simp]: "payment_wf H (payment_create i key m descr meta url corr t)"
  by (simp add: payment_create_def add_event_def payment_wf_def numbered_attempts_def)

lemma call_id: "f \<in> payment_ops H \<Longrightarrow> p_id (call f x) = p_id x"
  by (auto simp: call_def payment_ops_def payment_ops_Inr pull_events_def hydrate_attempts_def
      elim!: payment_mutator_cases split: sum.splits)

lemma calls_id: "set fs \<subseteq> payment_ops H \<Longrightarrow> p_id (calls fs x) = p_id x"
  by (induction fs arbitrary: x) (auto simp: call_id)

text \<open>
  Property C16. Whatever methods are called on a new payment, in any order and with the calls that
  raise being caught: its version counts its transitions (0 pending, 1 processing, 2 final),
  \<open>processed_at\<close> is set exactly when the status is final, and a succeeded or failed payment keeps
  its status for ever. If every list that \<open>hydrate_attempts\<close> was given consists of the payment's own
  attempts, numbered from 1 (as \<open>process_payment\<close> reads them back from the store), then the attempts
  belong to the payment and are numbered 1, 2, 3, ... without gaps; and if it was given no attempt,
  a pending payment has none.
\<close>

theorem payment_lifecycle:
  assumes "set fs \<subseteq> payment_ops H" and "set gs \<subseteq> payment_ops UNIV"
    and p: "p = calls fs (payment_create i key m descr meta url corr t)"
  shows "p_version p = int (payment_rank (p_status p)) \<and>
    (p_processed_at p \<noteq> None \<longleftrightarrow> p_status p \<in> {Succeeded, Failed}) \<and>
    (p_status p \<in> {Succeeded, Failed} \<longrightarrow> p_status (calls gs p) = p_status p) \<and>
    ((\<forall>as \<in> H. numbered_attempts i as) \<longrightarrow> numbered_attempts i (p_attempts p)) \<and>
    (H \<subseteq> {[]} \<and> p_status p = Pending \<longrightarrow> p_attempts p = [])"
proof -
  have "payment_wf H p" unfolding p by (rule pay.calls_inv [OF assms(1) payment_create_wf])
  moreover have "p_id p = i" unfolding p calls_id [OF assms(1)] by (simp add: payment_create_def add_event_def)
  moreover have "p_status p \<in> {Succeeded, Failed} \<longrightarrow> p_status (calls gs p) = p_status p"
    using pay.calls_final [OF assms(2), of p] by auto
  ultimately show ?thesis unfolding payment_wf_def by blast
qed

text \<open>
  The condition on the hydrated lists is needed: the method checks nothing, so a pending payment
  can be given the attempts of another one.
\<close>

lemma hydrate_foreign_attempts:
  "let p = calls [\<lambda>p. Inr (hydrate_attempts [attempt_create 5 2 7 None 0] p)]
             (payment_create 1 (IdempotencyKey ''k'') (Money (Finite 1050 (-2)) RUB) None [] ''http://x'' None 4)
   in p_status p = Pending \<and> \<not> numbered_attempts (p_id p) (p_attempts p)"
  by (simp add: call_def hydrate_attempts_def numbered_attempts_def attempt_create_def payment_create_def add_event_def)

definition demo_attempt :: attempt where
  "demo_attempt = attempt_create 5 1 1 None 3"

definition demo_calls :: "(payment \<Rightarrow> exn + payment) list" where
  "demo_calls = [mark_processing 5, \<lambda>p. Inr (hydrate_attempts [demo_attempt] p),
     \<lambda>p. map_res fst (begin_attempt 6 None 5 p), mark_succeeded 6]"

definition demo_called :: payment where
  "demo_called = calls demo_calls (payment_create 1 (IdempotencyKey ''k'') (Money (Finite 1050 (-2)) RUB)
     None [] ''http://x'' None 4)"

lemma demo_called_eq: "p_status demo_called = Succeeded" "length (p_attempts demo_called) = 2"
  by code_simp+

theorem payment_lifecycle_witness:
  "p_status demo_called = Succeeded \<and> p_version demo_called = 2 \<and> p_processed_at demo_called \<noteq> None \<and>
   numbered_attempts 1 (p_attempts demo_called) \<and> length (p_attempts demo_called) = 2 \<and>
   p_status (calls [mark_failed 7 None] demo_called) = Succeeded"
proof -
  have fs: "set demo_calls \<subseteq> payment_ops {[demo_attempt]}"
    and gs: "set [mark_failed 7 None] \<subseteq> payment_ops UNIV" by (simp_all add: demo_calls_def)
  have "numbered_attempts 1 [demo_attempt]"
    by (simp add: numbered_attempts_def demo_attempt_def attempt_create_def)
  then show ?thesis
    using payment_lifecycle [OF fs gs demo_called_def] by (simp add: demo_called_eq)
qed

section \<open>The events of a payment\<close>

fun event_log :: "payment_status \<Rightarrow> string list" where
  "event_log Pending = [''PaymentCreated'']"
| "event_log Processing = [''PaymentCreated'', ''PaymentProcessingStarted'']"
| "event_log Succeeded = [''PaymentCreated'', ''PaymentProcessingStarted'', ''PaymentSucceeded'']"
| "event_log Failed = [''PaymentCreated'', ''PaymentProcessingStarted'', ''PaymentFailed'']"

definition events_wf :: "payment \<Rightarrow> bool" where
  "events_wf p \<longleftrightarrow> map event_type (p_events p) = event_log (p_status p) \<and>
     (\<forall>e \<in> set (p_events p). ev_aggregate_id (event_base_of e) = p_id p \<and>
        ev_correlation_id (event_base_of e) = p_correlation_id p)"

interpretation pay_events: lifecycle payment_valid payment_rank p_status payment_mutators events_wf
proof unfold_locales
  show "p_status y = p_status x \<or> p_status y \<in> set (payment_valid (p_status x))"
    if "f \<in> payment_mutators" "f x = Inr y" for f x y
    using that by (rule payment_mutator_status)
  show "events_wf y" if "f \<in> payment_mutators" "events_wf x" "f x = Inr y" for f x y
    using that(1,3,2)
    by (cases rule: payment_mutator_cases) (auto simp: payment_ops_Inr events_wf_def base_at_def)
qed

text \<open>
  Property C17. Every transition of a payment emits exactly one event: as long as the events are
  not pulled, their types are PaymentCreated, then PaymentProcessingStarted, then one of
  PaymentSucceeded and PaymentFailed, up to the payment's current status, and each carries the
  payment's identifier and correlation id.
\<close>

theorem payment_events_follow_status:
  assumes "set fs \<subseteq> payment_mutators"
    and p: "p = calls fs (payment_create i key m descr meta url corr t)"
  shows "map event_type (p_events p) = event_log (p_status p) \<and>
    (\<forall>e \<in> set (p_events p). ev_aggregate_id (event_base_of e) = p_id p \<and>
        ev_correlation_id (event_base_of e) = p_correlation_id p)"
proof -
  have "events_wf (payment_create i key m descr meta url corr t)"
    by (simp add: events_wf_def payment_create_def add_event_def)
  with pay_events.calls_inv [OF assms(1)] have "events_wf p" by (simp add: p)
  then show ?thesis by (simp add: events_wf_def)
qed

theorem payment_events_follow_status_witness:
  "map event_type (p_events (calls [mark_processing 5, mark_succeeded 6]
       (payment_create 1 (IdempotencyKey ''k'') (Money (Finite 1050 (-2)) RUB) None [] ''http://x'' None 4)))
   = [''PaymentCreated'', ''PaymentProcessingStarted'', ''PaymentSucceeded'']"
proof -
  have fs: "set [mark_processing 5, mark_succeeded 6] \<subseteq> payment_mutators" by simp
  show ?thesis
    using payment_events_follow_status [OF fs refl, of 1 "IdempotencyKey ''k''"
        "Money (Finite 1050 (-2)) RUB" None "[]" "''http://x''" None 4]
    by (simp add: call_def payment_create_def add_event_def mark_processing_def
        mark_succeeded_def payment_transition_def)
qed

end
