(* ===== verification/Delivery.thy ===== *)
theory Delivery
  imports Lifecycle ValueObjects
begin

text \<open>
  \<open>domain/entities/webhook_delivery.py\<close>: the record of one webhook delivery and its retries under
  a \<open>RetryPolicy\<close>.
\<close>

datatype delivery_status = DPending | DSuccess | DFailed

fun delivery_status_value :: "delivery_status \<Rightarrow> string" where
  "delivery_status_value DPending = ''pending''"
| "delivery_status_value DSuccess = ''success''"
| "delivery_status_value DFailed = ''failed''"

definition mk_delivery_status :: "string \<Rightarrow> exn + delivery_status" where
  "mk_delivery_status s =
     (if s = ''pending'' then Inr DPending else if s = ''success'' then Inr DSuccess
      else if s = ''failed'' then Inr DFailed
      else Inl (ValueError (py_repr s @ '' is not a valid WebhookDeliveryStatus'')))"

record delivery =
  d_id :: uuid
  d_payment_id :: uuid
  d_event_type :: string
  d_attempt :: int
  d_status :: delivery_status
  d_response_code :: "int option"
  d_response_body :: "string option"
  d_next_retry_at :: "datetime option"
  d_correlation_id :: "string option"
  d_created_at :: datetime
  d_updated_at :: datetime

fun delivery_valid :: "delivery_status \<Rightarrow> delivery_status list" where
  "delivery_valid DPending = [DPending, DSuccess, DFailed]"
| "delivery_valid DSuccess = []"
| "delivery_valid DFailed = []"

definition delivery_transition :: "delivery_status \<Rightarrow> delivery \<Rightarrow> exn + delivery" where
  "delivery_transition target d =
     (if target \<notin> set (delivery_valid (d_status d))
      then Inl (InvalidStateTransition (delivery_status_value (d_status d)) (delivery_status_value target))
      else Inr (d\<lparr>d_status := target\<rparr>))"

definition delivery_create :: "uuid \<Rightarrow> uuid \<Rightarrow> string \<Rightarrow> string option \<Rightarrow> datetime \<Rightarrow> delivery" where
  "delivery_create i pid ev corr created =
     \<lparr>d_id = i, d_payment_id = pid, d_event_type = ev, d_attempt = 1, d_status = DPending,
      d_response_code = None, d_response_body = None, d_next_retry_at = None,
      d_correlation_id = corr, d_created_at = created, d_updated_at = created\<rparr>"

definition delivery_mark_success ::
    "datetime \<Rightarrow> int option \<Rightarrow> string option \<Rightarrow> delivery \<Rightarrow> exn + delivery" where
  "delivery_mark_success now code body d =
     map_res (\<lambda>d. d\<lparr>d_response_code := code, d_response_body := body, d_next_retry_at := None,
                     d_updated_at := now\<rparr>) (delivery_transition DSuccess d)"

definition delivery_mark_failed ::
    "datetime \<Rightarrow> int option \<Rightarrow> string option \<Rightarrow> delivery \<Rightarrow> exn + delivery" where
  "delivery_mark_failed now code body d =
     map_res (\<lambda>d. d\<lparr>d_response_code := code, d_response_body := body, d_next_retry_at := None,
                     d_updated_at := now\<rparr>) (delivery_transition DFailed d)"

definition delivery_schedule_retry ::
    "datetime \<Rightarrow> datetime \<Rightarrow> int option \<Rightarrow> string option \<Rightarrow> delivery \<Rightarrow> exn + delivery" where
  "delivery_schedule_retry now due code body d =
     map_res (\<lambda>d. d\<lparr>d_attempt := d_attempt d + 1, d_next_retry_at := Some due,
                     d_response_code := code, d_response_body := body, d_updated_at := now\<rparr>)
       (delivery_transition DPending d)"

definition delivery_record_failure ::
    "datetime \<Rightarrow> int option \<Rightarrow> string option \<Rightarrow> retry_policy \<Rightarrow> delivery \<Rightarrow> exn + delivery" where
  "delivery_record_failure now code body p d =
     (if should_retry p (d_attempt d)
      then delivery_schedule_retry now (next_retry_at p (d_attempt d) now) code body d
      else delivery_mark_failed now code body d)"

section \<open>Facts\<close>

lemma mk_delivery_status_value [simp]: "mk_delivery_status (delivery_status_value s) = Inr s"
  by (cases s) (simp_all add: mk_delivery_status_def)

lemma mk_delivery_status_Inr: "mk_delivery_status s = Inr st \<longleftrightarrow> s = delivery_status_value st"
  by (cases st) (auto simp: mk_delivery_status_def)

lemma delivery_mark_success_Inr:
  "delivery_mark_success now code body d = Inr d' \<longleftrightarrow>
     d_status d = DPending \<and>
     d' = d\<lparr>d_status := DSuccess, d_response_code := code, d_response_body := body,
            d_next_retry_at := None, d_updated_at := now\<rparr>"
  by (cases "d_status d") (auto simp: delivery_mark_success_def delivery_transition_def)

lemma delivery_mark_failed_Inr:
  "delivery_mark_failed now code body d = Inr d' \<longleftrightarrow>
     d_status d = DPending \<and>
     d' = d\<lparr>d_status := DFailed, d_response_code := code, d_response_body := body,
            d_next_retry_at := None, d_updated_at := now\<rparr>"
  by (cases "d_status d") (auto simp: delivery_mark_failed_def delivery_transition_def)

lemma delivery_schedule_retry_Inr:
  "delivery_schedule_retry now due code body d = Inr d' \<longleftrightarrow>
     d_status d = DPending \<and>
     d' = d\<lparr>d_status := DPending, d_attempt := d_attempt d + 1, d_next_retry_at := Some due,
            d_response_code := code, d_response_body := body, d_updated_at := now\<rparr>"
  by (cases "d_status d") (auto simp: delivery_schedule_retry_def delivery_transition_def)

lemma delivery_record_failure_Inr:
  "delivery_record_failure now code body p d = Inr d' \<longleftrightarrow>
     d_status d = DPending \<and>
     d' = (if should_retry p (d_attempt d)
           then d\<lparr>d_status := DPending, d_attempt := d_attempt d + 1,
                  d_next_retry_at := Some (next_retry_at p (d_attempt d) now),
                  d_response_code := code, d_response_body := body, d_updated_at := now\<rparr>
           else d\<lparr>d_status := DFailed, d_response_code := code, d_response_body := body,
                  d_next_retry_at := None, d_updated_at := now\<rparr>)"
  by (simp add: delivery_record_failure_def delivery_schedule_retry_Inr delivery_mark_failed_Inr)

lemmas delivery_ops_Inr = delivery_mark_success_Inr delivery_mark_failed_Inr
  delivery_schedule_retry_Inr delivery_record_failure_Inr

lemma delivery_record_failure_final:
  "d_status d \<noteq> DPending \<Longrightarrow> \<exists>e. delivery_record_failure now code body p d = Inl e"
  using delivery_record_failure_Inr [of now code body p d]
  by (cases "delivery_record_failure now code body p d") auto

text \<open>The methods of \<open>WebhookDelivery\<close>; a finished delivery has no retry time.\<close>

definition delivery_ops :: "(delivery \<Rightarrow> exn + delivery) set" where
  "delivery_ops =
     {delivery_mark_success now c b | now c b. True} \<union> {delivery_mark_failed now c b | now c b. True} \<union>
     {delivery_schedule_retry now due c b | now due c b. True} \<union>
     {delivery_record_failure now c b p | now c b p. True}"

lemma delivery_opsI [simp, intro]:
  "delivery_mark_success now c b \<in> delivery_ops" "delivery_mark_failed now c b \<in> delivery_ops"
  "delivery_schedule_retry now due c b \<in> delivery_ops"
  "delivery_record_failure now c b p \<in> delivery_ops"
  unfolding delivery_ops_def by blast+

definition delivery_wf :: "delivery \<Rightarrow> bool" where
  "delivery_wf d \<longleftrightarrow> 1 \<le> d_attempt d \<and> (d_status d \<noteq> DPending \<longrightarrow> d_next_retry_at d = None)"

fun delivery_rank :: "delivery_status \<Rightarrow> nat" where
  "delivery_rank DPending = 0"
| "delivery_rank DSuccess = 1"
| "delivery_rank DFailed = 1"

interpretation dlv: lifecycle delivery_valid delivery_rank d_status delivery_ops delivery_wf
proof unfold_locales
  show "s = t \<or> delivery_rank s < delivery_rank t" if "t \<in> set (delivery_valid s)" for s t
    using that by (cases s) auto
  show "d_status y = d_status x \<or> d_status y \<in> set (delivery_valid (d_status x))"
    if "f \<in> delivery_ops" "f x = Inr y" for f x y
    using that by (auto simp: delivery_ops_def delivery_ops_Inr split: if_splits)
  show "delivery_wf y" if "f \<in> delivery_ops" "delivery_wf x" "f x = Inr y" for f x y
    using that by (auto simp: delivery_ops_def delivery_ops_Inr delivery_wf_def split: if_splits)
qed

lemma delivery_create_wf [simp]: "delivery_wf (delivery_create i pid ev corr t)"
  by (simp add: delivery_create_def delivery_wf_def)

text \<open>
  Whatever methods are called on a new delivery, in any order: its attempt number
  stays at least 1, a delivered or failed one has no retry time, and no later call changes the
  status of a delivered or failed one.
\<close>

theorem delivery_lifecycle:
  assumes "set fs \<subseteq> delivery_ops" and "set gs \<subseteq> delivery_ops"
    and d: "d = calls fs (delivery_create i pid ev corr t)"
  shows "delivery_wf d \<and>
    (d_status d \<in> {DSuccess, DFailed} \<longrightarrow> d_status (calls gs d) = d_status d)"
  using dlv.calls_inv [OF assms(1) delivery_create_wf] dlv.calls_final [OF assms(2), of d]
  by (auto simp: d)

theorem delivery_lifecycle_witness:
  "let d = calls [delivery_mark_success 9 (Some 200) None] (delivery_create 1 2 ''payment.succeeded'' None 4)
   in d_status d = DSuccess \<and> d_status (calls [delivery_mark_failed 10 None None] d) = DSuccess"
proof -
  have fs: "set [delivery_mark_success 9 (Some 200) None] \<subseteq> delivery_ops"
    and gs: "set [delivery_mark_failed 10 None None] \<subseteq> delivery_ops"
    by simp_all
  show ?thesis
    using delivery_lifecycle [OF fs gs refl, of 1 2 "''payment.succeeded''" None 4]
    by (simp add: Let_def call_def delivery_create_def delivery_mark_success_def delivery_transition_def)
qed

section \<open>A run of failures\<close>

text \<open>The failures a delivery meets, each with its time, response code and body.\<close>

fun failures :: "retry_policy \<Rightarrow> (datetime \<times> int option \<times> string option) list \<Rightarrow> delivery \<Rightarrow> exn + delivery" where
  "failures p [] d = Inr d"
| "failures p ((now, code, body) # rs) d =
     bind_res (delivery_record_failure now code body p d) (failures p rs)"

lemma failures_snoc:
  "failures p (rs @ [(now, code, body)]) d =
     bind_res (failures p rs d) (delivery_record_failure now code body p)"
proof (induction rs arbitrary: d)
  case Nil
  then show ?case by (cases "delivery_record_failure now code body p d") auto
next
  case (Cons r rs)
  obtain n c b where r: "r = (n, c, b)" by (cases r)
  then show ?case using Cons by (cases "delivery_record_failure n c b p d") auto
qed

lemma failures_pending:
  assumes "int (length rs) < max_attempts p"
  shows "\<exists>d. failures p rs (delivery_create i pid ev corr t) = Inr d \<and> d_status d = DPending \<and>
    d_attempt d = 1 + int (length rs) \<and> d_id d = i \<and>
    (\<forall>pre now code body. rs = pre @ [(now, code, body)] \<longrightarrow>
       d_next_retry_at d = Some (now + timedelta (base_delay p * of_nat (length rs))))"
  using assms
proof (induction rs rule: rev_induct)
  case Nil
  then show ?case by (simp add: delivery_create_def)
next
  case (snoc r rs)
  obtain n c b where r: "r = (n, c, b)" by (cases r)
  from snoc obtain d where d: "failures p rs (delivery_create i pid ev corr t) = Inr d"
    "d_status d = DPending" "d_attempt d = 1 + int (length rs)" "d_id d = i" by auto
  have retry: "should_retry p (d_attempt d)" using snoc.prems d by (simp add: should_retry_def)
  define d' where "d' = d\<lparr>d_status := DPending, d_attempt := d_attempt d + 1,
      d_next_retry_at := Some (next_retry_at p (d_attempt d) n),
      d_response_code := c, d_response_body := b, d_updated_at := n\<rparr>"
  have "delivery_record_failure n c b p d = Inr d'"
    unfolding delivery_record_failure_Inr using d(2) retry by (simp add: d'_def)
  then have "failures p (rs @ [r]) (delivery_create i pid ev corr t) = Inr d'"
    by (simp add: failures_snoc r d(1))
  moreover have "d_next_retry_at d' = Some (n + timedelta (base_delay p * of_nat (length (rs @ [r]))))"
    by (simp add: d'_def next_retry_at_def d(3))
  ultimately show ?case using d by (simp add: d'_def r)
qed

lemma failures_exhausted:
  assumes "int (length rs) = max_attempts p" "1 \<le> max_attempts p"
  shows "\<exists>d. failures p rs (delivery_create i pid ev corr t) = Inr d \<and> d_status d = DFailed \<and>
    d_attempt d = max_attempts p \<and> d_next_retry_at d = None"
proof -
  from assms obtain rs' now code body where rs: "rs = rs' @ [(now, code, body)]"
    "int (length rs') + 1 = max_attempts p"
    by (cases rs rule: rev_cases) auto
  then obtain d where d: "failures p rs' (delivery_create i pid ev corr t) = Inr d"
    "d_status d = DPending" "d_attempt d = max_attempts p"
    using failures_pending [of rs' p i pid ev corr t] by auto
  then show ?thesis
    by (simp add: rs(1) failures_snoc delivery_record_failure_Inr should_retry_def)
qed

text \<open>
  Property C18. A delivery whose sends all fail under a policy with \<open>n\<close> attempts is retried exactly
  \<open>n - 1\<close> times: after \<open>k < n\<close> failures it is pending with attempt number \<open>k + 1\<close>, due
  \<open>base_delay * k\<close> after the last failure; after the \<open>n\<close>-th failure it is failed with attempt
  number \<open>n\<close> and no retry time; one more failure would raise.
\<close>

theorem delivery_retries_exactly_max:
  assumes "mk_retry_policy n delay = Inr p" and d0: "d0 = delivery_create i pid ev corr t"
  shows "(int (length rs) < n \<longrightarrow>
      (\<exists>d. failures p rs d0 = Inr d \<and> d_status d = DPending \<and> d_attempt d = 1 + int (length rs) \<and>
        (rs \<noteq> [] \<longrightarrow> d_next_retry_at d =
           Some (fst (last rs) + timedelta (delay * of_nat (length rs)))))) \<and>
    (int (length rs) = n \<longrightarrow>
      (\<exists>d. failures p rs d0 = Inr d \<and> d_status d = DFailed \<and> d_attempt d = n \<and>
        d_next_retry_at d = None)) \<and>
    (int (length rs) = n + 1 \<longrightarrow>
      failures p rs d0 = Inl (InvalidStateTransition ''failed'' ''failed''))"
proof -
  from assms(1) have p: "max_attempts p = n" "base_delay p = delay" "1 \<le> n"
    by (auto simp: mk_retry_policy_def split: if_splits)
  show ?thesis
  proof (intro conjI impI)
    assume "int (length rs) < n"
    with p failures_pending [of rs p i pid ev corr t]
    show "\<exists>d. failures p rs d0 = Inr d \<and> d_status d = DPending \<and> d_attempt d = 1 + int (length rs) \<and>
        (rs \<noteq> [] \<longrightarrow> d_next_retry_at d =
           Some (fst (last rs) + timedelta (delay * of_nat (length rs))))"
      by (cases rs rule: rev_cases) (auto simp: d0)
  next
    assume "int (length rs) = n"
    with p show "\<exists>d. failures p rs d0 = Inr d \<and> d_status d = DFailed \<and> d_attempt d = n \<and>
        d_next_retry_at d = None"
      using failures_exhausted [of rs p i pid ev corr t] by (auto simp: d0)
  next
    assume len: "int (length rs) = n + 1"
    then obtain rs' now code body where rs: "rs = rs' @ [(now, code, body)]" "int (length rs') = n"
      using p(3) by (cases rs rule: rev_cases) auto
    then obtain d where d: "failures p rs' d0 = Inr d" "d_status d = DFailed" "d_attempt d = n"
      using failures_exhausted [of rs' p i pid ev corr t] p by (auto simp: d0)
    show "failures p rs d0 = Inl (InvalidStateTransition ''failed'' ''failed'')"
      using d p(1) by (simp add: rs(1) failures_snoc delivery_record_failure_def should_retry_def
          delivery_mark_failed_def delivery_transition_def)
  qed
qed

theorem delivery_retries_exactly_max_witness:
  "let p = \<lparr>max_attempts = 2, base_delay = 1\<rparr>; d0 = delivery_create 1 2 ''payment.failed'' None 0
   in (\<exists>d. failures p [(0, Some 500, None)] d0 = Inr d \<and> d_status d = DPending \<and> d_attempt d = 2 \<and>
         d_next_retry_at d = Some 1000000) \<and>
      (\<exists>d. failures p [(0, Some 500, None), (1000000, None, None)] d0 = Inr d \<and> d_status d = DFailed)"
proof -
  have p: "mk_retry_policy 2 1 = Inr \<lparr>max_attempts = 2, base_delay = 1\<rparr>"
    by (simp add: mk_retry_policy_def)
  have "timedelta 1 = 1000000" using timedelta_of_int [of 1] by simp
  then show ?thesis
    using delivery_retries_exactly_max [OF p refl, of "[(0, Some 500, None)]" 1 2 "''payment.failed''" None 0]
      delivery_retries_exactly_max [OF p refl, of "[(0, Some 500, None), (1000000, None, None)]"
        1 2 "''payment.failed''" None 0]
    by (simp add: Let_def) blast
qed

end
