(* ===== verification/Db.thy ===== *)
theory Db
  imports Payment Delivery
begin

text \<open>
  The four tables of the service: the rows of \<open>infrastructure/models/\<close> with the constraints the
  models and the migrations declare, and the SQLAlchemy session as the program uses it: rows added
  with \<open>session.add\<close> stay pending until the next statement or the commit flushes them.

  A timestamp column stores what it is given, and a \<open>TEXT\<close> or \<open>JSONB\<close> column any text without the
  character NUL, which PostgreSQL cannot store (the order and duplicates of JSON object keys are not
  normalised); \<open>VARCHAR(n)\<close>, \<open>NUMERIC(18,2)\<close> and \<open>INTEGER\<close> columns check their range too.
  \<open>DBAPIError\<close> carries the class of the database error; of several errors of a row the model reports
  one, in a fixed order.
\<close>

section \<open>Rows\<close>

record payment_row =
  pr_id :: uuid
  pr_idempotency_key :: string
  pr_amount :: decimal
  pr_currency :: string
  pr_description :: "string option"
  pr_metadata :: pydict
  pr_status :: string
  pr_webhook_url :: string
  pr_correlation_id :: "string option"
  pr_created_at :: datetime
  pr_processed_at :: "datetime option"
  pr_version :: int

record attempt_row =
  ar_id :: uuid
  ar_payment_id :: uuid
  ar_attempt_number :: int
  ar_status :: string
  ar_error :: "string option"
  ar_gateway_response :: "pydict option"
  ar_correlation_id :: "string option"
  ar_created_at :: datetime
  ar_updated_at :: datetime

record outbox_row =
  ob_id :: uuid
  ob_event_type :: string
  ob_aggregate_id :: uuid
  ob_payload :: pydict
  ob_correlation_id :: "string option"
  ob_attempts :: int
  ob_status :: string
  ob_created_at :: datetime
  ob_next_retry_at :: "datetime option"
  ob_claimed_at :: "datetime option"
  ob_claimed_by :: "uuid option"
  ob_processed_at :: "datetime option"
  ob_finished_at :: "datetime option"

record delivery_row =
  wr_id :: uuid
  wr_payment_id :: uuid
  wr_event_type :: string
  wr_attempt :: int
  wr_status :: string
  wr_response_code :: "int option"
  wr_response_body :: "string option"
  wr_next_retry_at :: "datetime option"
  wr_correlation_id :: "string option"
  wr_created_at :: datetime
  wr_updated_at :: datetime

record db =
  payments :: "payment_row list"
  payment_attempts :: "attempt_row list"
  outbox_messages :: "outbox_row list"
  webhook_deliveries :: "delivery_row list"

definition empty_db :: db where
  "empty_db = \<lparr>payments = [], payment_attempts = [], outbox_messages = [], webhook_deliveries = []\<rparr>"

section \<open>Column types and checks\<close>

definition varchar :: "nat \<Rightarrow> string \<Rightarrow> bool" where
  "varchar n s \<longleftrightarrow> length s \<le> n"

definition varchar_opt :: "nat \<Rightarrow> string option \<Rightarrow> bool" where
  "varchar_opt n s \<longleftrightarrow> (case s of None \<Rightarrow> True | Some t \<Rightarrow> length t \<le> n)"

text \<open>Text that PostgreSQL can store: no NUL, also inside a JSON document.\<close>

definition text_ok :: "string \<Rightarrow> bool" where
  "text_ok s \<longleftrightarrow> CHR 0x00 \<notin> set s"

definition text_opt :: "string option \<Rightarrow> bool" where
  "text_opt s \<longleftrightarrow> (case s of None \<Rightarrow> True | Some t \<Rightarrow> text_ok t)"

fun json_text :: "pyval \<Rightarrow> bool" where
  "json_text (VStr s) = text_ok s"
| "json_text (VList vs) = list_all json_text vs"
| "json_text (VTuple vs) = list_all json_text vs"
| "json_text (VDict kvs) = list_all (\<lambda>kv. text_ok (fst kv) \<and> json_text (snd kv)) kvs"
| "json_text _ = True"

definition int4 :: "int \<Rightarrow> bool" where
  "int4 i \<longleftrightarrow> - (2 ^ 31) \<le> i \<and> i < 2 ^ 31"

text \<open>\<open>NUMERIC(18, 2)\<close>: rounds half away from zero to two decimals, at most 16 digits before.\<close>

definition div_half_away :: "int \<Rightarrow> int \<Rightarrow> int" where
  "div_half_away c d = sgn c * ((2 * \<bar>c\<bar> + d) div (2 * d))"

definition cents :: "int \<Rightarrow> int \<Rightarrow> int" where
  "cents c e = (if -2 \<le> e then c * 10 ^ nat (e + 2) else div_half_away c (10 ^ nat (- 2 - e)))"

fun numeric_18_2 :: "decimal \<Rightarrow> decimal option" where
  "numeric_18_2 (Finite c e) = (if \<bar>cents c e\<bar> < 10 ^ 18 then Some (Finite (cents c e) (-2)) else None)"
| "numeric_18_2 (Infinity neg) = None"
| "numeric_18_2 (NaN sig) = Some (NaN False)"

text \<open>\<open>amount > 0\<close>; PostgreSQL orders NaN above every number.\<close>

fun numeric_positive :: "decimal \<Rightarrow> bool" where
  "numeric_positive (Finite c e) \<longleftrightarrow> 0 < c"
| "numeric_positive (Infinity neg) \<longleftrightarrow> \<not> neg"
| "numeric_positive (NaN sig) \<longleftrightarrow> True"

definition json_dict :: "pydict \<Rightarrow> bool" where
  "json_dict d \<longleftrightarrow> jsonable (VDict d)"

text \<open>
  What a parameter of a statement must satisfy: a document that \<open>json.dumps\<close> cannot write fails in
  the client, a text with NUL in the server.
\<close>

definition params_check :: "pydict option \<Rightarrow> string option list \<Rightarrow> exn + unit" where
  "params_check doc texts =
     (if \<not> (case doc of None \<Rightarrow> True | Some g \<Rightarrow> json_dict g) then Inl (DBAPIError ''StatementError'')
      else if \<not> list_all text_opt texts then Inl (DBAPIError ''CharacterNotInRepertoire'')
      else if \<not> (case doc of None \<Rightarrow> True | Some g \<Rightarrow> json_text (VDict g))
        then Inl (DBAPIError ''UntranslatableCharacter'')
      else Inr ())"

text \<open>\<open>webhook_url ~ '^https?://'\<close>\<close>

definition http_url :: "string \<Rightarrow> bool" where
  "http_url s \<longleftrightarrow> take 7 s = ''http://'' \<or> take 8 s = ''https://''"

text \<open>The row an \<open>INSERT\<close> into \<open>payments\<close> stores, or the error it raises.\<close>

definition payment_row_check :: "payment_row \<Rightarrow> exn + payment_row" where
  "payment_row_check r =
     bind_res (params_check (Some (pr_metadata r))
         [Some (pr_idempotency_key r), Some (pr_currency r), pr_description r, Some (pr_status r),
          Some (pr_webhook_url r), pr_correlation_id r]) (\<lambda>_.
      if \<not> int4 (pr_version r) then Inl (DBAPIError ''DataError'')
      else if \<not> (varchar 255 (pr_idempotency_key r) \<and> varchar 3 (pr_currency r) \<and>
               varchar 16 (pr_status r) \<and> varchar_opt 64 (pr_correlation_id r))
        then Inl (DBAPIError ''StringDataRightTruncation'')
      else case numeric_18_2 (pr_amount r) of
        None \<Rightarrow> Inl (DBAPIError ''NumericValueOutOfRange'')
      | Some a \<Rightarrow>
          if \<not> numeric_positive a \<or> pr_currency r \<notin> {''RUB'', ''USD'', ''EUR''} \<or>
             pr_status r \<notin> {''pending'', ''processing'', ''succeeded'', ''failed''} \<or>
             \<not> http_url (pr_webhook_url r)
          then Inl (DBAPIError ''CheckViolation'')
          else Inr (r\<lparr>pr_amount := a\<rparr>))"

definition attempt_row_check :: "db \<Rightarrow> attempt_row \<Rightarrow> exn + unit" where
  "attempt_row_check d r =
     bind_res (params_check (ar_gateway_response r) [Some (ar_status r), ar_error r, ar_correlation_id r]) (\<lambda>_.
      if \<not> int4 (ar_attempt_number r) then Inl (DBAPIError ''DataError'')
      else if \<not> (varchar 16 (ar_status r) \<and> varchar_opt 64 (ar_correlation_id r))
        then Inl (DBAPIError ''StringDataRightTruncation'')
      else if ar_attempt_number r \<le> 0 \<or>
              ar_status r \<notin> {''created'', ''processing'', ''succeeded'', ''failed''}
        then Inl (DBAPIError ''CheckViolation'')
      else if row_by ar_id (ar_id r) (payment_attempts d) \<noteq> None
        then Inl (DBAPIError ''UniqueViolation'')
      else if row_by pr_id (ar_payment_id r) (payments d) = None
        then Inl (DBAPIError ''ForeignKeyViolation'')
      else Inr ())"

definition outbox_row_check :: "db \<Rightarrow> outbox_row \<Rightarrow> exn + unit" where
  "outbox_row_check d r =
     bind_res (params_check (Some (ob_payload r)) [Some (ob_event_type r), Some (ob_status r), ob_correlation_id r]) (\<lambda>_.
      if \<not> int4 (ob_attempts r) then Inl (DBAPIError ''DataError'')
      else if \<not> (varchar 64 (ob_event_type r) \<and> varchar 16 (ob_status r) \<and>
               varchar_opt 64 (ob_correlation_id r))
        then Inl (DBAPIError ''StringDataRightTruncation'')
      else if row_by ob_id (ob_id r) (outbox_messages d) \<noteq> None
        then Inl (DBAPIError ''UniqueViolation'')
      else Inr ())"

definition delivery_row_check :: "db \<Rightarrow> delivery_row \<Rightarrow> exn + unit" where
  "delivery_row_check d r =
     bind_res (params_check None [Some (wr_event_type r), Some (wr_status r), wr_response_body r, wr_correlation_id r]) (\<lambda>_.
      if \<not> (int4 (wr_attempt r) \<and> (case wr_response_code r of None \<Rightarrow> True | Some c \<Rightarrow> int4 c))
        then Inl (DBAPIError ''DataError'')
      else if \<not> (varchar 64 (wr_event_type r) \<and> varchar 16 (wr_status r) \<and>
               varchar_opt 64 (wr_correlation_id r))
        then Inl (DBAPIError ''StringDataRightTruncation'')
      else if wr_status r \<notin> {''pending'', ''success'', ''failed''}
        then Inl (DBAPIError ''CheckViolation'')
      else if row_by wr_id (wr_id r) (webhook_deliveries d) \<noteq> None
        then Inl (DBAPIError ''UniqueViolation'')
      else if row_by pr_id (wr_payment_id r) (payments d) = None
        then Inl (DBAPIError ''ForeignKeyViolation'')
      else Inr ())"

section \<open>The session\<close>

datatype new_row = NewAttempt attempt_row | NewOutbox outbox_row | NewDelivery delivery_row

record session =
  s_db :: db
  s_pending :: "new_row list"

definition open_session :: "db \<Rightarrow> session" where
  "open_session d = \<lparr>s_db = d, s_pending = []\<rparr>"

definition session_add :: "new_row \<Rightarrow> session \<Rightarrow> session" where
  "session_add r s = s\<lparr>s_pending := s_pending s @ [r]\<rparr>"

fun insert_row :: "new_row \<Rightarrow> db \<Rightarrow> exn + db" where
  "insert_row (NewAttempt r) d =
     map_res (\<lambda>_. d\<lparr>payment_attempts := payment_attempts d @ [r]\<rparr>) (attempt_row_check d r)"
| "insert_row (NewOutbox r) d =
     map_res (\<lambda>_. d\<lparr>outbox_messages := outbox_messages d @ [r]\<rparr>) (outbox_row_check d r)"
| "insert_row (NewDelivery r) d =
     map_res (\<lambda>_. d\<lparr>webhook_deliveries := webhook_deliveries d @ [r]\<rparr>) (delivery_row_check d r)"

fun insert_rows :: "new_row list \<Rightarrow> db \<Rightarrow> exn + db" where
  "insert_rows [] d = Inr d"
| "insert_rows (r # rs) d = bind_res (insert_row r d) (insert_rows rs)"

text \<open>Flush the pending rows; every executed statement does it first.\<close>

definition flush :: "session \<Rightarrow> exn + session" where
  "flush s = map_res (\<lambda>d. \<lparr>s_db = d, s_pending = []\<rparr>) (insert_rows (s_pending s) (s_db s))"

text \<open>A statement that reads or changes the tables, after the flush.\<close>

definition execute :: "(db \<Rightarrow> exn + 'a \<times> db) \<Rightarrow> session \<Rightarrow> exn + 'a \<times> session" where
  "execute stmt s =
     bind_res (flush s) (\<lambda>s'. map_res (\<lambda>(a, d). (a, s'\<lparr>s_db := d\<rparr>)) (stmt (s_db s')))"

section \<open>Facts\<close>

lemma params_check_Inr [res_simps]:
  "params_check doc texts = Inr u \<longleftrightarrow> list_all text_opt texts \<and>
     (case doc of None \<Rightarrow> True | Some g \<Rightarrow> json_dict g \<and> json_text (VDict g))"
  by (cases doc) (auto simp: params_check_def)

lemma text_opt_simps [simp]: "text_opt None" "text_opt (Some s) = text_ok s"
  by (simp_all add: text_opt_def)

lemma flush_no_pending [simp]: "s_pending s = [] \<Longrightarrow> flush s = Inr s"
  by (simp add: flush_def)

lemma open_session_simps [simp]: "s_pending (open_session d) = []" "s_db (open_session d) = d"
  by (simp_all add: open_session_def)

lemma open_session_set [simp]: "(open_session d)\<lparr>s_db := d'\<rparr> = open_session d'"
  by (simp add: open_session_def)

lemma flush_pending: "flush s = Inr s' \<Longrightarrow> s_pending s' = []"
  by (auto simp: flush_def res_simps)

lemma execute_no_pending [simp]:
  "s_pending s = [] \<Longrightarrow> execute stmt s = map_res (\<lambda>(a, d). (a, s\<lparr>s_db := d\<rparr>)) (stmt (s_db s))"
  by (simp add: execute_def)

lemma insert_row_payments: "insert_row r d = Inr d' \<Longrightarrow> payments d' = payments d"
  by (cases r) (auto simp: res_simps)

lemma insert_rows_payments: "insert_rows rs d = Inr d' \<Longrightarrow> payments d' = payments d"
  by (induction rs arbitrary: d) (auto simp: res_simps dest!: insert_row_payments)

text \<open>
  The money columns are lossless for \<open>Money\<close> amounts below 10^16: the stored amount is
  numerically the amount of the object.
\<close>

lemma cents_whole: "whole_cents c e \<Longrightarrow> 0 < c \<Longrightarrow> cents c e = rescale2 c e"
proof (cases "-2 \<le> e")
  case False
  assume w: "whole_cents c e" and c: "0 < c"
  define d :: int where "d = 10 ^ nat (- 2 - e)"
  have d: "0 < d" "d dvd c" using w False by (simp_all add: d_def whole_cents_def)
  then obtain k where k: "c = d * k" by (auto elim: dvdE)
  have "(2 * (d * k) + d) div (2 * d) = k"
    using d(1) by (simp add: div_add1_eq algebra_simps)
  moreover have "div_half_even c d = k"
    using d c k by (auto simp: div_half_even_def Let_def zero_less_mult_iff)
  ultimately show ?thesis
    using False c d by (simp add: cents_def rescale2_def div_half_away_def k flip: d_def)
qed (simp add: cents_def rescale2_def)

end
