(* ===== verification/PaymentRepo.thy ===== *)
theory PaymentRepo
  imports Db
begin

text \<open>
  \<open>infrastructure/mappers/payment.py\<close> and \<open>infrastructure/repositories/payment.py\<close>: rows to
  aggregates, the idempotent insert and the three updates guarded by status and version. The
  locale states what the handlers rely on of a guarded update; each of the three interprets it.
\<close>

section \<open>Mapping\<close>

definition payment_to_domain :: "payment_row \<Rightarrow> exn + payment" where
  "payment_to_domain r =
     bind_res (mk_idempotency_key (pr_idempotency_key r)) (\<lambda>key.
     bind_res (mk_money (ADecimal (pr_amount r)) (pr_currency r)) (\<lambda>m.
     map_res (\<lambda>st.
        \<lparr>p_id = pr_id r, p_idempotency_key = key, p_money = m, p_description = pr_description r,
         p_metadata = pr_metadata r, p_webhook_url = pr_webhook_url r,
         p_correlation_id = pr_correlation_id r, p_status = st, p_created_at = pr_created_at r,
         p_processed_at = pr_processed_at r, p_version = pr_version r, p_events = [],
         p_attempts = []\<rparr>)
       (mk_payment_status (pr_status r))))"

definition payment_values :: "payment \<Rightarrow> payment_row" where
  "payment_values p =
     \<lparr>pr_id = p_id p, pr_idempotency_key = key_value (p_idempotency_key p),
      pr_amount = money_amount (p_money p),
      pr_currency = currency_value (money_currency (p_money p)),
      pr_description = p_description p, pr_metadata = p_metadata p,
      pr_status = payment_status_value (p_status p), pr_webhook_url = p_webhook_url p,
      pr_correlation_id = p_correlation_id p, pr_created_at = p_created_at p,
      pr_processed_at = p_processed_at p, pr_version = p_version p\<rparr>"

section \<open>Queries\<close>

text \<open>
  \<open>INSERT ... ON CONFLICT (idempotency_key) DO NOTHING\<close>: the column checks come first, then a
  used key makes the statement insert nothing, then a used identifier violates the primary key.
\<close>

definition try_insert :: "payment \<Rightarrow> session \<Rightarrow> exn + payment option \<times> session" where
  "try_insert p = execute (\<lambda>d.
     bind_res (payment_row_check (payment_values p)) (\<lambda>r.
       if row_by pr_idempotency_key (pr_idempotency_key r) (payments d) \<noteq> None then Inr (None, d)
       else if row_by pr_id (pr_id r) (payments d) \<noteq> None then Inl (DBAPIError ''UniqueViolation'')
       else Inr (Some p, d\<lparr>payments := payments d @ [r]\<rparr>)))"

definition map_row :: "('r \<Rightarrow> exn + 'e) \<Rightarrow> 'r option \<Rightarrow> exn + 'e option" where
  "map_row f r = (case r of None \<Rightarrow> Inr None | Some x \<Rightarrow> map_res Some (f x))"

definition get_payment :: "uuid \<Rightarrow> session \<Rightarrow> exn + payment option \<times> session" where
  "get_payment i = execute (\<lambda>d.
     map_res (\<lambda>p. (p, d)) (map_row payment_to_domain (row_by pr_id i (payments d))))"

definition get_by_idempotency_key :: "string \<Rightarrow> session \<Rightarrow> exn + payment option \<times> session" where
  "get_by_idempotency_key key = execute (\<lambda>d.
     map_res (\<lambda>p. (p, d)) (map_row payment_to_domain (row_by pr_idempotency_key key (payments d))))"

text \<open>
  \<open>UPDATE payments SET ... WHERE id = :id AND status = :expected AND version = :expected\<close>; the
  result is whether one row was changed.
\<close>

definition guarded :: "uuid \<Rightarrow> int \<Rightarrow> payment_status \<Rightarrow> payment_row \<Rightarrow> bool" where
  "guarded i v st r \<longleftrightarrow>
     pr_id r = i \<and> pr_status r = payment_status_value st \<and> pr_version r = v"

definition update_payment ::
    "uuid \<Rightarrow> int \<Rightarrow> payment_status \<Rightarrow> (payment_row \<Rightarrow> payment_row) \<Rightarrow> db \<Rightarrow> bool \<times> db" where
  "update_payment i v st f d =
     (rowcount (guarded i v st) (payments d) = 1,
      d\<lparr>payments := update_where (guarded i v st) f (payments d)\<rparr>)"

definition begin_processing_db :: "uuid \<Rightarrow> int \<Rightarrow> payment_status \<Rightarrow> db \<Rightarrow> bool \<times> db" where
  "begin_processing_db i v st =
     update_payment i v st (\<lambda>r. r\<lparr>pr_status := ''processing'', pr_version := pr_version r + 1\<rparr>)"

definition mark_succeeded_db :: "uuid \<Rightarrow> int \<Rightarrow> payment_status \<Rightarrow> datetime \<Rightarrow> db \<Rightarrow> bool \<times> db" where
  "mark_succeeded_db i v st processed_at =
     update_payment i v st (\<lambda>r. r\<lparr>pr_status := ''succeeded'', pr_version := pr_version r + 1,
                                pr_processed_at := Some processed_at\<rparr>)"

definition mark_failed_db :: "uuid \<Rightarrow> int \<Rightarrow> payment_status \<Rightarrow> datetime \<Rightarrow> db \<Rightarrow> bool \<times> db" where
  "mark_failed_db i v st processed_at =
     update_payment i v st (\<lambda>r. r\<lparr>pr_status := ''failed'', pr_version := pr_version r + 1,
                                pr_processed_at := Some processed_at\<rparr>)"

definition begin_processing :: "uuid \<Rightarrow> int \<Rightarrow> payment_status \<Rightarrow> session \<Rightarrow> exn + bool \<times> session" where
  "begin_processing i v st = execute (\<lambda>d. Inr (begin_processing_db i v st d))"

definition repo_mark_succeeded ::
    "uuid \<Rightarrow> int \<Rightarrow> payment_status \<Rightarrow> datetime \<Rightarrow> session \<Rightarrow> exn + bool \<times> session" where
  "repo_mark_succeeded i v st t = execute (\<lambda>d. Inr (mark_succeeded_db i v st t d))"

definition repo_mark_failed ::
    "uuid \<Rightarrow> int \<Rightarrow> payment_status \<Rightarrow> datetime \<Rightarrow> session \<Rightarrow> exn + bool \<times> session" where
  "repo_mark_failed i v st t = execute (\<lambda>d. Inr (mark_failed_db i v st t d))"

section \<open>The interface of a guarded update\<close>

text \<open>
  \<open>state i d\<close> is the status and version of payment \<open>i\<close> in the database \<open>d\<close>. A guarded update to
  \<open>target\<close> succeeds exactly when the payment has the expected status and version, then moves it to
  \<open>target\<close> with the next version; otherwise it changes nothing. No other payment is touched.
\<close>

locale guarded_update =
  fixes state :: "uuid \<Rightarrow> 'd \<Rightarrow> (string \<times> int) option"
    and ok :: "'d \<Rightarrow> bool"
    and upd :: "uuid \<Rightarrow> int \<Rightarrow> payment_status \<Rightarrow> 'd \<Rightarrow> bool \<times> 'd"
    and target :: payment_status
  assumes upd_wins: "ok d \<Longrightarrow> fst (upd i v st d) \<longleftrightarrow> state i d = Some (payment_status_value st, v)"
    and upd_state: "ok d \<Longrightarrow> fst (upd i v st d) \<Longrightarrow>
      state i (snd (upd i v st d)) = Some (payment_status_value target, v + 1)"
    and upd_loses: "ok d \<Longrightarrow> \<not> fst (upd i v st d) \<Longrightarrow> snd (upd i v st d) = d"
    and upd_other: "ok d \<Longrightarrow> j \<noteq> i \<Longrightarrow> state j (snd (upd i v st d)) = state j d"
    and upd_ok: "ok d \<Longrightarrow> ok (snd (upd i v st d))"
begin

text \<open>Two updates that expect the same version cannot both succeed.\<close>

lemma one_winner: "ok d \<Longrightarrow> fst (upd i v st d) \<Longrightarrow> \<not> fst (upd i v st' (snd (upd i v st d)))"
  by (simp add: upd_wins upd_ok upd_state)

text \<open>Versions never go down, and go up exactly when the update succeeds.\<close>

lemma version_step:
  assumes "ok d" "state j d = Some (s, w)"
  shows "\<exists>s'. state j (snd (upd i v st d)) =
    Some (s', if fst (upd i v st d) \<and> j = i then w + 1 else w)"
proof (cases "fst (upd i v st d)")
  case True
  with assms upd_wins [of d i v st] upd_state [of d i v st] upd_other [of d j i v st]
  show ?thesis by (cases "j = i") auto
next
  case False
  with assms show ?thesis by (simp add: upd_loses)
qed

lemma stale_loses:
  assumes "ok d" "state i d = Some (s, w)" "v < w"
  shows "\<not> fst (upd i v st d)"
  using assms by (auto simp: upd_wins)

end

definition payment_state :: "uuid \<Rightarrow> db \<Rightarrow> (string \<times> int) option" where
  "payment_state i d = map_option (\<lambda>r. (pr_status r, pr_version r)) (row_by pr_id i (payments d))"

definition ids_unique :: "db \<Rightarrow> bool" where
  "ids_unique d \<longleftrightarrow> unique_key pr_id (payments d)"

lemma guarded_rowcount:
  assumes "ids_unique d"
  shows "rowcount (guarded i v st) (payments d) =
    (if payment_state i d = Some (payment_status_value st, v) then 1 else 0)"
  using rowcount_by_key [OF assms [unfolded ids_unique_def], of i
      "\<lambda>r. pr_status r = payment_status_value st \<and> pr_version r = v"]
  by (auto simp: payment_state_def guarded_def [abs_def] split: option.splits)

lemma update_payment_guarded:
  assumes f: "\<And>r. pr_id (f r) = pr_id r" "\<And>r. pr_status (f r) = payment_status_value target"
    "\<And>r. pr_version (f r) = pr_version r + 1"
  shows "guarded_update payment_state ids_unique (\<lambda>i v st. update_payment i v st f) target"
proof
  fix d i v st
  assume ok: "ids_unique d"
  let ?u = "update_payment i v st f d"
  show win: "fst ?u \<longleftrightarrow> payment_state i d = Some (payment_status_value st, v)"
    by (simp add: update_payment_def guarded_rowcount [OF ok])
  have row: "row_by pr_id j (payments (snd ?u)) =
      map_option (\<lambda>r. if guarded i v st r then f r else r) (row_by pr_id j (payments d))" for j
    by (simp add: update_payment_def row_by_update_where f(1))
  show "payment_state i (snd ?u) = Some (payment_status_value target, v + 1)" if "fst ?u"
  proof -
    from that win obtain r where r: "row_by pr_id i (payments d) = Some r"
      and st: "pr_status r = payment_status_value st" "pr_version r = v"
      by (auto simp: payment_state_def)
    with row_by_SomeD [OF r] have "guarded i v st r" by (simp add: guarded_def)
    with st show ?thesis by (simp add: payment_state_def row r f)
  qed
  show "snd ?u = d" if "\<not> fst ?u"
  proof -
    from that have "rowcount (guarded i v st) (payments d) = 0"
      by (simp add: update_payment_def guarded_rowcount [OF ok] split: if_splits)
    then have "update_where (guarded i v st) f (payments d) = payments d"
      by (intro update_where_none) (auto simp: rowcount_zero_iff)
    then show ?thesis by (simp add: update_payment_def)
  qed
  show "payment_state j (snd ?u) = payment_state j d" if "j \<noteq> i" for j
    using that row_by_SomeD [of pr_id j "payments d"]
    by (cases "row_by pr_id j (payments d)") (auto simp: payment_state_def row guarded_def)
  show "ids_unique (snd ?u)"
    using ok f(1) by (simp add: ids_unique_def update_payment_def unique_key_update_where)
qed

interpretation gu_begin: guarded_update payment_state ids_unique begin_processing_db Processing
  unfolding begin_processing_db_def [abs_def] by (rule update_payment_guarded) simp_all

interpretation gu_succ: guarded_update payment_state ids_unique
    "\<lambda>i v st. mark_succeeded_db i v st t" Succeeded for t
  unfolding mark_succeeded_db_def [abs_def] by (rule update_payment_guarded) simp_all

interpretation gu_fail: guarded_update payment_state ids_unique
    "\<lambda>i v st. mark_failed_db i v st t" Failed for t
  unfolding mark_failed_db_def [abs_def] by (rule update_payment_guarded) simp_all

end
