(* ===== verification/AttemptRepo.thy ===== *)
theory AttemptRepo
  imports Db "HOL-Library.Product_Lexorder"
begin

text \<open>
  \<open>infrastructure/mappers/attempt.py\<close> and \<open>infrastructure/repositories/attempt.py\<close>. The order of
  rows with equal sort keys, which SQL leaves open, is the order of the table.
\<close>

definition attempt_values :: "attempt \<Rightarrow> attempt_row" where
  "attempt_values a =
     \<lparr>ar_id = a_id a, ar_payment_id = a_payment_id a, ar_attempt_number = a_number a,
      ar_status = attempt_status_value (a_status a), ar_error = a_error a,
      ar_gateway_response = a_gateway_response a, ar_correlation_id = a_correlation_id a,
      ar_created_at = a_created_at a, ar_updated_at = a_updated_at a\<rparr>"

definition attempt_to_domain :: "attempt_row \<Rightarrow> exn + attempt" where
  "attempt_to_domain r =
     map_res (\<lambda>st.
       \<lparr>a_id = ar_id r, a_payment_id = ar_payment_id r, a_number = ar_attempt_number r,
        a_status = st, a_error = ar_error r, a_gateway_response = ar_gateway_response r,
        a_correlation_id = ar_correlation_id r, a_created_at = ar_created_at r,
        a_updated_at = ar_updated_at r\<rparr>)
      (mk_attempt_status (ar_status r))"

definition attempt_add :: "attempt \<Rightarrow> session \<Rightarrow> session" where
  "attempt_add a = session_add (NewAttempt (attempt_values a))"

definition attempt_set :: "attempt \<Rightarrow> attempt_row \<Rightarrow> attempt_row" where
  "attempt_set a r =
     r\<lparr>ar_status := attempt_status_value (a_status a), ar_error := a_error a,
       ar_gateway_response := a_gateway_response a, ar_updated_at := a_updated_at a\<rparr>"

definition attempt_update :: "attempt \<Rightarrow> session \<Rightarrow> exn + unit \<times> session" where
  "attempt_update a = execute (\<lambda>d.
     map_res (\<lambda>_. ((), d\<lparr>payment_attempts :=
        update_where (\<lambda>r. ar_id r = a_id a) (attempt_set a) (payment_attempts d)\<rparr>))
       (params_check (a_gateway_response a) [a_error a]))"

definition attempts_of :: "uuid \<Rightarrow> db \<Rightarrow> attempt_row list" where
  "attempts_of pid d =
     sort_key (\<lambda>r. (ar_created_at r, ar_attempt_number r))
       (filter (\<lambda>r. ar_payment_id r = pid) (payment_attempts d))"

definition get_by_payment_id :: "uuid \<Rightarrow> session \<Rightarrow> exn + attempt list \<times> session" where
  "get_by_payment_id pid = execute (\<lambda>d.
     map_res (\<lambda>as. (as, d)) (mapM_res attempt_to_domain (attempts_of pid d)))"

lemma attempt_to_domain_values [simp]: "attempt_to_domain (attempt_values a) = Inr a"
  by (simp add: attempt_to_domain_def attempt_values_def)

lemma attempt_to_domain_Inr: "attempt_to_domain r = Inr a \<longleftrightarrow> r = attempt_values a"
  by (cases r; cases a)
    (auto simp: attempt_to_domain_def attempt_values_def res_simps mk_attempt_status_Inr)

lemma attempt_set_values:
  "a_id b = a_id a \<Longrightarrow> a_payment_id b = a_payment_id a \<Longrightarrow> a_number b = a_number a \<Longrightarrow>
   a_correlation_id b = a_correlation_id a \<Longrightarrow> a_created_at b = a_created_at a \<Longrightarrow>
   attempt_set b (attempt_values a) = attempt_values b"
  by (simp add: attempt_set_def attempt_values_def)

lemma attempts_of_set: "set (attempts_of pid d) = {r \<in> set (payment_attempts d). ar_payment_id r = pid}"
  by (auto simp: attempts_of_def)

text \<open>The rows the service itself wrote can always be read back.\<close>

definition attempt_row_ok :: "attempt_row \<Rightarrow> bool" where
  "attempt_row_ok r \<longleftrightarrow> is_ok (mk_attempt_status (ar_status r))"

lemma attempt_row_ok_to_domain: "attempt_row_ok r \<Longrightarrow> \<exists>a. attempt_to_domain r = Inr a"
  by (auto simp: attempt_row_ok_def attempt_to_domain_def is_ok_iff)

lemma get_by_payment_id_ok:
  assumes "\<And>r. r \<in> set (payment_attempts (s_db s)) \<Longrightarrow> attempt_row_ok r" "s_pending s = []"
  shows "\<exists>as. get_by_payment_id pid s = Inr (as, s) \<and>
    list_all2 (\<lambda>r a. attempt_to_domain r = Inr a) (attempts_of pid (s_db s)) as"
proof -
  have "\<forall>r \<in> set (attempts_of pid (s_db s)). \<exists>a. attempt_to_domain r = Inr a"
    using assms(1) by (auto simp: attempts_of_set intro: attempt_row_ok_to_domain)
  then obtain g where "\<And>r. r \<in> set (attempts_of pid (s_db s)) \<Longrightarrow> attempt_to_domain r = Inr (g r)"
    by metis
  then have m: "mapM_res attempt_to_domain (attempts_of pid (s_db s)) = Inr (map g (attempts_of pid (s_db s)))"
    by (rule mapM_res_total)
  then have "list_all2 (\<lambda>r a. attempt_to_domain r = Inr a) (attempts_of pid (s_db s))
      (map g (attempts_of pid (s_db s)))" by (simp only: mapM_res_Inr)
  with m assms(2) show ?thesis by (simp add: get_by_payment_id_def)
qed

end
