(* ===== verification/DeliveryRepo.thy ===== *)
theory DeliveryRepo
  imports Db
begin

text \<open>
  \<open>infrastructure/mappers/webhook_delivery.py\<close> and
  \<open>infrastructure/repositories/webhook_delivery.py\<close>. \<open>locked\<close> says which rows other transactions
  hold locks on at the time of a \<open>SELECT ... FOR UPDATE SKIP LOCKED\<close>; the order of rows created at
  the same time, which SQL leaves open, is the order of the table.
\<close>

definition delivery_to_model :: "delivery \<Rightarrow> delivery_row" where
  "delivery_to_model d =
     \<lparr>wr_id = d_id d, wr_payment_id = d_payment_id d, wr_event_type = d_event_type d,
      wr_attempt = d_attempt d, wr_status = delivery_status_value (d_status d),
      wr_response_code = d_response_code d, wr_response_body = d_response_body d,
      wr_next_retry_at = d_next_retry_at d, wr_correlation_id = d_correlation_id d,
      wr_created_at = d_created_at d, wr_updated_at = d_updated_at d\<rparr>"

definition delivery_to_domain :: "delivery_row \<Rightarrow> exn + delivery" where
  "delivery_to_domain r =
     map_res (\<lambda>st.
       \<lparr>d_id = wr_id r, d_payment_id = wr_payment_id r, d_event_type = wr_event_type r,
        d_attempt = wr_attempt r, d_status = st, d_response_code = wr_response_code r,
        d_response_body = wr_response_body r, d_next_retry_at = wr_next_retry_at r,
        d_correlation_id = wr_correlation_id r, d_created_at = wr_created_at r,
        d_updated_at = wr_updated_at r\<rparr>)
      (mk_delivery_status (wr_status r))"

definition delivery_add :: "delivery \<Rightarrow> session \<Rightarrow> session" where
  "delivery_add d = session_add (NewDelivery (delivery_to_model d))"

definition get_delivery :: "uuid \<Rightarrow> session \<Rightarrow> exn + delivery option \<times> session" where
  "get_delivery i = execute (\<lambda>d.
     map_res (\<lambda>x. (x, d))
       (case row_by wr_id i (webhook_deliveries d) of
          None \<Rightarrow> Inr None | Some r \<Rightarrow> map_res Some (delivery_to_domain r)))"

definition due :: "datetime \<Rightarrow> delivery_row \<Rightarrow> bool" where
  "due now r \<longleftrightarrow> wr_status r = ''pending'' \<and>
     (case wr_next_retry_at r of None \<Rightarrow> True | Some t \<Rightarrow> t \<le> now)"

definition due_rows :: "(uuid \<Rightarrow> bool) \<Rightarrow> int \<Rightarrow> datetime \<Rightarrow> db \<Rightarrow> delivery_row list" where
  "due_rows locked limit now d =
     take (nat limit)
       (sort_key wr_created_at (filter (\<lambda>r. due now r \<and> \<not> locked (wr_id r)) (webhook_deliveries d)))"

definition claim_due ::
    "(uuid \<Rightarrow> bool) \<Rightarrow> int \<Rightarrow> datetime \<Rightarrow> session \<Rightarrow> exn + delivery list \<times> session" where
  "claim_due locked limit now = execute (\<lambda>d.
     if limit < 0 then Inl (DBAPIError ''InvalidRowCountInLimitClause'')
     else map_res (\<lambda>ds. (ds, d)) (mapM_res delivery_to_domain (due_rows locked limit now d)))"

definition delivery_set :: "delivery \<Rightarrow> delivery_row \<Rightarrow> delivery_row" where
  "delivery_set d r =
     r\<lparr>wr_attempt := d_attempt d, wr_status := delivery_status_value (d_status d),
       wr_response_code := d_response_code d, wr_response_body := d_response_body d,
       wr_next_retry_at := d_next_retry_at d, wr_updated_at := d_updated_at d\<rparr>"

definition delivery_update :: "delivery \<Rightarrow> session \<Rightarrow> exn + unit \<times> session" where
  "delivery_update d = execute (\<lambda>b.
     if int4 (d_attempt d) \<and> (case d_response_code d of None \<Rightarrow> True | Some c \<Rightarrow> int4 c)
     then map_res (\<lambda>_. ((), b\<lparr>webhook_deliveries :=
        update_where (\<lambda>r. wr_id r = d_id d) (delivery_set d) (webhook_deliveries b)\<rparr>))
          (params_check None [d_response_body d])
     else Inl (DBAPIError ''DataError''))"

section \<open>Facts\<close>

lemma delivery_to_domain_model [simp]: "delivery_to_domain (delivery_to_model d) = Inr d"
  by (simp add: delivery_to_domain_def delivery_to_model_def)

lemma delivery_to_domain_Inr:
  "delivery_to_domain r = Inr d \<longleftrightarrow> r = delivery_to_model d"
  by (cases r; cases d)
    (auto simp: delivery_to_domain_def delivery_to_model_def res_simps mk_delivery_status_Inr)

definition delivery_row_ok :: "delivery_row \<Rightarrow> bool" where
  "delivery_row_ok r \<longleftrightarrow> is_ok (mk_delivery_status (wr_status r))"

lemma delivery_row_ok_to_domain: "delivery_row_ok r \<Longrightarrow> \<exists>d. delivery_to_domain r = Inr d"
  by (auto simp: delivery_row_ok_def delivery_to_domain_def is_ok_iff)

lemma due_rows_set:
  "r \<in> set (due_rows locked limit now d) \<Longrightarrow>
     r \<in> set (webhook_deliveries d) \<and> due now r \<and> \<not> locked (wr_id r)"
  by (auto simp: due_rows_def dest: in_set_takeD)

lemma due_rows_length: "length (due_rows locked limit now d) \<le> nat limit"
  by (simp add: due_rows_def)

lemma due_rows_distinct:
  assumes "unique_key wr_id (webhook_deliveries d)"
  shows "distinct (map wr_id (due_rows locked limit now d))"
proof -
  have "distinct (map wr_id (filter P (webhook_deliveries d)))" for P
    using assms by (simp add: unique_key_def distinct_map_filter)
  then have "distinct (map wr_id (sort_key wr_created_at (filter P (webhook_deliveries d))))" for P
    by (auto simp: distinct_map)
  then show ?thesis by (simp add: due_rows_def distinct_take flip: take_map)
qed

lemma delivery_set_id [simp]: "wr_id (delivery_set d r) = wr_id r"
  by (simp add: delivery_set_def)

text \<open>
  A worker's batch of webhook deliveries is disjoint from those of the workers that
  hold locks, has at most \<open>limit\<close> deliveries, each of them pending and due, and leaves out no due
  unlocked delivery in favour of a later-created one.
\<close>

theorem claim_due_fair:
  assumes "claim_due locked limit now (open_session d) = Inr (ds, s)"
  shows "(\<forall>x \<in> set ds. \<not> locked (d_id x) \<and> d_status x = DPending \<and>
      (d_next_retry_at x = None \<or> the (d_next_retry_at x) \<le> now) \<and>
      delivery_to_model x \<in> set (webhook_deliveries d)) \<and>
    int (length ds) \<le> limit \<and>
    (\<forall>r \<in> set (webhook_deliveries d). due now r \<and> \<not> locked (wr_id r) \<and> r \<notin> delivery_to_model ` set ds \<longrightarrow>
      int (length ds) = limit \<and> (\<forall>x \<in> set ds. d_created_at x \<le> wr_created_at r))"
proof -
  let ?q = "sort_key wr_created_at (filter (\<lambda>r. due now r \<and> \<not> locked (wr_id r)) (webhook_deliveries d))"
  from assms have lim: "0 \<le> limit"
    and ds: "mapM_res delivery_to_domain (due_rows locked limit now d) = Inr ds"
    by (auto simp: claim_due_def res_simps split: if_splits)
  then have all2: "list_all2 (\<lambda>r x. r = delivery_to_model x) (due_rows locked limit now d) ds"
    by (simp add: mapM_res_Inr delivery_to_domain_Inr)
  then have rows: "due_rows locked limit now d = map delivery_to_model ds"
    by (induction rule: list_all2_induct) auto
  then have len: "length ds = length (take (nat limit) ?q)"
    by (metis due_rows_def length_map)
  show ?thesis
  proof (intro conjI ballI impI)
    fix x assume "x \<in> set ds"
    then have "delivery_to_model x \<in> set (due_rows locked limit now d)" by (simp add: rows)
    from due_rows_set [OF this] show "\<not> locked (d_id x)" "d_status x = DPending"
      "d_next_retry_at x = None \<or> the (d_next_retry_at x) \<le> now"
      "delivery_to_model x \<in> set (webhook_deliveries d)"
      by (cases "d_status x"; auto simp: delivery_to_model_def due_def split: option.splits)+
  next
    show "int (length ds) \<le> limit" using len lim by simp
  next
    fix r assume r: "r \<in> set (webhook_deliveries d)"
      "due now r \<and> \<not> locked (wr_id r) \<and> r \<notin> delivery_to_model ` set ds"
    then have "r \<in> set ?q" "r \<notin> set (take (nat limit) ?q)"
      using rows by (auto simp: due_rows_def)
    then have drop: "r \<in> set (drop (nat limit) ?q)"
      by (metis Un_iff append_take_drop_id set_append)
    then have "nat limit < length ?q" by (metis drop_all empty_iff linorder_not_le list.set(1))
    then show "int (length ds) = limit" using len lim by simp
    fix x assume "x \<in> set ds"
    then have x: "delivery_to_model x \<in> set (take (nat limit) ?q)"
      using rows by (auto simp: due_rows_def)
    have "sorted (map wr_created_at (take (nat limit) ?q @ drop (nat limit) ?q))"
      by simp
    then have "wr_created_at (delivery_to_model x) \<le> wr_created_at r"
      using x drop by (simp only: map_append sorted_append) auto
    then show "d_created_at x \<le> wr_created_at r" by (simp add: delivery_to_model_def)
  qed
qed

theorem claim_due_fair_witness:
  "let row = (\<lambda>i t. \<lparr>wr_id = i, wr_payment_id = 9, wr_event_type = ''payment.failed'', wr_attempt = 1,
        wr_status = ''pending'', wr_response_code = None, wr_response_body = None,
        wr_next_retry_at = None, wr_correlation_id = None, wr_created_at = t, wr_updated_at = t\<rparr>);
      d = empty_db\<lparr>webhook_deliveries := [row 1 30, row 2 20, row 3 10]\<rparr>
   in \<exists>ds s. claim_due (\<lambda>i. i = 3) 1 100 (open_session d) = Inr (ds, s) \<and> map d_id ds = [2] \<and>
        list_all (\<lambda>x. d_id x \<noteq> 3) ds"
proof -
  define row where "row = (\<lambda>i t. \<lparr>wr_id = i, wr_payment_id = (9::uuid), wr_event_type = ''payment.failed'',
        wr_attempt = 1, wr_status = ''pending'', wr_response_code = None, wr_response_body = None,
        wr_next_retry_at = None, wr_correlation_id = None, wr_created_at = t, wr_updated_at = t :: datetime\<rparr>)"
  define d where "d = empty_db\<lparr>webhook_deliveries := [row 1 30, row 2 20, row 3 10]\<rparr>"
  have "\<exists>ds s. claim_due (\<lambda>i. i = 3) 1 100 (open_session d) = Inr (ds, s) \<and> map d_id ds = [2]"
    by (simp add: claim_due_def due_rows_def d_def row_def due_def delivery_to_domain_def
        mk_delivery_status_def)
  with claim_due_fair [of "\<lambda>i. i = 3" 1 100 d] show ?thesis
    unfolding list_all_iff by (simp only: Let_def flip: row_def d_def) metis
qed

end
