(* ===== verification/Formats.thy ===== *)
theory Formats
  imports PyBase
begin

text \<open>
  The text forms of the standard library the serialisation uses: \<open>datetime.isoformat\<close> and
  \<open>datetime.fromisoformat\<close>, \<open>str(UUID)\<close> and \<open>UUID(str)\<close>, and the facts that the readers invert the
  writers. \<open>fromisoformat\<close> is given on the form \<open>isoformat\<close> writes for a UTC datetime
  (\<open>YYYY-MM-DDTHH:MM:SS[.ffffff]+00:00\<close>); every other string is treated as malformed, though
  Python reads further ISO 8601 forms. In \<open>UUID(str)\<close> the \<open>urn:uuid:\<close> prefix is not modelled.
\<close>

section \<open>Digits of a fixed width\<close>

fun pad :: "nat \<Rightarrow> nat \<Rightarrow> string" where
  "pad 0 n = []"
| "pad (Suc w) n = pad w (n div 10) @ [digit_char (n mod 10)]"

lemma length_pad [simp]: "length (pad w n) = w"
  by (induction w arbitrary: n) auto

lemma pad_digits [simp]: "list_all is_digit (pad w n)"
  by (induction w arbitrary: n) auto

lemma digits_val_pad [simp]: "n < 10 ^ w \<Longrightarrow> digits_val (pad w n) = n"
proof (induction w arbitrary: n)
  case 0
  then show ?case by (simp add: digits_val_def)
next
  case (Suc w)
  then have "n div 10 < 10 ^ w" by (simp add: div_less_iff_less_mult mult.commute)
  with Suc.IH show ?case by (simp add: digits_val_snoc)
qed

definition hex_char :: "nat \<Rightarrow> char" where
  "hex_char d = ''0123456789abcdef'' ! d"

definition hex_digit :: "char \<Rightarrow> nat option" where
  "hex_digit c =
     (let n = of_char c :: nat
      in if 48 \<le> n \<and> n \<le> 57 then Some (n - 48)
         else if 97 \<le> n \<and> n \<le> 102 then Some (n - 87)
         else if 65 \<le> n \<and> n \<le> 70 then Some (n - 55) else None)"

fun hexs :: "nat \<Rightarrow> nat \<Rightarrow> string" where
  "hexs 0 n = []"
| "hexs (Suc w) n = hexs w (n div 16) @ [hex_char (n mod 16)]"

definition hex_val :: "string \<Rightarrow> nat option" where
  "hex_val s = foldl (\<lambda>acc c. case (acc, hex_digit c) of
       (Some n, Some d) \<Rightarrow> Some (16 * n + d) | _ \<Rightarrow> None) (Some 0) s"

lemma length_hexs [simp]: "length (hexs w n) = w"
  by (induction w arbitrary: n) auto

lemma hex_digit_cases: "d < 16 \<Longrightarrow> d \<in> {0, 1, 2, 3, 4, 5, 6, 7, 8, 9, 10, 11, 12, 13, 14, 15 :: nat}"
proof -
  assume "d < 16"
  then have "d \<in> set [0..<16]" by simp
  then show ?thesis by (simp add: upt_rec) (auto simp: numeral_eq_Suc)
qed

lemma hex_digit_char [simp]: "d < 16 \<Longrightarrow> hex_digit (hex_char d) = Some d"
  by (drule hex_digit_cases) (auto simp: hex_digit_def hex_char_def)

lemma hex_char_plain: "d < 16 \<Longrightarrow> hex_char d \<notin> {CHR ''-'', CHR ''{'', CHR ''}''}"
  by (drule hex_digit_cases) (auto simp: hex_char_def)

lemma hex_val_hexs: "n < 16 ^ w \<Longrightarrow> hex_val (hexs w n) = Some n"
proof (induction w arbitrary: n)
  case 0
  then show ?case by (simp add: hex_val_def)
next
  case (Suc w)
  then have "n div 16 < 16 ^ w" by (simp add: div_less_iff_less_mult mult.commute)
  with Suc.IH have "hex_val (hexs w (n div 16)) = Some (n div 16)" by blast
  then show ?case by (simp add: hex_val_def)
qed

lemma hexs_plain: "c \<in> set (hexs w n) \<Longrightarrow> c \<notin> {CHR ''-'', CHR ''{'', CHR ''}''}"
proof (induction w arbitrary: n)
  case (Suc w)
  then show ?case using hex_char_plain [of "n mod 16"] by auto
qed simp

section \<open>UUID\<close>

definition uuid_str :: "uuid \<Rightarrow> string" where
  "uuid_str u =
     (let h = hexs 32 (unat u)
      in take 8 h @ ''-'' @ take 4 (drop 8 h) @ ''-'' @ take 4 (drop 12 h) @ ''-'' @
         take 4 (drop 16 h) @ ''-'' @ drop 20 h)"

definition strip_braces :: "string \<Rightarrow> string" where
  "strip_braces s = (let b = (\<lambda>c. c \<in> {CHR ''{'', CHR ''}''})
     in rev (dropWhile b (rev (dropWhile b s))))"

definition parse_uuid :: "string \<Rightarrow> exn + uuid" where
  "parse_uuid s =
     (let h = filter (\<lambda>c. c \<noteq> CHR ''-'') (strip_braces s)
      in if length h \<noteq> 32 then Inl (ValueError ''badly formed hexadecimal UUID string'')
         else case hex_val h of
           None \<Rightarrow> Inl (ValueError (''invalid literal for int() with base 16: '' @ h))
         | Some n \<Rightarrow> Inr (of_nat n))"

lemma dropWhile_no_head: "(\<And>c. c \<in> set s \<Longrightarrow> \<not> P c) \<Longrightarrow> dropWhile P s = s"
  by (cases s) auto

lemma uuid_str_plain: "c \<in> set (uuid_str u) \<Longrightarrow> c \<notin> {CHR ''{'', CHR ''}''}"
  using hexs_plain [of c 32 "unat u"]
  by (auto simp: uuid_str_def Let_def dest!: in_set_takeD in_set_dropD)

lemma uuid_str_hex: "filter (\<lambda>c. c \<noteq> CHR ''-'') (uuid_str u) = hexs 32 (unat u)"
proof -
  define h where "h = hexs 32 (unat u)"
  have "\<forall>c \<in> set h. c \<noteq> CHR ''-''" using hexs_plain by (auto simp: h_def)
  then have keep: "filter (\<lambda>c. c \<noteq> CHR ''-'') g = g" if "set g \<subseteq> set h" for g
    using that by (intro filter_True) auto
  have "h = take 8 h @ take 4 (drop 8 h) @ take 4 (drop 12 h) @ take 4 (drop 16 h) @ drop 20 h"
    using append_take_drop_id [of 8 h] append_take_drop_id [of 4 "drop 8 h"]
      append_take_drop_id [of 4 "drop 12 h"] append_take_drop_id [of 4 "drop 16 h"]
    by simp
  then show ?thesis
    by (simp add: uuid_str_def Let_def keep set_take_subset subset_trans [OF set_take_subset set_drop_subset]
        set_drop_subset flip: h_def)
qed

lemma parse_uuid_str [simp]: "parse_uuid (uuid_str u) = Inr u"
proof -
  let ?b = "\<lambda>c. c \<in> {CHR ''{'', CHR ''}''}"
  have "dropWhile ?b (uuid_str u) = uuid_str u" "dropWhile ?b (rev (uuid_str u)) = rev (uuid_str u)"
    by (rule dropWhile_no_head, use uuid_str_plain in simp)+
  then have "strip_braces (uuid_str u) = uuid_str u" by (simp only: strip_braces_def Let_def rev_rev_ident)
  moreover have "unat u < 16 ^ 32"
    using unsigned_less [of u] by simp
  ultimately show ?thesis by (simp add: parse_uuid_def uuid_str_hex hex_val_hexs)
qed

section \<open>Dates\<close>

definition leap :: "nat \<Rightarrow> bool" where
  "leap y \<longleftrightarrow> y mod 4 = 0 \<and> (y mod 100 \<noteq> 0 \<or> y mod 400 = 0)"

definition month_lengths :: "nat \<Rightarrow> nat list" where
  "month_lengths y = [31, if leap y then 29 else 28, 31, 30, 31, 30, 31, 31, 30, 31, 30, 31]"

definition days_before_year :: "nat \<Rightarrow> nat" where
  "days_before_year y = (let z = y - 1 in 365 * z + z div 4 - z div 100 + z div 400)"

text \<open>Days since 0001-01-01 of a date, and the date of a day (the 400-year cycle of \<open>datetime\<close>).\<close>

fun days_of :: "nat \<times> nat \<times> nat \<Rightarrow> nat" where
  "days_of (y, m, d) = days_before_year y + sum_list (take (m - 1) (month_lengths y)) + (d - 1)"

fun month_day :: "nat list \<Rightarrow> nat \<Rightarrow> nat \<Rightarrow> nat \<times> nat" where
  "month_day [] m e = (m, e + 1)"
| "month_day (l # ls) m e = (if e < l then (m, e + 1) else month_day ls (m + 1) (e - l))"

definition date_of :: "nat \<Rightarrow> nat \<times> nat \<times> nat" where
  "date_of n =
     (let a = n div 146097; n1 = n mod 146097; b = n1 div 36524; n2 = n1 mod 36524;
          c = n2 div 1461; n3 = n2 mod 1461; d = n3 div 365; e = n3 mod 365;
          y = 400 * a + 100 * b + 4 * c + d + 1
      in if d = 4 \<or> b = 4 then (y - 1, 12, 31) else (y, month_day (month_lengths y) 1 e))"

lemma month_day_split:
  "e < sum_list ls \<Longrightarrow> \<exists>k r. k < length ls \<and> r < ls ! k \<and> e = sum_list (take k ls) + r \<and>
     month_day ls m e = (m + k, r + 1)"
proof (induction ls arbitrary: m e)
  case (Cons l ls)
  show ?case
  proof (cases "e < l")
    case True
    then show ?thesis by (intro exI [of _ 0] exI [of _ e]) auto
  next
    case False
    with Cons.prems have "e - l < sum_list ls" by simp
    from Cons.IH [OF this, of "m + 1"] obtain k r where
      "k < length ls" "r < ls ! k" "e - l = sum_list (take k ls) + r"
      "month_day ls (m + 1) (e - l) = (m + 1 + k, r + 1)" by blast
    with False show ?thesis by (intro exI [of _ "Suc k"] exI [of _ r]) auto
  qed
qed simp

definition valid_date :: "nat \<times> nat \<times> nat \<Rightarrow> bool" where
  "valid_date = (\<lambda>(y, m, d). 1 \<le> y \<and> y \<le> 9999 \<and> 1 \<le> m \<and> m \<le> 12 \<and> 1 \<le> d \<and>
     d \<le> month_lengths y ! (m - 1))"

lemma date_of_cases:
  obtains a b c d e where "n = 146097 * a + 36524 * b + 1461 * c + 365 * d + e"
    "e < 365" "b < 4" "c < 25" "d < 4" "c = 24 \<Longrightarrow> d < 4"
    "date_of n = (400 * a + 100 * b + 4 * c + d + 1,
       month_day (month_lengths (400 * a + 100 * b + 4 * c + d + 1)) 1 e)"
  | a b c where "n = 146097 * a + 36524 * b + 1461 * c + 1460" "b < 4" "c < 24"
    "date_of n = (400 * a + 100 * b + 4 * c + 4, 12, 31)"
  | a where "n = 146097 * a + 146096" "date_of n = (400 * a + 400, 12, 31)"
proof -
  define a n1 where "a = n div 146097" and "n1 = n mod 146097"
  define b n2 where "b = n1 div 36524" and "n2 = n1 mod 36524"
  define c n3 where "c = n2 div 1461" and "n3 = n2 mod 1461"
  define d e where "d = n3 div 365" and "e = n3 mod 365"
  note defs = a_def n1_def b_def n2_def c_def n3_def d_def e_def
  have n: "n = 146097 * a + n1" "n1 < 146097" and n1: "n1 = 36524 * b + n2" "n2 < 36524"
    and n2: "n2 = 1461 * c + n3" "n3 < 1461" and n3: "n3 = 365 * d + e" "e < 365"
    by (simp_all add: defs)
  have date: "date_of n = (if d = 4 \<or> b = 4 then (400 * a + 100 * b + 4 * c + d, 12, 31)
      else (400 * a + 100 * b + 4 * c + d + 1,
        month_day (month_lengths (400 * a + 100 * b + 4 * c + d + 1)) 1 e))"
    by (simp add: date_of_def Let_def flip: defs)
  have b: "b \<le> 4" and c: "c < 25" and d: "d \<le> 4" using n n1 n2 n3 by linarith+
  consider "b = 4" | "b < 4" "d = 4" | "b < 4" "d < 4" using b d by linarith
  then show thesis
  proof cases
    case 1
    with n n1 have "n2 = 0" by linarith
    with 1 n n1 n2 n3 have "n = 146097 * a + 146096" "c = 0" "d = 0" by linarith+
    with date 1 that(3) show thesis by simp
  next
    case 2
    with n2 n3 have "e = 0" "n3 = 1460" by linarith+
    moreover with n1 n2 have "c < 24" by linarith
    ultimately show thesis using date 2 n n1 n2 that(2) [of a b c] by simp
  next
    case 3
    with date n n1 n2 n3 c that(1) [of a b c d e] show thesis by simp
  qed
qed

lemma days_before_year_cycle:
  "b < 4 \<Longrightarrow> c < 25 \<Longrightarrow> d < 4 \<Longrightarrow>
   days_before_year (400 * a + 100 * b + 4 * c + d + 1) =
     146097 * a + 36524 * b + 1461 * c + 365 * d"
proof -
  assume lt: "b < 4" "c < 25" "d < 4"
  let ?z = "400 * a + 100 * b + 4 * c + d"
  have "?z div 4 = 100 * a + 25 * b + c" "?z div 100 = 4 * a + b" "?z div 400 = a"
    using lt by linarith+
  then show ?thesis by (simp add: days_before_year_def Let_def)
qed

lemma sum_month_lengths: "sum_list (month_lengths y) = (if leap y then 366 else 365)"
  by (simp add: month_lengths_def)

lemma dec31: "days_of (y, 12, 31) = days_before_year y + (if leap y then 365 else 364)"
  by (simp add: month_lengths_def)

lemma days_of_date_of [simp]: "days_of (date_of n) = n"
proof (cases n rule: date_of_cases)
  case (1 a b c d e)
  let ?y = "400 * a + 100 * b + 4 * c + d + 1"
  have "e < sum_list (month_lengths ?y)" using 1(2) by (simp add: sum_month_lengths)
  from month_day_split [OF this, of 1] obtain k r where
    "e = sum_list (take k (month_lengths ?y)) + r"
    "month_day (month_lengths ?y) 1 e = (1 + k, r + 1)" by blast
  moreover have "days_before_year ?y + e = n" using 1 days_before_year_cycle [of b c d a] by simp
  ultimately show ?thesis by (simp only: 1(7)) simp
next
  case (2 a b c)
  have "leap (400 * a + 100 * b + 4 * c + 4)"
  proof -
    have 4: "400 * a + 100 * b + 4 * c + 4 = 0 + 4 * (100 * a + 25 * b + c + 1)"
      and 100: "400 * a + 100 * b + 4 * c + 4 = (4 * c + 4) + 100 * (4 * a + b)" by simp_all
    have "(400 * a + 100 * b + 4 * c + 4) mod 4 = 0" unfolding 4 by (simp only: mod_mult_self2)
    moreover have "(400 * a + 100 * b + 4 * c + 4) mod 100 = 4 * c + 4"
      using 2(3) by (simp only: 100 mod_mult_self2) simp
    ultimately show ?thesis by (simp only: leap_def) simp
  qed
  moreover have "days_before_year (400 * a + 100 * b + 4 * c + 4) =
      146097 * a + 36524 * b + 1461 * c + 365 * 3"
    using days_before_year_cycle [of b c 3 a] 2 by (simp add: add.commute add.left_commute)
  ultimately show ?thesis using 2(1,4) by (simp only: 2(4) dec31) simp
next
  case (3 a)
  have "leap (400 * a + 400)" by (simp add: leap_def)
  moreover have "days_before_year (400 * a + 400) = 146097 * a + 36524 * 3 + 1461 * 24 + 365 * 3"
    using days_before_year_cycle [of 3 24 3 a] by (simp add: add.commute)
  ultimately show ?thesis using 3 by (simp only: 3(2) dec31) simp
qed

section \<open>Datetimes\<close>

definition day_us :: int where
  "day_us = 86400000000"

text \<open>The datetimes from year 1 to year 9999.\<close>

definition valid_datetime :: "datetime \<Rightarrow> bool" where
  "valid_datetime t \<longleftrightarrow> 0 \<le> t \<and> t < 3652059 * day_us"

definition isoformat :: "datetime \<Rightarrow> string" where
  "isoformat t =
     (let (y, m, d) = date_of (nat (t div day_us)); us = nat (t mod day_us)
      in pad 4 y @ ''-'' @ pad 2 m @ ''-'' @ pad 2 d @ ''T'' @
         pad 2 (us div 3600000000) @ '':'' @ pad 2 (us div 60000000 mod 60) @ '':'' @
         pad 2 (us div 1000000 mod 60) @
         (if us mod 1000000 \<noteq> 0 then ''.'' @ pad 6 (us mod 1000000) else []) @ ''+00:00'')"

definition field :: "nat \<Rightarrow> nat \<Rightarrow> string \<Rightarrow> string" where
  "field i w s = take w (drop i s)"

definition fromisoformat :: "string \<Rightarrow> exn + datetime" where
  "fromisoformat s =
     (let y = field 0 4 s; m = field 5 2 s; d = field 8 2 s;
          hh = field 11 2 s; mm = field 14 2 s; ss = field 17 2 s;
          frac = field 19 1 s = ''.''; us = (if frac then field 20 6 s else ''000000'');
          tz = drop (if frac then 26 else 19) s;
          date = (digits_val y, digits_val m, digits_val d)
      in if field 4 1 s = ''-'' \<and> field 7 1 s = ''-'' \<and> field 10 1 s = ''T'' \<and>
            field 13 1 s = '':'' \<and> field 16 1 s = '':'' \<and> tz = ''+00:00'' \<and>
            list_all is_digit (y @ m @ d @ hh @ mm @ ss @ us) \<and> length us = 6 \<and>
            valid_date date \<and> digits_val hh < 24 \<and> digits_val mm < 60 \<and> digits_val ss < 60
         then Inr (int (days_of date) * day_us + int (digits_val hh) * 3600000000 +
                   int (digits_val mm) * 60000000 + int (digits_val ss) * 1000000 +
                   int (digits_val us))
         else Inl (ValueError (''Invalid isoformat string: '' @ s)))"

lemma month_lengths_bounds: "i < 12 \<Longrightarrow> month_lengths y ! i \<le> 31"
proof -
  assume "i < 12"
  then have "month_lengths y ! i \<in> set (month_lengths y)"
    by (intro nth_mem) (simp add: month_lengths_def)
  then show ?thesis by (auto simp: month_lengths_def split: if_splits)
qed

lemma valid_date_of: "n < 3652059 \<Longrightarrow> valid_date (date_of n)"
proof (cases n rule: date_of_cases)
  case (1 a b c d e)
  assume n: "n < 3652059"
  let ?y = "400 * a + 100 * b + 4 * c + d + 1"
  have "e < sum_list (month_lengths ?y)" using 1(2) by (simp add: sum_month_lengths)
  from month_day_split [OF this, of 1] obtain k r where
    k: "k < length (month_lengths ?y)" "r < month_lengths ?y ! k"
    "month_day (month_lengths ?y) 1 e = (1 + k, r + 1)" by blast
  have "length (month_lengths ?y) = 12" by (simp add: month_lengths_def)
  moreover have "?y \<le> 9999" using n 1 by linarith
  ultimately show ?thesis using k by (simp only: 1(7)) (simp add: valid_date_def)
next
  case (2 a b c)
  assume "n < 3652059"
  with 2 have "400 * a + 100 * b + 4 * c + 4 \<le> 9999" by linarith
  then show ?thesis by (simp only: 2(4)) (simp add: valid_date_def month_lengths_def)
next
  case (3 a)
  assume "n < 3652059"
  with 3 have "400 * a + 400 \<le> 9999" by linarith
  then show ?thesis by (simp only: 3(2)) (simp add: valid_date_def month_lengths_def)
qed

lemma us_split:
  fixes us :: nat
  shows "us div 3600000000 * 3600000000 + us div 60000000 mod 60 * 60000000 +
    us div 1000000 mod 60 * 1000000 + us mod 1000000 = us"
proof -
  define q r where "q = us div 1000000" and "r = q div 60"
  have "us div 60000000 = r" "us div 3600000000 = r div 60"
    by (simp_all add: q_def r_def div_mult2_eq [symmetric])
  moreover have "r div 60 * 3600000000 + r mod 60 * 60000000 + q mod 60 * 1000000 + F = us"
    if "F = us mod 1000000" for F
  proof -
    have "r div 60 * 3600000000 + r mod 60 * 60000000 + q mod 60 * 1000000 =
        ((r div 60 * 60 + r mod 60) * 60 + q mod 60) * 1000000"
      unfolding distrib_right mult.assoc by simp
    also have "\<dots> = q * 1000000" by (simp only: div_mult_mod_eq r_def)
    finally show ?thesis using that by (simp only: q_def div_mult_mod_eq)
  qed
  ultimately show ?thesis by (simp only: q_def [symmetric])
qed

lemma fromisoformat_isoformat [simp]:
  assumes "valid_datetime t"
  shows "fromisoformat (isoformat t) = Inr t"
proof -
  define us where "us = nat (t mod day_us)"
  obtain y m d where date: "date_of (nat (t div day_us)) = (y, m, d)" by (metis prod_cases3)
  have day: "nat (t div day_us) < 3652059" and us: "us < 86400000000"
    using assms by (simp_all add: valid_datetime_def us_def day_us_def) linarith+
  have vd: "valid_date (y, m, d)" using valid_date_of [OF day] date by simp
  then have "m - 1 < 12" "d \<le> month_lengths y ! (m - 1)" by (auto simp: valid_date_def)
  with month_lengths_bounds [of "m - 1" y] have "d \<le> 31" by linarith
  with vd have ymd: "y < 10 ^ 4" "m < 10 ^ 2" "d < 10 ^ 2" by (auto simp: valid_date_def)
  define H M S F where "H = us div 3600000000" and "M = us div 60000000 mod 60"
    and "S = us div 1000000 mod 60" and "F = us mod 1000000"
  have hms: "H < 24" "M < 60" "S < 60" "F < 10 ^ 6"
    using us by (simp_all add: H_def M_def S_def F_def div_less_iff_less_mult)
  then have hms2: "H < 10 ^ 2" "M < 10 ^ 2" "S < 10 ^ 2" by simp_all
  have "days_of (y, m, d) = nat (t div day_us)" by (metis date days_of_date_of)
  moreover have "0 \<le> t div day_us" "0 \<le> t mod day_us"
    using assms by (auto simp: valid_datetime_def day_us_def pos_imp_zdiv_nonneg_iff)
  moreover have "H * 3600000000 + M * 60000000 + S * 1000000 + F = us"
    unfolding H_def M_def S_def F_def by (rule us_split)
  then have "int H * 3600000000 + int M * 60000000 + int S * 1000000 + int F = int us" by linarith
  ultimately have val: "int (days_of (y, m, d)) * day_us + int H * 3600000000 + int M * 60000000 +
      int S * 1000000 + int F = t"
    by (simp add: us_def) (use div_mult_mod_eq [of t day_us] in linarith)
  have iso: "isoformat t = pad 4 y @ ''-'' @ pad 2 m @ ''-'' @ pad 2 d @ ''T'' @ pad 2 H @ '':'' @
      pad 2 M @ '':'' @ pad 2 S @ (if F \<noteq> 0 then ''.'' @ pad 6 F else []) @ ''+00:00''"
    by (simp add: isoformat_def date Let_def H_def M_def S_def F_def flip: us_def)
  have zeros: "digits_val ''000000'' = 0" "list_all is_digit ''000000''"
    by (simp_all add: digits_val_def digit_val_def is_digit_def)
  show ?thesis
  proof (cases "F = 0")
    case True
    then show ?thesis using val vd hms hms2 ymd zeros
      by (simp add: iso fromisoformat_def field_def Let_def del: days_of.simps pad.simps)
  next
    case False
    then show ?thesis using val vd hms hms2 ymd
      by (simp add: iso fromisoformat_def field_def Let_def del: days_of.simps pad.simps)
  qed
qed

end
