(* ===== verification/Serialization.thy ===== *)
theory Serialization
  imports Payment Formats
begin

text \<open>
  \<open>infrastructure/outbox/serialization.py\<close>: an event becomes the JSON payload of its outbox row,
  and a payload becomes an event again. An event object read back is given by the name of its class
  and its fields in the order the dataclass declares them, as dynamic values: the dataclass
  constructors check the names of the arguments and not their types.
\<close>

definition dict_get :: "string \<Rightarrow> pydict \<Rightarrow> pyval option" where
  "dict_get k d = map_of d k"

definition dict_set :: "string \<Rightarrow> pyval \<Rightarrow> pydict \<Rightarrow> pydict" where
  "dict_set k v d =
     (if k \<in> set (map fst d) then map (\<lambda>(k', v'). (k', if k' = k then v else v')) d else d @ [(k, v)])"

fun truthy :: "pyval \<Rightarrow> bool" where
  "truthy VNone = False"
| "truthy (VBool b) = b"
| "truthy (VInt i) = (i \<noteq> 0)"
| "truthy (VFloat r) = (r \<noteq> 0)"
| "truthy (VStr s) = (s \<noteq> [])"
| "truthy (VList vs) = (vs \<noteq> [])"
| "truthy (VTuple vs) = (vs \<noteq> [])"
| "truthy (VDict d) = (d \<noteq> [])"
| "truthy _ = True"

fun hashable :: "pyval \<Rightarrow> bool" where
  "hashable (VList _) = False"
| "hashable (VDict _) = False"
| "hashable (VTuple vs) = list_all hashable vs"
| "hashable _ = True"

section \<open>Writing\<close>

fun to_jsonable :: "pyval \<Rightarrow> pyval" where
  "to_jsonable (VDatetime t) = VStr (isoformat t)"
| "to_jsonable (VUuid u) = VStr (uuid_str u)"
| "to_jsonable (VDict d) = VDict (map (\<lambda>(k, v). (k, to_jsonable v)) d)"
| "to_jsonable (VList vs) = VList (map to_jsonable vs)"
| "to_jsonable (VTuple vs) = VList (map to_jsonable vs)"
| "to_jsonable v = v"

text \<open>\<open>fields(event)\<close> with \<open>getattr\<close>: the fields of \<open>DomainEvent\<close>, then those of the class.\<close>

definition base_fields :: "event_base \<Rightarrow> pydict" where
  "base_fields b =
     [(''aggregate_id'', VUuid (ev_aggregate_id b)), (''occurred_at'', VDatetime (ev_occurred_at b)),
      (''correlation_id'', opt_str (ev_correlation_id b))]"

fun event_fields :: "domain_event \<Rightarrow> pydict" where
  "event_fields (PaymentCreated b amount cur descr meta url key created) =
     base_fields b @
     [(''amount'', VStr amount), (''currency'', VStr cur), (''description'', opt_str descr),
      (''metadata'', VDict meta), (''webhook_url'', VStr url), (''idempotency_key'', VStr key),
      (''created_at'', VDatetime created)]"
| "event_fields (PaymentProcessingStarted b) = base_fields b"
| "event_fields (PaymentSucceeded b processed) = base_fields b @ [(''processed_at'', VDatetime processed)]"
| "event_fields (PaymentFailed b reason processed) =
     base_fields b @ [(''reason'', opt_str reason), (''processed_at'', VDatetime processed)]"

definition serialize_event :: "domain_event \<Rightarrow> pydict" where
  "serialize_event e =
     dict_set ''event_type'' (VStr (event_type e)) (map (\<lambda>(k, v). (k, to_jsonable v)) (event_fields e))"

section \<open>Reading\<close>

text \<open>\<open>EVENT_TYPES\<close>: the fields of each event class; only \<open>correlation_id\<close> has a default.\<close>

definition base_field_names :: "string list" where
  "base_field_names = [''aggregate_id'', ''occurred_at'', ''correlation_id'']"

definition event_types :: "string \<Rightarrow> string list option" where
  "event_types = map_of
     [(''PaymentCreated'', base_field_names @ [''amount'', ''currency'', ''description'', ''metadata'',
         ''webhook_url'', ''idempotency_key'', ''created_at'']),
      (''PaymentProcessingStarted'', base_field_names),
      (''PaymentSucceeded'', base_field_names @ [''processed_at'']),
      (''PaymentFailed'', base_field_names @ [''reason'', ''processed_at''])]"

text \<open>The generated constructor, called with keyword arguments.\<close>

definition construct :: "string \<Rightarrow> string list \<Rightarrow> pydict \<Rightarrow> exn + string \<times> pydict" where
  "construct cls names kwargs =
     (if \<not> list_all (\<lambda>(k, _). k \<in> set names) kwargs
      then Inl (TypeError ''unexpected keyword argument'')
      else if \<not> list_all (\<lambda>n. n = ''correlation_id'' \<or> dict_get n kwargs \<noteq> None) names
      then Inl (TypeError ''missing required keyword-only argument'')
      else Inr (cls, map (\<lambda>n. (n, case dict_get n kwargs of None \<Rightarrow> VNone | Some v \<Rightarrow> v)) names))"

definition restore_uuid :: "string \<Rightarrow> pydict \<Rightarrow> exn + pydict" where
  "restore_uuid k d =
     (case dict_get k d of
        Some (VStr s) \<Rightarrow> map_res (\<lambda>u. dict_set k (VUuid u) d) (parse_uuid s)
      | _ \<Rightarrow> Inr d)"

definition restore_datetime :: "string \<Rightarrow> pydict \<Rightarrow> exn + pydict" where
  "restore_datetime k d =
     (case dict_get k d of
        None \<Rightarrow> Inr d
      | Some v \<Rightarrow>
          if \<not> truthy v then Inr d
          else case v of
            VStr s \<Rightarrow> map_res (\<lambda>t. dict_set k (VDatetime t) d) (fromisoformat s)
          | _ \<Rightarrow> Inl (TypeError ''fromisoformat: argument must be str''))"

definition deserialize_event :: "pydict \<Rightarrow> exn + string \<times> pydict" where
  "deserialize_event data =
     (case dict_get ''event_type'' data of
        None \<Rightarrow> Inl (ValueError ''Missing event_type in payload'')
      | Some t \<Rightarrow>
          if \<not> truthy t then Inl (ValueError ''Missing event_type in payload'')
          else if \<not> hashable t then Inl (TypeError ''unhashable type'')
          else case (case t of VStr s \<Rightarrow> map_option (Pair s) (event_types s) | _ \<Rightarrow> None) of
            None \<Rightarrow> Inl (ValueError ''Unknown event_type'')
          | Some (cls, names) \<Rightarrow>
              bind_res (restore_uuid ''aggregate_id'' (filter (\<lambda>(k, _). k \<noteq> ''event_type'') data)) (\<lambda>d.
              bind_res (restore_datetime ''occurred_at'' d) (\<lambda>d.
              bind_res (restore_datetime ''created_at'' d) (\<lambda>d.
              bind_res (restore_datetime ''processed_at'' d) (construct cls names)))))"

section \<open>Facts\<close>

lemma jsonable_to_jsonable [simp]: "jsonable (to_jsonable v)"
  by (induction v rule: to_jsonable.induct) (auto simp: list_all_iff)

text \<open>What JSON keeps as it is: no tuples, dates or identifiers inside.\<close>

fun json_plain :: "pyval \<Rightarrow> bool" where
  "json_plain (VList vs) = list_all json_plain vs"
| "json_plain (VTuple _) = False"
| "json_plain (VDict d) = list_all (\<lambda>kv. json_plain (snd kv)) d"
| "json_plain (VDatetime _) = False"
| "json_plain (VUuid _) = False"
| "json_plain _ = True"

lemma to_jsonable_plain: "json_plain v \<Longrightarrow> to_jsonable v = v"
  by (induction v rule: to_jsonable.induct) (auto simp: list_all_iff intro!: map_idI)

lemma to_jsonable_opt_str [simp]: "to_jsonable (opt_str s) = opt_str s"
  by (cases s) (simp_all add: opt_str_def)

lemma isoformat_nonempty [simp]: "isoformat t \<noteq> []"
  by (simp add: isoformat_def Let_def split: prod.split)

text \<open>The datetimes and the metadata an event carries.\<close>

fun event_ok :: "domain_event \<Rightarrow> bool" where
  "event_ok (PaymentCreated b _ _ _ meta _ _ created) \<longleftrightarrow>
     valid_datetime (ev_occurred_at b) \<and> json_plain (VDict meta) \<and> valid_datetime created"
| "event_ok (PaymentProcessingStarted b) \<longleftrightarrow> valid_datetime (ev_occurred_at b)"
| "event_ok (PaymentSucceeded b processed) \<longleftrightarrow>
     valid_datetime (ev_occurred_at b) \<and> valid_datetime processed"
| "event_ok (PaymentFailed b _ processed) \<longleftrightarrow>
     valid_datetime (ev_occurred_at b) \<and> valid_datetime processed"

lemmas deserialize_simps = serialize_event_def deserialize_event_def base_fields_def dict_get_def
  dict_set_def event_types_def base_field_names_def restore_uuid_def restore_datetime_def
  construct_def

text \<open>
  Property C29. The outbox payload loses nothing: for an event with dates between the years 1 and
  9999 and metadata that JSON can express, \<open>deserialize_event\<close> applied to \<open>serialize_event\<close>
  gives an event of the same class with the same fields.
\<close>

theorem event_payload_roundtrip:
  assumes "event_ok e"
  shows "deserialize_event (serialize_event e) = Inr (event_type e, event_fields e)"
proof (cases e)
  case (PaymentCreated b amount cur descr meta url key created)
  with assms have "to_jsonable (VDict meta) = VDict meta" by (simp only: to_jsonable_plain event_ok.simps)
  with PaymentCreated assms show ?thesis
    by (simp add: deserialize_simps del: to_jsonable.simps(3))
qed (use assms in \<open>simp_all add: deserialize_simps\<close>)

theorem event_payload_roundtrip_witness:
  "deserialize_event (serialize_event
     (PaymentSucceeded \<lparr>ev_aggregate_id = 7, ev_occurred_at = 3600000000, ev_correlation_id = None\<rparr> 3600000001))
   = Inr (''PaymentSucceeded'',
       [(''aggregate_id'', VUuid 7), (''occurred_at'', VDatetime 3600000000), (''correlation_id'', VNone),
        (''processed_at'', VDatetime 3600000001)])"
  by (subst event_payload_roundtrip)
    (simp_all add: valid_datetime_def day_us_def base_fields_def opt_str_def)

end
