(* ===== verification/StoredText.thy ===== *)
theory StoredText
  imports Db Serialization
begin

text \<open>
  The texts the program itself produces for the tables (numbers, decimals, timestamps, identifiers,
  event payloads) contain no NUL, so a column rejects only what a client, a merchant or the gateway
  has sent.
\<close>

lemma text_ok_simps [simp]:
  "text_ok []" "text_ok (c # s) \<longleftrightarrow> c \<noteq> CHR 0x00 \<and> text_ok s" "text_ok (s @ t) \<longleftrightarrow> text_ok s \<and> text_ok t"
  by (auto simp: text_ok_def)

lemma text_ok_subset: "text_ok s \<Longrightarrow> set t \<subseteq> set s \<Longrightarrow> text_ok t"
  by (auto simp: text_ok_def)

lemma text_ok_take [simp]: "text_ok s \<Longrightarrow> text_ok (take n s)" "text_ok s \<Longrightarrow> text_ok (drop n s)"
  by (auto elim!: text_ok_subset dest: in_set_takeD in_set_dropD)

lemma text_ok_replicate [simp]: "c \<noteq> CHR 0x00 \<Longrightarrow> text_ok (replicate n c)"
  by (simp add: text_ok_def)

lemma text_ok_digits: "list_all is_digit s \<Longrightarrow> text_ok s"
  by (induction s) (auto simp: is_digit_def)

lemma text_ok_nat_str [simp]: "text_ok (nat_str n)"
  by (rule text_ok_digits [OF nat_str_digits])

lemma text_ok_pad [simp]: "text_ok (pad w n)"
  by (rule text_ok_digits [OF pad_digits])

lemma text_ok_hexs [simp]: "text_ok (hexs w n)"
proof (induction w arbitrary: n)
  case (Suc w)
  have "n mod 16 \<in> set [0..<16]" by simp
  moreover have "\<forall>i \<in> set [0..<16]. hex_char i \<noteq> CHR 0x00" by code_simp
  ultimately have "hex_char (n mod 16) \<noteq> CHR 0x00" by blast
  with Suc show ?case by simp
qed simp

lemma text_ok_uuid [simp]: "text_ok (uuid_str u)"
  by (simp add: uuid_str_def Let_def)

lemma text_ok_isoformat [simp]: "text_ok (isoformat t)"
proof -
  obtain y m d where "date_of (nat (t div day_us)) = (y, m, d)" by (cases "date_of (nat (t div day_us))") auto
  then show ?thesis by (simp only: isoformat_def Let_def prod.case) simp
qed

lemma text_ok_exp_suffix [simp]: "text_ok (dec_exp_suffix x)"
  by (simp add: dec_exp_suffix_def)

lemma text_ok_if: "text_ok s \<Longrightarrow> text_ok t \<Longrightarrow> text_ok (if P then s else t)"
  by simp

lemma text_ok_append: "text_ok s \<Longrightarrow> text_ok t \<Longrightarrow> text_ok (s @ t)"
  by simp

lemma text_ok_dec_str [simp]: "text_ok (dec_str d)"
proof (cases d)
  case (Finite c e)
  then show ?thesis
    by (simp only: dec_str.simps Let_def) (intro text_ok_append text_ok_if text_ok_take text_ok_replicate
        text_ok_nat_str text_ok_exp_suffix, simp_all)
qed simp_all

lemma text_ok_currency [simp]: "text_ok (currency_value c)"
  by (cases c) simp_all

lemma text_ok_statuses [simp]:
  "text_ok (payment_status_value s)" "text_ok (attempt_status_value a)" "text_ok (delivery_status_value d)"
  by (cases s, simp_all, cases a, simp_all, cases d, simp_all)

lemma text_ok_key:
  assumes "mk_idempotency_key s = Inr k"
  shows "text_ok (key_value k)"
proof -
  from assms have "key_re_match s" and k: "key_value k = s" by (auto simp: mk_idempotency_key_def split: if_splits)
  then obtain w where w: "list_all printable w" "s = w \<or> s = w @ [CHR 0x0A]" by (auto simp: key_re_match_iff)
  from w(1) have "text_ok w" by (induction w) (auto simp: printable_def)
  with w(2) show ?thesis by (auto simp: k)
qed

text \<open>Payloads: writing dates and identifiers as text keeps a document storable.\<close>

lemma json_text_to_jsonable: "json_text v \<Longrightarrow> json_text (to_jsonable v)"
  by (induction v rule: to_jsonable.induct) (auto simp: list_all_iff)

lemma json_text_opt [simp]: "json_text (opt_str s) \<longleftrightarrow> text_opt s"
  by (cases s) (simp_all add: opt_str_def)

end
