(* ===== verification/UnitOfWork.thy ===== *)
theory UnitOfWork
  imports PaymentRepo AttemptRepo DeliveryRepo StoredText
begin

text \<open>
  \<open>infrastructure/uow.py\<close> and \<open>shared/application/transaction.py\<close>: the unit of work that binds the
  repositories to one session, and the decorator that runs a handler inside it. \<open>world\<close> pairs a
  unit of work with the committed tables; a transaction works on the copy in its session, and
  only \<open>commit\<close> replaces the committed tables.
\<close>

section \<open>Actions\<close>

text \<open>Awaited code that may raise, with the object it works on passed along.\<close>

definition bind_act :: "('s \<Rightarrow> exn + 'a \<times> 's) \<Rightarrow> ('a \<Rightarrow> 's \<Rightarrow> exn + 'b \<times> 's) \<Rightarrow> 's \<Rightarrow> exn + 'b \<times> 's" where
  "bind_act m k s = bind_res (m s) (\<lambda>(a, s'). k a s')"

definition return_act :: "'a \<Rightarrow> 's \<Rightarrow> exn + 'a \<times> 's" where
  "return_act a s = Inr (a, s)"

definition raise_act :: "exn \<Rightarrow> 's \<Rightarrow> exn + 'a \<times> 's" where
  "raise_act e s = Inl e"

text \<open>A computation on values inside an action.\<close>

definition lift_act :: "exn + 'a \<Rightarrow> 's \<Rightarrow> exn + 'a \<times> 's" where
  "lift_act r s = map_res (\<lambda>a. (a, s)) r"

lemma bind_act_Inr [res_simps]:
  "bind_act m k s = Inr (b, t) \<longleftrightarrow> (\<exists>a s'. m s = Inr (a, s') \<and> k a s' = Inr (b, t))"
  by (auto simp: bind_act_def res_simps)

lemma return_act_Inr [res_simps]: "return_act a s = Inr (b, t) \<longleftrightarrow> b = a \<and> t = s"
  by (auto simp: return_act_def)

lemma raise_act_Inr [res_simps]: "raise_act e s = Inr (b, t) \<longleftrightarrow> False"
  by (simp add: raise_act_def)

lemma lift_act_Inr [res_simps]: "lift_act r s = Inr (b, t) \<longleftrightarrow> r = Inr b \<and> t = s"
  by (auto simp: lift_act_def res_simps)

section \<open>The unit of work\<close>

record uow =
  u_session :: "session option"
  u_committed :: bool
  u_rolled_back :: bool
  u_collected :: "domain_event list"

definition uow_new :: uow where
  "uow_new = \<lparr>u_session = None, u_committed = False, u_rolled_back = False, u_collected = []\<rparr>"

definition not_started :: exn where
  "not_started = RuntimeError ''UnitOfWork session is not started''"

definition session_provider :: "uow \<Rightarrow> exn + session" where
  "session_provider u = (case u_session u of None \<Rightarrow> Inl not_started | Some s \<Rightarrow> Inr s)"

text \<open>A repository call: every repository asks the provider for the session first.\<close>

definition repo :: "(session \<Rightarrow> exn + 'a \<times> session) \<Rightarrow> uow \<Rightarrow> exn + 'a \<times> uow" where
  "repo f u =
     bind_res (session_provider u) (\<lambda>s. map_res (\<lambda>(a, s'). (a, u\<lparr>u_session := Some s'\<rparr>)) (f s))"

definition repo_add :: "(session \<Rightarrow> session) \<Rightarrow> uow \<Rightarrow> exn + unit \<times> uow" where
  "repo_add f = repo (\<lambda>s. Inr ((), f s))"

definition uow_enter :: "db \<Rightarrow> uow \<Rightarrow> uow" where
  "uow_enter d u =
     u\<lparr>u_session := Some (open_session d), u_committed := False, u_rolled_back := False,
       u_collected := []\<rparr>"

type_synonym world = "uow \<times> db"

definition uow_commit :: "world \<Rightarrow> (exn + unit) \<times> world" where
  "uow_commit w =
     (case u_session (fst w) of
        None \<Rightarrow> (Inl not_started, w)
      | Some s \<Rightarrow>
          (case flush s of
             Inl e \<Rightarrow> (Inl e, w)
           | Inr s' \<Rightarrow> (Inr (), (fst w)\<lparr>u_session := Some s', u_committed := True\<rparr>, s_db s')))"

definition uow_rollback :: "world \<Rightarrow> world" where
  "uow_rollback w =
     (if u_session (fst w) = None \<or> u_rolled_back (fst w) then w
      else ((fst w)\<lparr>u_session := Some (open_session (snd w)), u_rolled_back := True\<rparr>, snd w))"

text \<open>\<open>__aexit__\<close>; closing the session discards what was not committed.\<close>

definition uow_exit :: "bool \<Rightarrow> world \<Rightarrow> world" where
  "uow_exit raised w =
     (let (u, d) = (if raised \<and> \<not> u_committed (fst w) \<and> \<not> u_rolled_back (fst w)
                    then uow_rollback w else w)
      in (u\<lparr>u_session := None\<rparr>, d))"

text \<open>The outbox row of an event; \<open>fresh n\<close> is the identifier the \<open>n\<close>-th call of \<open>uuid7\<close> returns.\<close>

definition outbox_row_of :: "uuid \<Rightarrow> domain_event \<Rightarrow> outbox_row" where
  "outbox_row_of i e =
     \<lparr>ob_id = i, ob_event_type = event_type e, ob_aggregate_id = ev_aggregate_id (event_base_of e),
      ob_payload = serialize_event e, ob_correlation_id = ev_correlation_id (event_base_of e),
      ob_attempts = 0, ob_status = ''pending'', ob_created_at = ev_occurred_at (event_base_of e),
      ob_next_retry_at = None, ob_claimed_at = None, ob_claimed_by = None,
      ob_processed_at = None, ob_finished_at = None\<rparr>"

fun collect_loop :: "(nat \<Rightarrow> uuid) \<Rightarrow> nat \<Rightarrow> domain_event list \<Rightarrow> uow \<Rightarrow> session \<Rightarrow> uow \<times> session" where
  "collect_loop fresh n [] u s = (u, s)"
| "collect_loop fresh n (e # es) u s =
     collect_loop fresh (n + 1) es (u\<lparr>u_collected := u_collected u @ [e]\<rparr>)
       (session_add (NewOutbox (outbox_row_of (fresh n) e)) s)"

definition collect_events :: "(nat \<Rightarrow> uuid) \<Rightarrow> domain_event list \<Rightarrow> uow \<Rightarrow> exn + unit \<times> uow" where
  "collect_events fresh es u =
     (case u_session u of
        None \<Rightarrow> Inl not_started
      | Some s \<Rightarrow> (let (u', s') = collect_loop fresh 0 es u s in Inr ((), u'\<lparr>u_session := Some s'\<rparr>)))"

section \<open>The transaction decorator\<close>

definition current_uow :: "uow option \<Rightarrow> exn + uow" where
  "current_uow ctx =
     (case ctx of None \<Rightarrow> Inl (RuntimeError ''No active UnitOfWork in this context'') | Some u \<Rightarrow> Inr u)"

definition transactional :: "bool \<Rightarrow> (uow \<Rightarrow> exn + 'a \<times> uow) \<Rightarrow> db \<Rightarrow> (exn + 'a) \<times> db" where
  "transactional commit fn d =
     (let u = uow_enter d uow_new
      in case bind_res (current_uow (Some u)) fn of
           Inl e \<Rightarrow> (Inl e, snd (uow_exit True (u, d)))
         | Inr (a, u') \<Rightarrow>
             (if commit then
                case uow_commit (u', d) of
                  (Inl e, w) \<Rightarrow> (Inl e, snd (uow_exit True w))
                | (Inr _, w) \<Rightarrow> (Inr a, snd (uow_exit False w))
              else (Inr a, snd (uow_exit False (u', d)))))"

section \<open>Facts\<close>

definition on :: "session \<Rightarrow> uow" where
  "on s = \<lparr>u_session = Some s, u_committed = False, u_rolled_back = False, u_collected = []\<rparr>"

lemma uow_enter_on: "uow_enter d uow_new = on (open_session d)"
  by (simp add: uow_enter_def uow_new_def on_def)

lemma on_simps [simp]: "u_session (on s) = Some s" "(on s)\<lparr>u_session := Some s'\<rparr> = on s'"
  by (simp_all add: on_def)

lemma repo_on: "repo f (on s) = map_res (\<lambda>(a, s'). (a, on s')) (f s)"
  by (simp add: repo_def session_provider_def)

lemma repo_on_Inr [res_simps]:
  "repo f (on s) = Inr (a, u) \<longleftrightarrow> (\<exists>s'. f s = Inr (a, s') \<and> u = on s')"
  by (auto simp: repo_on res_simps)

lemma repo_add_on [simp]: "repo_add f (on s) = Inr ((), on (f s))"
  by (simp add: repo_add_def repo_on)

lemma uow_exit_db [simp]: "snd (uow_exit raised w) = snd w"
  by (auto simp: uow_exit_def uow_rollback_def Let_def split: prod.split)

text \<open>What the decorator does, without the bookkeeping of the unit of work.\<close>

lemma transactional_def2:
  "transactional commit fn d =
     (case fn (on (open_session d)) of
        Inl e \<Rightarrow> (Inl e, d)
      | Inr (a, u) \<Rightarrow>
          if \<not> commit then (Inr a, d)
          else case u_session u of
            None \<Rightarrow> (Inl not_started, d)
          | Some s \<Rightarrow> (case flush s of Inl e \<Rightarrow> (Inl e, d) | Inr s' \<Rightarrow> (Inr a, s_db s')))"
  by (auto simp: transactional_def uow_enter_on current_uow_def uow_commit_def Let_def
      split: sum.split prod.split option.split)

lemma transactional_commit:
  "transactional True fn d =
     (case fn (on (open_session d)) of
        Inl e \<Rightarrow> (Inl e, d)
      | Inr (a, u) \<Rightarrow>
          (case u_session u of
            None \<Rightarrow> (Inl not_started, d)
          | Some s \<Rightarrow> (case flush s of Inl e \<Rightarrow> (Inl e, d) | Inr s' \<Rightarrow> (Inr a, s_db s'))))"
  by (auto simp: transactional_def2 split: sum.split prod.split option.split)

lemma transactional_error: "transactional commit fn d = (Inl e, d') \<Longrightarrow> d' = d"
  by (auto simp: transactional_def2 split: sum.splits option.splits if_splits)

lemma transactional_read: "snd (transactional False fn d) = d"
  by (auto simp: transactional_def2 split: sum.split)

lemma transactional_Inr:
  "transactional True fn d = (Inr a, d') \<longleftrightarrow>
     (\<exists>u s s'. fn (on (open_session d)) = Inr (a, u) \<and> u_session u = Some s \<and> flush s = Inr s' \<and>
        d' = s_db s')"
  by (auto simp: transactional_def2 split: sum.split option.split)

lemma collect_loop_eq:
  "collect_loop fresh n es u s =
     (u\<lparr>u_collected := u_collected u @ es\<rparr>,
      s\<lparr>s_pending := s_pending s @
          map (\<lambda>(k, e). NewOutbox (outbox_row_of (fresh k) e)) (zip [n..<n + length es] es)\<rparr>)"
proof (induction es arbitrary: n u s)
  case Nil
  then show ?case by simp
next
  case (Cons e es)
  then show ?case by (simp add: session_add_def upt_conv_Cons del: upt_Suc)
qed

lemma collect_events_session:
  assumes "u_session u = Some s"
  shows "\<exists>u'. collect_events fresh es u = Inr ((), u') \<and> u_collected u' = u_collected u @ es \<and>
    u_session u' = Some (s\<lparr>s_pending := s_pending s @
      map (\<lambda>(k, e). NewOutbox (outbox_row_of (fresh k) e)) (zip [0..<length es] es)\<rparr>)"
  using assms by (simp add: collect_events_def collect_loop_eq)

section \<open>The interface of a handler\<close>

text \<open>
  What the rest of the service relies on of a transactional handler: a call that raises leaves
  the committed tables as they were, and a call that returns keeps the invariant \<open>inv\<close> of the
  tables. Then every sequence of calls keeps it, whether they raise or not.
\<close>

locale atomic_handler =
  fixes run :: "'c \<Rightarrow> 'd \<Rightarrow> (exn + 'a) \<times> 'd"
    and inv :: "'d \<Rightarrow> bool"
  assumes error_keeps: "run c d = (Inl e, d') \<Longrightarrow> d' = d"
    and success_inv: "run c d = (Inr a, d') \<Longrightarrow> inv d \<Longrightarrow> inv d'"
begin

lemma run_inv: "inv d \<Longrightarrow> inv (snd (run c d))"
  using error_keeps success_inv by (cases "run c d"; cases "fst (run c d)") auto

lemma runs_inv: "inv d \<Longrightarrow> inv (fold (\<lambda>c d. snd (run c d)) cs d)"
  by (induction cs arbitrary: d) (auto intro: run_inv)

end

end
