(* ===== verification/CreatePayment.thy ===== *)
theory CreatePayment
  imports UnitOfWork
begin

text \<open>
  \<open>application/dto/payment.py\<close>, \<open>application/commands/create_payment.py\<close> and
  \<open>application/handlers/create_payment.py\<close>: the handler that stores a new payment and its
  PaymentCreated event in one transaction, and returns the stored payment when the key was used.
\<close>

section \<open>Data transfer objects\<close>

record attempt_dto =
  ad_attempt_number :: int
  ad_status :: string
  ad_error :: "string option"
  ad_gateway_response :: "pydict option"
  ad_created_at :: datetime

record payment_dto =
  pd_payment_id :: uuid
  pd_status :: string
  pd_amount :: decimal
  pd_currency :: string
  pd_description :: "string option"
  pd_metadata :: pydict
  pd_idempotency_key :: string
  pd_webhook_url :: string
  pd_created_at :: datetime
  pd_processed_at :: "datetime option"
  pd_attempts :: "attempt_dto list option"

definition from_attempt :: "attempt \<Rightarrow> attempt_dto" where
  "from_attempt a =
     \<lparr>ad_attempt_number = a_number a, ad_status = attempt_status_value (a_status a),
      ad_error = a_error a, ad_gateway_response = a_gateway_response a, ad_created_at = a_created_at a\<rparr>"

definition from_payment :: "payment \<Rightarrow> attempt list option \<Rightarrow> payment_dto" where
  "from_payment p as =
     \<lparr>pd_payment_id = p_id p, pd_status = payment_status_value (p_status p),
      pd_amount = money_amount (p_money p), pd_currency = currency_value (money_currency (p_money p)),
      pd_description = p_description p, pd_metadata = p_metadata p,
      pd_idempotency_key = key_value (p_idempotency_key p), pd_webhook_url = p_webhook_url p,
      pd_created_at = p_created_at p, pd_processed_at = p_processed_at p,
      pd_attempts = map_option (map from_attempt) as\<rparr>"

section \<open>The handler\<close>

record create_command =
  cc_idempotency_key :: string
  cc_amount :: decimal
  cc_currency :: string
  cc_description :: "string option"
  cc_metadata :: pydict
  cc_webhook_url :: string
  cc_correlation_id :: "string option"

text \<open>What one call takes from the clock and from \<open>uuid7\<close>.\<close>

record create_env =
  ce_now :: datetime
  ce_payment_id :: uuid
  ce_fresh :: "nat \<Rightarrow> uuid"

fun exn_str :: "exn \<Rightarrow> string" where
  "exn_str (ValueError s) = s"
| "exn_str _ = ''''"

definition command_values :: "create_command \<Rightarrow> exn + idempotency_key \<times> money" where
  "command_values c =
     (case bind_res (mk_idempotency_key (cc_idempotency_key c)) (\<lambda>k.
             map_res (Pair k) (mk_money (ADecimal (cc_amount c)) (cc_currency c))) of
        Inl e \<Rightarrow> Inl (if is_ValueError e then InvalidPaymentData (exn_str e) else e)
      | Inr km \<Rightarrow> Inr km)"

definition new_payment :: "create_env \<Rightarrow> create_command \<Rightarrow> idempotency_key \<Rightarrow> money \<Rightarrow> payment" where
  "new_payment env c k m =
     payment_create (ce_payment_id env) k m (cc_description c) (cc_metadata c) (cc_webhook_url c)
       (cc_correlation_id c) (ce_now env)"

definition create_body :: "create_env \<Rightarrow> create_command \<Rightarrow> uow \<Rightarrow> exn + payment_dto \<times> uow" where
  "create_body env c =
     bind_act (lift_act (command_values c)) (\<lambda>(k, m).
     let p = new_payment env c k m in
     bind_act (repo (try_insert p)) (\<lambda>inserted.
       case inserted of
         None \<Rightarrow>
           bind_act (repo (get_by_idempotency_key (cc_idempotency_key c))) (\<lambda>existing.
             case existing of
               None \<Rightarrow> raise_act (IdempotencyConflict (cc_idempotency_key c))
             | Some q \<Rightarrow> return_act (from_payment q None))
       | Some _ \<Rightarrow>
           (let (events, p') = pull_events p in
            bind_act (collect_events (ce_fresh env) events) (\<lambda>_.
              return_act (from_payment p' None)))))"

definition create_payment ::
    "create_env \<Rightarrow> create_command \<Rightarrow> db \<Rightarrow> (exn + payment_dto) \<times> db" where
  "create_payment env c = transactional True (create_body env c)"

section \<open>Rows and aggregates\<close>

definition payment_ok :: "payment \<Rightarrow> bool" where
  "payment_ok p \<longleftrightarrow>
     mk_idempotency_key (key_value (p_idempotency_key p)) = Inr (p_idempotency_key p) \<and>
     money_ok (p_money p)"

fun stored_money :: "money \<Rightarrow> money" where
  "stored_money (Money (Finite c e) k) = Money (Finite (rescale2 c e) (-2)) k"
| "stored_money m = m"

lemma money_ok_cases:
  assumes "money_ok m"
  obtains c e k where "m = Money (Finite c e) k" "0 < c" "whole_cents c e" "int (ndigits (nat c)) + e \<le> 26"
  using assms by (cases m rule: money_ok.cases) auto

lemma stored_money_ok:
  assumes "money_ok m" "numeric_18_2 (money_amount m) = Some a"
  shows "a = money_amount (stored_money m) \<and> money_ok (stored_money m) \<and> money_eq (stored_money m) m"
proof -
  from assms(1) obtain c e k where m: "m = Money (Finite c e) k" "0 < c" "whole_cents c e"
    "int (ndigits (nat c)) + e \<le> 26" by (rule money_ok_cases)
  then have cents: "cents c e = rescale2 c e" by (simp add: cents_whole)
  with assms(2) m(1) have a: "a = Finite (rescale2 c e) (-2)" and lt: "\<bar>rescale2 c e\<bar> < 10 ^ 18"
    by (auto split: if_splits)
  have eq: "dec_eq (Finite c e) (Finite (rescale2 c e) (-2))" using m(3) by (simp only: dec_eq_rescale2)
  then have val: "dec_val (Finite c e) = dec_val (Finite (rescale2 c e) (-2))"
    by (simp only: dec_eq_iff_val)
  have pos: "0 < rescale2 c e"
  proof -
    have p: "(0::rat) < 10 powi e" "(0::rat) < 10 powi (-2)" by (rule zero_less_power_int; simp)+
    with m(2) have "0 < dec_val (Finite c e)" by simp
    then have "0 < dec_val (Finite (rescale2 c e) (-2))" by (simp only: val)
    with p show ?thesis by (simp add: zero_less_mult_iff)
  qed
  have "nat (rescale2 c e) < 10 ^ 18" using lt pos by (simp add: nat_less_iff)
  then have "ndigits (nat (rescale2 c e)) \<le> 18" by (simp only: ndigits_le_iff [of 18])
  moreover have "whole_cents (rescale2 c e) (-2)" by (simp add: whole_cents_def)
  ultimately have "money_ok (stored_money m)" using pos m(1) by simp
  moreover have "dec_eq (Finite (rescale2 c e) (-2)) (Finite c e)" by (simp only: dec_eq_iff_val val)
  ultimately show ?thesis using a m(1) by (simp del: dec_eq.simps)
qed

lemma payment_row_check_Inr:
  assumes "payment_ok p" "payment_row_check (payment_values p) = Inr r"
  shows "r = payment_values (p\<lparr>p_money := stored_money (p_money p)\<rparr>) \<and>
    payment_to_domain r = Inr (p\<lparr>p_money := stored_money (p_money p), p_events := [], p_attempts := []\<rparr>) \<and>
    money_eq (stored_money (p_money p)) (p_money p)"
proof -
  from assms(2) obtain a where a: "numeric_18_2 (money_amount (p_money p)) = Some a"
    and r: "r = (payment_values p)\<lparr>pr_amount := a\<rparr>"
    by (auto simp: payment_row_check_def payment_values_def res_simps split: if_splits option.splits)
  from assms(1) have key: "mk_idempotency_key (key_value (p_idempotency_key p)) = Inr (p_idempotency_key p)"
    and m: "money_ok (p_money p)" by (simp_all add: payment_ok_def)
  note st = stored_money_ok [OF m a]
  have cur: "money_currency (stored_money (p_money p)) = money_currency (p_money p)"
    using m by (auto elim!: money_ok_cases)
  have mk: "mk_money (ADecimal (money_amount (stored_money (p_money p))))
      (currency_value (money_currency (p_money p))) = Inr (stored_money (p_money p))"
    using st cur [symmetric] by (simp only: mk_money_decimal money.collapse simp_thms)
  show ?thesis
    using st cur key mk by (simp add: r payment_values_def payment_to_domain_def)
qed

lemma command_values_Inr:
  "command_values c = Inr (k, m) \<longleftrightarrow>
     mk_idempotency_key (cc_idempotency_key c) = Inr k \<and>
     mk_money (ADecimal (cc_amount c)) (cc_currency c) = Inr m"
  by (auto simp: command_values_def res_simps split: sum.split)

lemma command_values_ok:
  assumes "command_values c = Inr (k, m)"
  shows "payment_ok (new_payment env c k m) \<and> key_value k = cc_idempotency_key c"
proof -
  from assms have k: "k = IdempotencyKey (cc_idempotency_key c)"
    and m: "mk_money (ADecimal (cc_amount c)) (cc_currency c) = Inr m"
    and k': "mk_idempotency_key (cc_idempotency_key c) = Inr k"
    by (auto simp: command_values_Inr mk_idempotency_key_def split: if_splits)
  then show ?thesis
    using mk_money_ok [OF m]
    by (simp add: payment_ok_def new_payment_def payment_create_def add_event_def)
qed

section \<open>What a call does\<close>

lemma pull_new_payment:
  "pull_events (new_payment env c k m) =
     ([PaymentCreated \<lparr>ev_aggregate_id = ce_payment_id env, ev_occurred_at = ce_now env,
          ev_correlation_id = cc_correlation_id c\<rparr> (dec_str (money_amount m))
          (currency_value (money_currency m)) (cc_description c) (cc_metadata c) (cc_webhook_url c)
          (key_value k) (ce_now env)],
      (new_payment env c k m)\<lparr>p_events := []\<rparr>)"
  by (simp add: pull_events_def new_payment_def payment_create_def add_event_def)

definition created_row :: "create_env \<Rightarrow> payment \<Rightarrow> outbox_row" where
  "created_row env p = outbox_row_of (ce_fresh env 0) (hd (p_events p))"

lemma created_row_simps [simp]:
  "ob_aggregate_id (created_row env (new_payment env c k m)) = ce_payment_id env"
  "ob_event_type (created_row env (new_payment env c k m)) = ''PaymentCreated''"
  "ob_status (created_row env (new_payment env c k m)) = ''pending''"
  "ob_attempts (created_row env (new_payment env c k m)) = 0"
  "dict_get ''aggregate_id'' (ob_payload (created_row env (new_payment env c k m))) =
     Some (VStr (uuid_str (ce_payment_id env)))"
  by (simp_all add: created_row_def outbox_row_of_def new_payment_def payment_create_def add_event_def
      dict_get_def serialize_event_def base_fields_def dict_set_def)

lemma new_payment_simps [simp]:
  "p_id (new_payment env c k m) = ce_payment_id env"
  "p_status (new_payment env c k m) = Pending" "p_version (new_payment env c k m) = 0"
  "p_idempotency_key (new_payment env c k m) = k" "p_money (new_payment env c k m) = m"
  "p_created_at (new_payment env c k m) = ce_now env"
  "p_processed_at (new_payment env c k m) = None" "p_attempts (new_payment env c k m) = []"
  by (simp_all add: new_payment_def payment_create_def add_event_def)

lemma from_payment_events [simp]: "from_payment (p\<lparr>p_events := es\<rparr>) as = from_payment p as"
  by (simp add: from_payment_def)

lemma create_payment_invalid:
  "command_values c = Inl e \<Longrightarrow> create_payment env c d = (Inl e, d)"
  by (simp add: create_payment_def transactional_def2 create_body_def bind_act_def lift_act_def)

lemma create_payment_checked:
  assumes "command_values c = Inr (k, m)" and p: "p = new_payment env c k m"
  shows "create_payment env c d =
    (case payment_row_check (payment_values p) of
       Inl e \<Rightarrow> (Inl e, d)
     | Inr r \<Rightarrow>
       (case row_by pr_idempotency_key (cc_idempotency_key c) (payments d) of
          Some q \<Rightarrow>
            (case payment_to_domain q of
               Inl e \<Rightarrow> (Inl e, d) | Inr p' \<Rightarrow> (Inr (from_payment p' None), d))
        | None \<Rightarrow>
            if row_by pr_id (ce_payment_id env) (payments d) \<noteq> None
            then (Inl (DBAPIError ''UniqueViolation''), d)
            else case outbox_row_check (d\<lparr>payments := payments d @ [r]\<rparr>) (created_row env p) of
              Inl e \<Rightarrow> (Inl e, d)
            | Inr _ \<Rightarrow> (Inr (from_payment p None),
                d\<lparr>payments := payments d @ [r],
                  outbox_messages := outbox_messages d @ [created_row env p]\<rparr>)))"
proof (cases "payment_row_check (payment_values p)")
  case (Inl e)
  then show ?thesis using assms(1)
    by (simp add: create_payment_def transactional_def2 create_body_def bind_act_def lift_act_def
        Let_def repo_on try_insert_def p)
next
  case (Inr r)
  from command_values_ok [OF assms(1)] have ok: "payment_ok p" and key: "key_value k = cc_idempotency_key c"
    by (simp_all add: p)
  from payment_row_check_Inr [OF ok Inr] key
  have r: "pr_idempotency_key r = cc_idempotency_key c" "pr_id r = ce_payment_id env"
    by (simp_all add: payment_values_def p new_payment_def payment_create_def add_event_def)
  have o: "outbox_row_of (ce_fresh env 0) (hd (p_events p)) = created_row env p"
    by (simp add: created_row_def)
  have pe: "pull_events p = ([hd (p_events p)], p\<lparr>p_events := []\<rparr>)"
    using pull_new_payment [of env c k m] by (simp add: p pull_events_def)
  show ?thesis using assms(1) Inr r o pe
    by (simp add: create_payment_def transactional_def2 create_body_def bind_act_def lift_act_def
        raise_act_def return_act_def Let_def repo_on try_insert_def get_by_idempotency_key_def map_row_def
        collect_events_def collect_loop_eq flush_def flip: p
        split: option.split sum.split)
qed

text \<open>
  Property C9. Creating a payment is atomic and idempotent: a call that raises changes nothing; a
  call that returns either finds a payment under the key, returns that one and changes nothing,
  or adds exactly one pending payment together with exactly one unpublished PaymentCreated
  message for it, and nothing else.
\<close>

theorem create_payment_atomic:
  "case create_payment env c d of
     (Inl e, d') \<Rightarrow> d' = d
   | (Inr dto, d') \<Rightarrow>
       (case row_by pr_idempotency_key (cc_idempotency_key c) (payments d) of
          Some r \<Rightarrow> d' = d \<and> (\<exists>p. payment_to_domain r = Inr p \<and> dto = from_payment p None)
        | None \<Rightarrow>
            \<exists>r m. d' = d\<lparr>payments := payments d @ [r], outbox_messages := outbox_messages d @ [m]\<rparr> \<and>
              pr_id r = pd_payment_id dto \<and> pr_idempotency_key r = cc_idempotency_key c \<and>
              pr_status r = ''pending'' \<and> pd_status dto = ''pending'' \<and> pr_version r = 0 \<and>
              ob_event_type m = ''PaymentCreated'' \<and> ob_aggregate_id m = pr_id r \<and>
              ob_status m = ''pending'' \<and> ob_attempts m = 0 \<and>
              dict_get ''aggregate_id'' (ob_payload m) = Some (VStr (uuid_str (pr_id r))))"
proof (cases "command_values c")
  case (Inl e)
  then show ?thesis by (simp add: create_payment_invalid)
next
  case (Inr km)
  then obtain k m where km: "command_values c = Inr (k, m)" by (cases km) auto
  from command_values_ok [OF km] have ok: "payment_ok (new_payment env c k m)"
    and key: "key_value k = cc_idempotency_key c" by simp_all
  let ?p = "new_payment env c k m"
  show ?thesis
  proof (cases "payment_row_check (payment_values ?p)")
    case (Inl e)
    then show ?thesis by (simp add: create_payment_checked [OF km refl])
  next
    case (Inr r)
    from payment_row_check_Inr [OF ok Inr] key
    have r: "pr_id r = ce_payment_id env" "pr_idempotency_key r = cc_idempotency_key c"
      "pr_status r = ''pending''" "pr_version r = 0"
      by (simp_all add: payment_values_def)
    from Inr show ?thesis
      by (auto simp: create_payment_checked [OF km refl] r from_payment_def
          split: sum.split option.split intro!: exI [of _ r] exI [of _ "created_row env ?p"])
  qed
qed

section \<open>Repeating a call\<close>

text \<open>The payment a successful call left under its key, and the DTO it returned.\<close>

definition same_dto :: "payment_dto \<Rightarrow> payment_dto \<Rightarrow> bool" where
  "same_dto x y \<longleftrightarrow> x = y\<lparr>pd_amount := pd_amount x\<rparr> \<and> dec_eq (pd_amount x) (pd_amount y)"

lemma money_ok_dec_eq: "money_ok m \<Longrightarrow> dec_eq (money_amount m) (money_amount m)"
  by (erule money_ok_cases) (simp add: dec_eq_iff_val del: dec_eq.simps)

lemma payment_to_domain_money_ok: "payment_to_domain r = Inr p \<Longrightarrow> money_ok (p_money p)"
  by (auto simp: payment_to_domain_def res_simps dest: mk_money_ok)

lemma from_stored_payment:
  assumes "payment_ok p"
    and "money_eq (stored_money (p_money p)) (p_money p)"
  shows "same_dto (from_payment (p\<lparr>p_money := stored_money (p_money p), p_events := es, p_attempts := as\<rparr>) None)
      (from_payment p None)"
proof -
  from assms(1) have "money_ok (p_money p)" by (simp add: payment_ok_def)
  then show ?thesis using assms(2)
    by (elim money_ok_cases) (simp add: same_dto_def from_payment_def del: dec_eq.simps)
qed

lemma create_payment_stored:
  assumes "create_payment env c d = (Inr dto, d1)"
  shows "\<exists>r p. row_by pr_idempotency_key (cc_idempotency_key c) (payments d1) = Some r \<and>
    payment_to_domain r = Inr p \<and> same_dto (from_payment p None) dto"
proof -
  from assms obtain k m where km: "command_values c = Inr (k, m)"
    by (cases "command_values c") (auto simp: create_payment_invalid)
  let ?p = "new_payment env c k m"
  from command_values_ok [OF km] have ok: "payment_ok ?p" and key: "key_value k = cc_idempotency_key c"
    by simp_all
  from assms obtain r where r: "payment_row_check (payment_values ?p) = Inr r"
    by (auto simp: create_payment_checked [OF km refl] split: sum.splits)
  note row = payment_row_check_Inr [OF ok r]
  show ?thesis
  proof (cases "row_by pr_idempotency_key (cc_idempotency_key c) (payments d)")
    case None
    from row key have "pr_idempotency_key r = cc_idempotency_key c"
      by (simp add: payment_values_def)
    moreover have "d1 = d\<lparr>payments := payments d @ [r],
        outbox_messages := outbox_messages d @ [created_row env ?p]\<rparr>" "dto = from_payment ?p None"
      using assms r None by (auto simp: create_payment_checked [OF km refl] split: sum.splits if_splits)
    ultimately show ?thesis using None row from_stored_payment [OF ok, of "[]" "[]"]
      by (auto simp: row_by_append)
  next
    case (Some q)
    with assms r obtain p where "payment_to_domain q = Inr p" "dto = from_payment p None" "d1 = d"
      by (auto simp: create_payment_checked [OF km refl] split: sum.splits)
    moreover then have "dec_eq (money_amount (p_money p)) (money_amount (p_money p))"
      by (intro money_ok_dec_eq payment_to_domain_money_ok)
    ultimately show ?thesis using Some by (auto simp: same_dto_def from_payment_def)
  qed
qed

lemma payment_row_check_again:
  assumes "payment_row_check (payment_values (new_payment env c k m)) = Inr r"
  shows "\<exists>r'. payment_row_check (payment_values (new_payment env' c k m)) = Inr r'"
  using assms
  by (auto simp: payment_row_check_def payment_values_def new_payment_def payment_create_def add_event_def
      res_simps split: if_splits option.splits)

text \<open>A call whose key has a row changes nothing and, if it returns, returns the payment of that row.\<close>

lemma create_payment_replay:
  assumes q: "row_by pr_idempotency_key (cc_idempotency_key c) (payments d) = Some q" "payment_to_domain q = Inr p"
    and run: "create_payment env c d = (res, d')"
  shows "d' = d \<and> (\<forall>dto. res = Inr dto \<longrightarrow> dto = from_payment p None)"
proof (cases "command_values c")
  case (Inl e)
  with run show ?thesis by (auto simp: create_payment_invalid)
next
  case (Inr km)
  then obtain k m where "command_values c = Inr (k, m)" by (cases km) auto
  from run q show ?thesis
    by (auto simp: create_payment_checked [OF \<open>command_values c = Inr (k, m)\<close> refl] split: sum.splits)
qed

text \<open>A command that returned once returns whenever its key has a row.\<close>

lemma create_payment_replay_returns:
  assumes first: "create_payment env c d = (Inr dto, d1)"
    and q: "row_by pr_idempotency_key (cc_idempotency_key c) (payments d2) = Some q" "payment_to_domain q = Inr p"
  shows "create_payment env' c d2 = (Inr (from_payment p None), d2)"
proof -
  from first obtain k m where km: "command_values c = Inr (k, m)"
    by (cases "command_values c") (auto simp: create_payment_invalid)
  from first obtain r where "payment_row_check (payment_values (new_payment env c k m)) = Inr r"
    by (auto simp: create_payment_checked [OF km refl] split: sum.splits)
  from payment_row_check_again [OF this] obtain r' where
    "payment_row_check (payment_values (new_payment env' c k m)) = Inr r'" ..
  with q show ?thesis by (simp add: create_payment_checked [OF km refl])
qed

text \<open>A command and a call for the witnesses.\<close>

definition demo_command :: create_command where
  "demo_command = \<lparr>cc_idempotency_key = ''order-1'', cc_amount = Finite 10 0, cc_currency = ''USD'',
     cc_description = None, cc_metadata = [], cc_webhook_url = ''https://m.example/hook'',
     cc_correlation_id = None\<rparr>"

definition demo_env :: create_env where
  "demo_env = \<lparr>ce_now = 100, ce_payment_id = 1, ce_fresh = (\<lambda>n. of_nat n + 10)\<rparr>"

lemma demo_values: "command_values demo_command = Inr (IdempotencyKey ''order-1'', Money (Finite 10 0) USD)"
  by (simp add: command_values_Inr demo_command_def mk_money_decimal mk_idempotency_key_def key_re_match_def
      key_max_length_def printable_def ndigits_def nat_str_step whole_cents_def)

definition demo_row :: payment_row where
  "demo_row = \<lparr>pr_id = 1, pr_idempotency_key = ''order-1'', pr_amount = Finite 1000 (-2),
     pr_currency = ''USD'', pr_description = None, pr_metadata = [], pr_status = ''pending'',
     pr_webhook_url = ''https://m.example/hook'', pr_correlation_id = None, pr_created_at = 100,
     pr_processed_at = None, pr_version = 0\<rparr>"

lemma demo_row_check:
  "payment_row_check (payment_values (new_payment demo_env demo_command (IdempotencyKey ''order-1'')
      (Money (Finite 10 0) USD))) = Inr demo_row"
  by (simp add: payment_row_check_def payment_values_def new_payment_def payment_create_def add_event_def
      demo_command_def demo_env_def demo_row_def json_dict_def int4_def varchar_def varchar_opt_def params_check_def
      cents_def http_url_def)

definition demo_db :: db where
  "demo_db = snd (create_payment demo_env demo_command empty_db)"

lemma demo_outbox_check:
  "outbox_row_check (empty_db\<lparr>payments := [demo_row]\<rparr>) (created_row demo_env
     (new_payment demo_env demo_command (IdempotencyKey ''order-1'') (Money (Finite 10 0) USD))) = Inr ()"
  by (simp add: outbox_row_check_def created_row_def outbox_row_of_def new_payment_def payment_create_def
      add_event_def demo_command_def demo_env_def empty_db_def json_dict_def int4_def varchar_def
      varchar_opt_def params_check_def serialize_event_def dict_set_def base_fields_def opt_str_def)

lemma demo_env_simps [simp]: "ce_payment_id demo_env = 1" "ce_now demo_env = 100"
  by (simp_all add: demo_env_def)

lemma empty_db_simps [simp]: "payments empty_db = []" "payment_attempts empty_db = []"
  "outbox_messages empty_db = []" "webhook_deliveries empty_db = []"
  by (simp_all add: empty_db_def)

lemma demo_create:
  "\<exists>dto. create_payment demo_env demo_command empty_db = (Inr dto, demo_db) \<and> pd_payment_id dto = 1 \<and>
     pd_created_at dto = 100 \<and> payments demo_db = [demo_row]"
  using demo_outbox_check
  by (simp add: demo_db_def create_payment_checked [OF demo_values refl] demo_row_check from_payment_def)

lemma demo_db_simps [simp]: "payments demo_db = [demo_row]" "payment_attempts demo_db = []"
  "webhook_deliveries demo_db = []"
  using demo_outbox_check
  by (simp_all add: demo_db_def create_payment_checked [OF demo_values refl] demo_row_check)

definition demo_payment :: payment where
  "demo_payment = \<lparr>p_id = 1, p_idempotency_key = IdempotencyKey ''order-1'',
     p_money = Money (Finite 1000 (-2)) USD, p_description = None, p_metadata = [],
     p_webhook_url = ''https://m.example/hook'', p_correlation_id = None, p_status = Pending,
     p_created_at = 100, p_processed_at = None, p_version = 0, p_events = [], p_attempts = []\<rparr>"

lemma demo_row_domain: "payment_to_domain demo_row = Inr demo_payment"
proof -
  have "mk_money (ADecimal (Finite 1000 (-2))) ''USD'' = Inr (Money (Finite 1000 (-2)) USD)"
    by (simp add: mk_money_decimal ndigits_def nat_str_step whole_cents_def)
  moreover have "mk_idempotency_key ''order-1'' = Inr (IdempotencyKey ''order-1'')"
    by (simp add: mk_idempotency_key_def key_re_match_def key_max_length_def printable_def)
  ultimately show ?thesis
    by (simp add: payment_to_domain_def demo_row_def demo_payment_def mk_payment_status_def)
qed

end
