(* ===== verification/GetPayment.thy ===== *)
theory GetPayment
  imports CreatePayment
begin

text \<open>\<open>application/handlers/get_payment.py\<close>: read one payment with its attempts.\<close>

definition get_payment_body :: "uuid \<Rightarrow> uow \<Rightarrow> exn + payment_dto \<times> uow" where
  "get_payment_body i =
     bind_act (repo (get_payment i)) (\<lambda>found.
       case found of
         None \<Rightarrow> raise_act (PaymentNotFound i)
       | Some p \<Rightarrow>
           bind_act (repo (get_by_payment_id i)) (\<lambda>as. return_act (from_payment p (Some as))))"

definition get_payment_handle :: "uuid \<Rightarrow> db \<Rightarrow> (exn + payment_dto) \<times> db" where
  "get_payment_handle i = transactional False (get_payment_body i)"

lemma get_payment_handle_eq:
  "get_payment_handle i d =
     (case row_by pr_id i (payments d) of
        None \<Rightarrow> (Inl (PaymentNotFound i), d)
      | Some r \<Rightarrow>
          (case payment_to_domain r of
             Inl e \<Rightarrow> (Inl e, d)
           | Inr p \<Rightarrow>
               (case mapM_res attempt_to_domain (attempts_of i d) of
                  Inl e \<Rightarrow> (Inl e, d)
                | Inr as \<Rightarrow> (Inr (from_payment p (Some as)), d))))"
  by (auto simp: get_payment_handle_def transactional_def2 get_payment_body_def bind_act_def repo_on
      get_payment_def map_row_def raise_act_def return_act_def get_by_payment_id_def split: option.split sum.split)

text \<open>
  Reading a payment never changes the tables; it raises \<open>PaymentNotFound\<close> exactly when
  no row has the identifier, and otherwise, for readable rows, returns the payment of the row with
  all its attempts, ordered by creation time and then by number.
\<close>

theorem get_payment_reads:
  assumes "\<forall>r \<in> set (payment_attempts d). attempt_row_ok r"
    and "\<forall>r \<in> set (payments d). is_ok (payment_to_domain r)"
  shows "snd (get_payment_handle i d) = d \<and>
    (case row_by pr_id i (payments d) of
       None \<Rightarrow> fst (get_payment_handle i d) = Inl (PaymentNotFound i)
     | Some r \<Rightarrow> \<exists>p as. payment_to_domain r = Inr p \<and>
         fst (get_payment_handle i d) = Inr (from_payment p (Some as)) \<and>
         map attempt_values as = attempts_of i d \<and>
         sorted_wrt (\<lambda>a b. (a_created_at a, a_number a) \<le> (a_created_at b, a_number b)) as)"
proof (cases "row_by pr_id i (payments d)")
  case None
  then show ?thesis by (simp add: get_payment_handle_eq)
next
  case (Some r)
  then have "r \<in> set (payments d)" by (auto dest: row_by_SomeD)
  with assms(2) obtain p where p: "payment_to_domain r = Inr p" by (auto simp: is_ok_iff)
  obtain as where as: "mapM_res attempt_to_domain (attempts_of i d) = Inr as"
    using get_by_payment_id_ok [of "open_session d" i] assms(1) by (auto simp: mapM_res_Inr)
  then have rows: "map attempt_values as = attempts_of i d"
    by (auto simp: mapM_res_Inr attempt_to_domain_Inr list_all2_conv_all_nth intro: nth_equalityI)
  have "sorted (map (\<lambda>r. (ar_created_at r, ar_attempt_number r)) (map attempt_values as))"
    unfolding rows attempts_of_def by simp
  then have "sorted_wrt (\<lambda>a b. (a_created_at a, a_number a) \<le> (a_created_at b, a_number b)) as"
    by (simp add: sorted_map attempt_values_def sorted_wrt_map)
  then show ?thesis using Some p as rows by (auto simp add: get_payment_handle_eq)
qed

theorem get_payment_reads_witness:
  "\<exists>p. fst (get_payment_handle 1 demo_db) = Inr (from_payment p (Some [])) \<and>
     fst (get_payment_handle 2 demo_db) = Inl (PaymentNotFound 2)"
proof -
  have hyp: "\<forall>r \<in> set (payment_attempts demo_db). attempt_row_ok r"
    "\<forall>r \<in> set (payments demo_db). is_ok (payment_to_domain r)"
    by (simp_all add: demo_row_domain)
  have "attempts_of 1 demo_db = []" "pr_id demo_row = 1" by (simp_all add: attempts_of_def demo_row_def)
  then show ?thesis
    using get_payment_reads [OF hyp, where i = 1] get_payment_reads [OF hyp, where i = 2] by auto
qed

end
