(* ===== verification/ProcessPayment.thy ===== *)
theory ProcessPayment
  imports CreatePayment
begin

text \<open>
  \<open>application/commands/process_payment.py\<close> and \<open>application/handlers/process_payment.py\<close>: the
  handler that takes a pending payment through the gateway to its final state.

  The gateway is the port \<open>PaymentGateway\<close> (\<open>domain/gateway.py\<close>): a parameter that raises or
  returns a result. Under READ COMMITTED every statement sees what is committed when it starts:
  \<open>seen\<close> is the state of the tables the first \<open>SELECT\<close> reads, the transaction works on the state
  \<open>d\<close> the guarded \<open>UPDATE\<close> finds. They differ by what other transactions commit in between; once
  the \<open>UPDATE\<close> has changed the row, its lock keeps others away until the commit.
\<close>

datatype outcome = OSucceeded | OFailed | OAlreadyTerminal | ONotFound | ONotPending | OClaimConflict

fun outcome_value :: "outcome \<Rightarrow> string" where
  "outcome_value OSucceeded = ''succeeded''"
| "outcome_value OFailed = ''failed''"
| "outcome_value OAlreadyTerminal = ''already_terminal''"
| "outcome_value ONotFound = ''not_found''"
| "outcome_value ONotPending = ''not_pending''"
| "outcome_value OClaimConflict = ''claim_conflict''"

record process_command =
  pc_payment_id :: uuid
  pc_correlation_id :: "string option"

record process_result =
  pres_outcome :: outcome
  pres_gateway_id :: "string option"

definition result_of :: "outcome \<Rightarrow> process_result" where
  "result_of out = \<lparr>pres_outcome = out, pres_gateway_id = None\<rparr>"

text \<open>What one call takes from the clock (before and after the charge) and from \<open>uuid7\<close>.\<close>

record process_env =
  pe_started :: datetime
  pe_finished :: datetime
  pe_attempt_id :: uuid
  pe_delivery_id :: uuid

type_synonym gateway = "uuid \<Rightarrow> money \<Rightarrow> string \<Rightarrow> exn + gateway_result"

definition or_else :: "string option \<Rightarrow> string option \<Rightarrow> string option" where
  "or_else a b = (case a of Some s \<Rightarrow> if s \<noteq> [] then a else b | None \<Rightarrow> b)"

section \<open>The handler\<close>

definition read_at :: "db \<Rightarrow> (session \<Rightarrow> exn + 'a \<times> session) \<Rightarrow> uow \<Rightarrow> exn + 'a \<times> uow" where
  "read_at seen f u =
     bind_res (session_provider u) (\<lambda>_. map_res (\<lambda>(a, _). (a, u)) (f (open_session seen)))"

text \<open>The branch on the result of the charge: attempt, aggregate and row move to the final state.\<close>

definition finalize ::
    "datetime \<Rightarrow> gateway_result \<Rightarrow> payment \<Rightarrow> uow \<Rightarrow> exn + (attempt \<times> bool \<times> string \<times> outcome) \<times> uow" where
  "finalize finished_at r p =
     (if gr_success r then
        bind_act (lift_act (succeed_attempt finished_at r p)) (\<lambda>(p1, a).
        bind_act (lift_act (mark_succeeded finished_at p1)) (\<lambda>p2.
        bind_act (repo (repo_mark_succeeded (p_id p2) (p_version p) (p_status p) finished_at)) (\<lambda>claimed.
          return_act (a, claimed, ''payment.succeeded'', OSucceeded))))
      else
        bind_act (lift_act (fail_attempt finished_at (gr_error r) p)) (\<lambda>(p1, a).
        bind_act (lift_act (mark_failed finished_at (gr_error r) p1)) (\<lambda>p2.
        bind_act (repo (repo_mark_failed (p_id p2) (p_version p) (p_status p) finished_at)) (\<lambda>claimed.
          return_act (a, claimed, ''payment.failed'', OFailed)))))"

text \<open>From the claim on: charge, finalize, record the attempt and stage the webhook delivery.\<close>

definition charge_and_finalize ::
    "process_env \<Rightarrow> gateway \<Rightarrow> process_command \<Rightarrow> payment \<Rightarrow> uow \<Rightarrow> exn + process_result \<times> uow" where
  "charge_and_finalize env gw c p =
     bind_act (repo (get_by_payment_id (p_id p))) (\<lambda>existing.
     bind_act (lift_act (begin_attempt (pe_attempt_id env) (pc_correlation_id c) (pe_started env)
                           (hydrate_attempts existing p))) (\<lambda>(p1, a).
     bind_act (repo_add (attempt_add a)) (\<lambda>_.
     bind_act (lift_act (gw (p_id p1) (p_money p1) (key_value (p_idempotency_key p1)))) (\<lambda>r.
     bind_act (finalize (pe_finished env) r p1) (\<lambda>(a1, claimed, event_type, out).
       if \<not> claimed then raise_act (RuntimeError (''Version conflict finalizing payment '' @ uuid_str (p_id p)))
       else
         bind_act (repo (attempt_update a1)) (\<lambda>_.
         bind_act (repo_add (delivery_add (delivery_create (pe_delivery_id env) (p_id p) event_type
                               (pc_correlation_id c) (pe_finished env)))) (\<lambda>_.
         return_act \<lparr>pres_outcome = out, pres_gateway_id = or_else (gr_gateway_id r) (gr_error r)\<rparr>)))))))"

definition process_body ::
    "process_env \<Rightarrow> gateway \<Rightarrow> db \<Rightarrow> process_command \<Rightarrow> uow \<Rightarrow> exn + process_result \<times> uow" where
  "process_body env gw seen c =
     bind_act (read_at seen (get_payment (pc_payment_id c))) (\<lambda>found.
       case found of
         None \<Rightarrow> return_act (result_of ONotFound)
       | Some p \<Rightarrow>
           if p_status p \<in> {Succeeded, Failed} then return_act (result_of OAlreadyTerminal)
           else if p_status p \<noteq> Pending then return_act (result_of ONotPending)
           else
             bind_act (lift_act (mark_processing (pe_started env) p)) (\<lambda>p1.
             bind_act (repo (begin_processing (p_id p1) (p_version p) (p_status p))) (\<lambda>claimed.
               if \<not> claimed then return_act (result_of OClaimConflict)
               else charge_and_finalize env gw c p1)))"

definition process_payment ::
    "process_env \<Rightarrow> gateway \<Rightarrow> db \<Rightarrow> process_command \<Rightarrow> db \<Rightarrow> (exn + process_result) \<times> db" where
  "process_payment env gw seen c = transactional True (process_body env gw seen c)"

section \<open>What a call does\<close>

definition fin_status :: "gateway_result \<Rightarrow> payment_status" where
  "fin_status r = (if gr_success r then Succeeded else Failed)"

definition fin_outcome :: "gateway_result \<Rightarrow> outcome" where
  "fin_outcome r = (if gr_success r then OSucceeded else OFailed)"

definition fin_event :: "gateway_result \<Rightarrow> string" where
  "fin_event r = (if gr_success r then ''payment.succeeded'' else ''payment.failed'')"

definition fin_attempt :: "gateway_result \<Rightarrow> datetime \<Rightarrow> attempt \<Rightarrow> attempt" where
  "fin_attempt r t a =
     (if gr_success r
      then a\<lparr>a_status := ASucceeded, a_gateway_response := gr_raw r, a_error := None, a_updated_at := t\<rparr>
      else a\<lparr>a_status := AFailed, a_error := gr_error r, a_updated_at := t\<rparr>)"

definition started_attempt :: "process_env \<Rightarrow> process_command \<Rightarrow> uuid \<Rightarrow> attempt list \<Rightarrow> attempt" where
  "started_attempt env c i existing =
     (attempt_create (pe_attempt_id env) i (next_attempt_number existing) (pc_correlation_id c)
        (pe_started env))\<lparr>a_status := AProcessing, a_updated_at := pe_started env\<rparr>"

definition staged_delivery :: "process_env \<Rightarrow> process_command \<Rightarrow> uuid \<Rightarrow> gateway_result \<Rightarrow> delivery" where
  "staged_delivery env c i r =
     delivery_create (pe_delivery_id env) i (fin_event r) (pc_correlation_id c) (pe_finished env)"

definition settle :: "payment_status \<Rightarrow> int \<Rightarrow> datetime \<Rightarrow> payment_row \<Rightarrow> payment_row" where
  "settle st n t r =
     r\<lparr>pr_status := payment_status_value st, pr_version := pr_version r + n, pr_processed_at := Some t\<rparr>"

definition settled :: "process_env \<Rightarrow> process_command \<Rightarrow> gateway_result \<Rightarrow> attempt \<Rightarrow> db \<Rightarrow> db" where
  "settled env c r a d =
     d\<lparr>payments := update_where (\<lambda>x. pr_id x = pc_payment_id c)
         (settle (fin_status r) 2 (pe_finished env)) (payments d),
       payment_attempts := payment_attempts d @ [attempt_values (fin_attempt r (pe_finished env) a)],
       webhook_deliveries := webhook_deliveries d @
         [delivery_to_model (staged_delivery env c (pc_payment_id c) r)]\<rparr>"

lemma finalize_eq:
  assumes "p_status p = Processing" "p_attempts p = as @ [a]" "a_status a = AProcessing"
  shows "finalize t r p =
    bind_act (repo (execute (\<lambda>d. Inr (update_payment (p_id p) (p_version p) Processing (settle (fin_status r) 1 t) d))))
      (\<lambda>claimed. return_act (fin_attempt r t a, claimed, fin_event r, fin_outcome r))"
proof (cases "gr_success r")
  case True
  have "succeed_attempt t r p = Inr (set_current (fin_attempt r t a) p, fin_attempt r t a)"
    using assms True by (simp add: succeed_attempt_Inr fin_attempt_def)
  moreover have "mark_succeeded t (set_current (fin_attempt r t a) p) = Inr q \<Longrightarrow> p_id q = p_id p" for q
    by (auto simp: mark_succeeded_Inr)
  moreover obtain q where "mark_succeeded t (set_current (fin_attempt r t a) p) = Inr q"
    using assms mark_succeeded_Inr [of t "set_current (fin_attempt r t a) p"] by auto
  ultimately show ?thesis using True assms(1)
    by (simp add: finalize_def bind_act_def [abs_def] lift_act_def repo_mark_succeeded_def mark_succeeded_db_def
        settle_def [abs_def] fin_status_def fin_event_def fin_outcome_def)
next
  case False
  have "fail_attempt t (gr_error r) p = Inr (set_current (fin_attempt r t a) p, fin_attempt r t a)"
    using assms False by (simp add: fail_attempt_Inr fin_attempt_def)
  moreover have "mark_failed t e (set_current (fin_attempt r t a) p) = Inr q \<Longrightarrow> p_id q = p_id p" for q e
    by (auto simp: mark_failed_Inr)
  moreover obtain q where "mark_failed t (gr_error r) (set_current (fin_attempt r t a) p) = Inr q"
    using assms mark_failed_Inr [of t "gr_error r" "set_current (fin_attempt r t a) p"] by auto
  ultimately show ?thesis using False assms(1)
    by (simp add: finalize_def bind_act_def [abs_def] lift_act_def repo_mark_failed_def mark_failed_db_def
        settle_def [abs_def] fin_status_def fin_event_def fin_outcome_def)
qed

lemma payment_to_domain_fields:
  "payment_to_domain r = Inr p \<Longrightarrow>
     p_id p = pr_id r \<and> pr_status r = payment_status_value (p_status p) \<and> p_version p = pr_version r \<and>
     key_value (p_idempotency_key p) = pr_idempotency_key r"
  by (auto simp: payment_to_domain_def res_simps mk_payment_status_Inr mk_idempotency_key_def
      split: if_splits)

lemma row_in_state:
  assumes "ids_unique d" "payment_state i d = Some (s, v)" "r \<in> set (payments d)" "pr_id r = i"
  shows "pr_status r = s" "pr_version r = v"
  using assms row_by_unique [of pr_id "payments d" r]
  by (auto simp: payment_state_def ids_unique_def)

lemma two_updates:
  assumes "ids_unique d" "payment_state i d = Some (''pending'', v)"
  shows "update_where (guarded i (v + 1) Processing) (settle st 1 t)
     (update_where (guarded i v Pending)
       (\<lambda>r. r\<lparr>pr_status := ''processing'', pr_version := pr_version r + 1\<rparr>) (payments d)) =
    update_where (\<lambda>r. pr_id r = i) (settle st 2 t) (payments d)"
proof -
  have "pr_status r = ''pending''" "pr_version r = v" if "r \<in> set (payments d)" "pr_id r = i" for r
    using row_in_state [OF assms that] by simp_all
  then show ?thesis by (auto simp: update_where_def guarded_def settle_def)
qed

lemma attempt_row_check_payments:
  "(\<And>r. pr_id (f r) = pr_id r) \<Longrightarrow>
   attempt_row_check (d\<lparr>payments := update_where P f (payments d)\<rparr>) r = attempt_row_check d r"
  by (simp add: attempt_row_check_def row_by_update_where)

lemma delivery_row_check_payments:
  "(\<And>r. pr_id (f r) = pr_id r) \<Longrightarrow>
   delivery_row_check (d\<lparr>payments := update_where P f (payments d), payment_attempts := as\<rparr>) r =
     delivery_row_check d r"
  by (simp add: delivery_row_check_def row_by_update_where)

lemma attempt_row_check_fresh: "attempt_row_check d r = Inr u \<Longrightarrow> row_by ar_id (ar_id r) (payment_attempts d) = None"
  by (auto simp: attempt_row_check_def res_simps split: if_splits)

lemma update_appended:
  assumes "row_by ar_id (ar_id r) t = None"
  shows "update_where (\<lambda>x. ar_id x = ar_id r) f (t @ [r]) = t @ [f r]"
  using assms by (auto simp: row_by_None_iff update_where_none)

text \<open>The work after a successful claim, as one expression over the tables.\<close>

definition charged :: "process_env \<Rightarrow> gateway \<Rightarrow> process_command \<Rightarrow> payment \<Rightarrow> db \<Rightarrow> (exn + process_result) \<times> db" where
  "charged env gw c p d =
     (case mapM_res attempt_to_domain (attempts_of (pc_payment_id c) d) of
        Inl e \<Rightarrow> (Inl e, d)
      | Inr existing \<Rightarrow>
        (case gw (pc_payment_id c) (p_money p) (key_value (p_idempotency_key p)) of
           Inl e \<Rightarrow> (Inl e, d)
         | Inr r \<Rightarrow>
           let a = started_attempt env c (pc_payment_id c) existing; a1 = fin_attempt r (pe_finished env) a
           in case attempt_row_check d (attempt_values a) of
                Inl e \<Rightarrow> (Inl e, d)
              | Inr _ \<Rightarrow>
                (case params_check (a_gateway_response a1) [a_error a1] of
                   Inl e \<Rightarrow> (Inl e, d)
                 | Inr _ \<Rightarrow>
                   (case delivery_row_check d (delivery_to_model (staged_delivery env c (pc_payment_id c) r)) of
                      Inl e \<Rightarrow> (Inl e, d)
                    | Inr _ \<Rightarrow>
                        (Inr \<lparr>pres_outcome = fin_outcome r,
                              pres_gateway_id = or_else (gr_gateway_id r) (gr_error r)\<rparr>,
                         settled env c r a d)))))"

lemma attempts_of_payments [simp]: "attempts_of i (d\<lparr>payments := ps\<rparr>) = attempts_of i d"
  by (simp add: attempts_of_def)

lemma hydrate_simps [simp]:
  "p_id (hydrate_attempts as p) = p_id p" "p_money (hydrate_attempts as p) = p_money p"
  "p_idempotency_key (hydrate_attempts as p) = p_idempotency_key p"
  by (simp_all add: hydrate_attempts_def)

lemma charge_and_finalize_eq:
  assumes d: "ids_unique d" "payment_state i d = Some (''pending'', v)"
    and d1: "d1 = snd (begin_processing_db i v Pending d)"
    and p: "p_id p = i" "p_status p = Processing" "p_version p = v + 1"
    and c: "i = pc_payment_id c"
  shows "(case charge_and_finalize env gw c p (on (open_session d1)) of
       Inl e \<Rightarrow> (Inl e, d)
     | Inr (a, u) \<Rightarrow>
         case u_session u of None \<Rightarrow> (Inl not_started, d)
         | Some s \<Rightarrow> (case flush s of Inl e \<Rightarrow> (Inl e, d) | Inr s' \<Rightarrow> (Inr a, s_db s'))) =
    charged env gw c p d"
proof (cases "mapM_res attempt_to_domain (attempts_of i d)")
  case (Inl e)
  then show ?thesis using c
    by (simp add: charge_and_finalize_def charged_def bind_act_def repo_on get_by_payment_id_def d1 p
        begin_processing_db_def update_payment_def)
next
  case (Inr existing)
  let ?f1 = "\<lambda>r. r\<lparr>pr_status := ''processing'', pr_version := pr_version r + 1\<rparr>"
  define ps where "ps = update_where (guarded i v Pending) ?f1 (payments d)"
  have d1': "d1 = d\<lparr>payments := ps\<rparr>"
    by (simp add: d1 begin_processing_db_def update_payment_def ps_def)
  define a where "a = started_attempt env c i existing"
  have begun: "begin_attempt (pe_attempt_id env) (pc_correlation_id c) (pe_started env) (hydrate_attempts existing p) =
      Inr ((hydrate_attempts existing p)\<lparr>p_attempts := existing @ [a]\<rparr>, a)"
    using p by (simp add: begin_attempt_Inr hydrate_attempts_def a_def started_attempt_def)
  have a: "a_status a = AProcessing" "a_id a = pe_attempt_id env"
    by (simp_all add: a_def started_attempt_def attempt_create_def)
  have ids1: "ids_unique d1" and st1: "payment_state i d1 = Some (''processing'', v + 1)"
    using gu_begin.upd_ok [OF d(1), of i v Pending] gu_begin.upd_state [OF d(1), of i v Pending] d
    by (simp_all add: d1 gu_begin.upd_wins)
  have fin: "finalize (pe_finished env) r ((hydrate_attempts existing p)\<lparr>p_attempts := existing @ [a]\<rparr>) =
    bind_act (repo (execute (\<lambda>d. Inr (update_payment i (v + 1) Processing (settle (fin_status r) 1 (pe_finished env)) d))))
      (\<lambda>claimed. return_act (fin_attempt r (pe_finished env) a, claimed, fin_event r, fin_outcome r))" for r
    using finalize_eq [of "(hydrate_attempts existing p)\<lparr>p_attempts := existing @ [a]\<rparr>" existing a] p a
    by (simp add: hydrate_attempts_def)
  have chk1: "attempt_row_check d1 x = attempt_row_check d x" for x
    unfolding d1' ps_def by (rule attempt_row_check_payments) simp
  have upd: "update_payment i (v + 1) Processing (settle (fin_status r) 1 t) (d1\<lparr>payment_attempts := as\<rparr>) =
      (True, d\<lparr>payments := update_where (\<lambda>x. pr_id x = i) (settle (fin_status r) 2 t) (payments d),
               payment_attempts := as\<rparr>)" for r t as
  proof -
    have "rowcount (guarded i (v + 1) Processing) ps = 1"
      using guarded_rowcount [OF ids1, of i "v + 1" Processing] st1 by (simp add: d1')
    then show ?thesis
      by (simp add: update_payment_def d1' ps_def two_updates [OF d])
  qed
  have dchk: "delivery_row_check (d\<lparr>payments := update_where P (settle st 2 t) (payments d), payment_attempts := as\<rparr>) x =
      delivery_row_check d x" for P st t as x
    by (rule delivery_row_check_payments) (simp add: settle_def)
  let ?gw = "gw i (p_money p) (key_value (p_idempotency_key p))"
  note step = charge_and_finalize_def charged_def bind_act_def repo_on get_by_payment_id_def d1' lift_act_def
    begun p Inr c [symmetric]
  show ?thesis
  proof (cases ?gw)
    case (Inl e)
    then show ?thesis by (simp add: step)
  next
    case gw: (Inr r)
    define a1 where "a1 = fin_attempt r (pe_finished env) a"
    have a1: "attempt_set a1 (attempt_values a) = attempt_values a1" "a_id a1 = a_id a"
      by (simp_all add: attempt_set_values a1_def fin_attempt_def)
    have fresh: "update_where (\<lambda>x. ar_id x = a_id a1) (attempt_set a1) (payment_attempts d @ [attempt_values a]) =
        payment_attempts d @ [attempt_values a1]" if "attempt_row_check d (attempt_values a) = Inr ()"
      using update_appended [OF attempt_row_check_fresh [OF that], of "attempt_set a1"] a1
      by (simp add: attempt_values_def)
    show ?thesis
    proof (cases "attempt_row_check d (attempt_values a)")
      case (Inl e)
      then show ?thesis using gw chk1 [unfolded d1']
        by (simp add: step fin attempt_add_def session_add_def execute_def flush_def a_def [symmetric] Let_def)
    next
      case chk: (Inr u)
      then show ?thesis using gw chk1 [unfolded d1'] upd [unfolded d1'] fresh dchk
        by (simp add: step fin attempt_add_def session_add_def execute_def flush_def a_def [symmetric] Let_def
            return_act_def raise_act_def attempt_update_def a1_def [symmetric] open_session_def
            delivery_add_def staged_delivery_def settled_def split: sum.split)
    qed
  qed
qed

lemma read_at_on: "read_at seen f (on s) = map_res (\<lambda>(a, _). (a, on s)) (f (open_session seen))"
  by (simp add: read_at_def session_provider_def)

text \<open>The handler, as an expression over the two states of the tables.\<close>

lemma process_payment_eq:
  assumes "ids_unique d"
  shows "process_payment env gw seen c d =
    (case row_by pr_id (pc_payment_id c) (payments seen) of
       None \<Rightarrow> (Inr (result_of ONotFound), d)
     | Some rs \<Rightarrow>
       (case payment_to_domain rs of
          Inl e \<Rightarrow> (Inl e, d)
        | Inr p \<Rightarrow>
            if p_status p \<in> {Succeeded, Failed} then (Inr (result_of OAlreadyTerminal), d)
            else if p_status p \<noteq> Pending then (Inr (result_of ONotPending), d)
            else if payment_state (pc_payment_id c) d = Some (''pending'', p_version p)
              then charged env gw c p d
            else (Inr (result_of OClaimConflict), d)))"
proof (cases "row_by pr_id (pc_payment_id c) (payments seen)")
  case None
  then show ?thesis
    by (simp add: process_payment_def transactional_commit process_body_def bind_act_def read_at_on
        get_payment_def map_row_def return_act_def)
next
  case row: (Some rs)
  note start = process_payment_def transactional_commit process_body_def bind_act_def read_at_on
    get_payment_def map_row_def return_act_def row lift_act_def repo_on
  show ?thesis
  proof (cases "payment_to_domain rs")
    case (Inl e)
    then show ?thesis by (simp add: start)
  next
    case dom: (Inr p)
    show ?thesis
    proof (cases "p_status p = Pending")
      case False
      then show ?thesis by (auto simp: start dom)
    next
      case True
      let ?i = "pc_payment_id c" and ?v = "p_version p"
      define p1 where "p1 = p\<lparr>p_status := Processing, p_version := p_version p + 1,
        p_events := p_events p @ [PaymentProcessingStarted (base_at (pe_started env) p)]\<rparr>"
      have mp: "mark_processing (pe_started env) p = Inr p1"
        using True by (simp add: mark_processing_Inr p1_def)
      have id: "p_id p = ?i" using payment_to_domain_fields [OF dom] row_by_SomeD [OF row] by simp
      have p1: "p_id p1 = ?i" "p_status p1 = Processing" "p_version p1 = ?v + 1"
        "p_money p1 = p_money p" "p_idempotency_key p1 = p_idempotency_key p"
        by (simp_all add: p1_def id)
      define d1 where "d1 = snd (begin_processing_db ?i ?v Pending d)"
      define won where "won \<longleftrightarrow> payment_state ?i d = Some (''pending'', ?v)"
      have upd: "begin_processing_db ?i ?v Pending d = (won, d1)"
        using gu_begin.upd_wins [OF assms, of ?i ?v Pending] by (simp add: d1_def won_def prod_eq_iff)
      show ?thesis
      proof (cases won)
        case False
        then have "d1 = d" using gu_begin.upd_loses [OF assms, of ?i ?v Pending] upd by simp
        with False show ?thesis using upd True
          by (simp add: start dom mp p1 begin_processing_def won_def)
      next
        case w: True
        then have st: "payment_state ?i d = Some (''pending'', ?v)" by (simp add: won_def)
        have "charged env gw c p1 d = charged env gw c p d" by (simp only: charged_def p1)
        with charge_and_finalize_eq [OF assms st d1_def p1(1-3) refl, of env gw] show ?thesis
          using upd True w st by (simp add: start dom mp p1 begin_processing_def)
      qed
    qed
  qed
qed

section \<open>Properties\<close>

lemma charged_cases:
  "charged env gw c p d = (res, d') \<Longrightarrow>
     (\<exists>e. res = Inl e \<and> d' = d) \<or>
     (\<exists>existing r. mapM_res attempt_to_domain (attempts_of (pc_payment_id c) d) = Inr existing \<and>
        gw (pc_payment_id c) (p_money p) (key_value (p_idempotency_key p)) = Inr r \<and>
        attempt_row_check d (attempt_values (started_attempt env c (pc_payment_id c) existing)) = Inr () \<and>
        params_check (a_gateway_response (fin_attempt r (pe_finished env) (started_attempt env c (pc_payment_id c) existing)))
          [a_error (fin_attempt r (pe_finished env) (started_attempt env c (pc_payment_id c) existing))] = Inr () \<and>
        delivery_row_check d (delivery_to_model (staged_delivery env c (pc_payment_id c) r)) = Inr () \<and>
        res = Inr \<lparr>pres_outcome = fin_outcome r, pres_gateway_id = or_else (gr_gateway_id r) (gr_error r)\<rparr> \<and>
        d' = settled env c r (started_attempt env c (pc_payment_id c) existing) d)"
  by (auto simp: charged_def Let_def split: sum.splits if_splits)

lemma fin_outcome_simps [simp]: "fin_outcome r \<in> {OSucceeded, OFailed}"
  "outcome_value (fin_outcome r) = payment_status_value (fin_status r)"
  by (simp_all add: fin_outcome_def fin_status_def)

lemma process_payment_terminal:
  assumes ids: "ids_unique d" and run: "process_payment env gw seen c d = (Inr res, d')"
    and out: "pres_outcome res \<in> {OSucceeded, OFailed}"
  obtains rs p existing r where
    "row_by pr_id (pc_payment_id c) (payments seen) = Some rs" "payment_to_domain rs = Inr p"
    "payment_state (pc_payment_id c) d = Some (''pending'', p_version p)"
    "mapM_res attempt_to_domain (attempts_of (pc_payment_id c) d) = Inr existing"
    "gw (pc_payment_id c) (p_money p) (key_value (p_idempotency_key p)) = Inr r"
    "attempt_row_check d (attempt_values (started_attempt env c (pc_payment_id c) existing)) = Inr ()"
    "delivery_row_check d (delivery_to_model (staged_delivery env c (pc_payment_id c) r)) = Inr ()"
    "pres_outcome res = fin_outcome r"
    "d' = settled env c r (started_attempt env c (pc_payment_id c) existing) d"
proof -
  from run out obtain rs p where "row_by pr_id (pc_payment_id c) (payments seen) = Some rs"
    "payment_to_domain rs = Inr p" "payment_state (pc_payment_id c) d = Some (''pending'', p_version p)"
    "charged env gw c p d = (Inr res, d')"
    by (auto simp: process_payment_eq [OF ids] result_of_def split: option.splits sum.splits if_splits)
  then show thesis using charged_cases [of env gw c p d "Inr res" d'] that by auto
qed

lemma process_payment_no_effect:
  assumes ids: "ids_unique d" and run: "process_payment env gw seen c d = (res, d')"
    and out: "\<And>r. res = Inr r \<Longrightarrow> pres_outcome r \<notin> {OSucceeded, OFailed}"
  shows "d' = d"
proof -
  have "\<exists>e. res = Inl e \<and> d' = d" if "charged env gw c p d = (res, d')" for p
    using charged_cases [OF that] out by (auto simp: fin_outcome_def split: if_splits)
  then show ?thesis
    using run by (auto simp: process_payment_eq [OF ids] split: option.splits sum.splits if_splits)
qed

lemma mapM_attempts: "mapM_res attempt_to_domain rs = Inr as \<longleftrightarrow> rs = map attempt_values as"
proof
  assume "mapM_res attempt_to_domain rs = Inr as"
  then have "list_all2 (\<lambda>r a. r = attempt_values a) rs as" by (simp add: mapM_res_Inr attempt_to_domain_Inr)
  then show "rs = map attempt_values as" by (induction rule: list_all2_induct) auto
next
  assume "rs = map attempt_values as"
  then show "mapM_res attempt_to_domain rs = Inr as" by (simp add: mapM_res_Inr list_all2_conv_all_nth)
qed

lemma settled_state:
  assumes "payment_state (pc_payment_id c) d = Some (s, v)"
  shows "payment_state (pc_payment_id c) (settled env c r a d) =
    Some (payment_status_value (fin_status r), v + 2)"
proof -
  from assms obtain x where x: "row_by pr_id (pc_payment_id c) (payments d) = Some x" "pr_version x = v"
    by (auto simp: payment_state_def)
  with row_by_SomeD [OF x(1)] show ?thesis
    by (simp add: payment_state_def settled_def row_by_update_where settle_def)
qed

lemma settled_other: "j \<noteq> pc_payment_id c \<Longrightarrow> payment_state j (settled env c r a d) = payment_state j d"
  using row_by_SomeD [of pr_id j "payments d"]
  by (cases "row_by pr_id j (payments d)")
    (auto simp: payment_state_def settled_def row_by_update_where settle_def)

text \<open>
  Property C7. Processing a payment is all or nothing. A call that raises, and one that reports
  that the payment is unknown, final, not pending or taken by another consumer, changes nothing.
  A call that reports \<open>succeeded\<close> or \<open>failed\<close> found the payment pending; it moved exactly that payment
  to that status, with its version raised by 2 and \<open>processed_at\<close> set to the time after the charge
  and every other column kept, appended exactly one attempt of that status, numbered above every
  earlier attempt of the payment, and exactly one pending webhook delivery of the matching event
  type, and touched nothing else: every other row of every table is as it was.
\<close>

theorem process_payment_effect:
  assumes "ids_unique d"
  shows "case process_payment env gw seen c d of
      (Inl e, d') \<Rightarrow> d' = d
    | (Inr res, d') \<Rightarrow>
        (if pres_outcome res \<in> {OSucceeded, OFailed} then
           \<exists>v a w. payment_state (pc_payment_id c) d = Some (''pending'', v) \<and>
             d' = d\<lparr>payments := update_where (\<lambda>r. pr_id r = pc_payment_id c)
                      (\<lambda>r. r\<lparr>pr_status := outcome_value (pres_outcome res), pr_version := pr_version r + 2,
                             pr_processed_at := Some (pe_finished env)\<rparr>) (payments d),
                    payment_attempts := payment_attempts d @ [a],
                    webhook_deliveries := webhook_deliveries d @ [w]\<rparr> \<and>
             payment_state (pc_payment_id c) d' = Some (outcome_value (pres_outcome res), v + 2) \<and>
             ar_id a = pe_attempt_id env \<and> ar_payment_id a = pc_payment_id c \<and>
             ar_status a = outcome_value (pres_outcome res) \<and>
             (\<forall>b \<in> set (payment_attempts d). ar_payment_id b = pc_payment_id c \<longrightarrow>
                ar_attempt_number b < ar_attempt_number a) \<and>
             wr_id w = pe_delivery_id env \<and> wr_payment_id w = pc_payment_id c \<and>
             wr_status w = ''pending'' \<and> wr_attempt w = 1 \<and>
             wr_event_type w = ''payment.'' @ outcome_value (pres_outcome res)
         else d' = d)"
proof -
  obtain res d' where run: "process_payment env gw seen c d = (res, d')" by (metis surj_pair)
  show ?thesis
  proof (cases res)
    case (Inl e)
    with process_payment_no_effect [OF assms run] run show ?thesis by simp
  next
    case res: (Inr r)
    show ?thesis
    proof (cases "pres_outcome r \<in> {OSucceeded, OFailed}")
      case False
      with process_payment_no_effect [OF assms run] run res show ?thesis by simp
    next
      case True
      obtain v existing g where
        st: "payment_state (pc_payment_id c) d = Some (''pending'', v)"
        and ex: "mapM_res attempt_to_domain (attempts_of (pc_payment_id c) d) = Inr existing"
        and out: "pres_outcome r = fin_outcome g"
        and d': "d' = settled env c g (started_attempt env c (pc_payment_id c) existing) d"
        by (rule process_payment_terminal [OF assms run [unfolded res] True]) (rule that)
      define a where "a = attempt_values (fin_attempt g (pe_finished env)
          (started_attempt env c (pc_payment_id c) existing))"
      define w where "w = delivery_to_model (staged_delivery env c (pc_payment_id c) g)"
      have num: "ar_attempt_number a = next_attempt_number existing"
        and a: "ar_id a = pe_attempt_id env" "ar_payment_id a = pc_payment_id c" "ar_status a = outcome_value (pres_outcome r)"
        by (simp_all add: a_def out attempt_values_def fin_attempt_def started_attempt_def attempt_create_def
            fin_status_def)
      have "ar_attempt_number b < ar_attempt_number a"
        if "b \<in> set (payment_attempts d)" "ar_payment_id b = pc_payment_id c" for b
      proof -
        from that have "b \<in> set (map attempt_values existing)"
          using attempts_of_set [of "pc_payment_id c" d] ex by (simp only: mapM_attempts) simp
        then obtain x where "x \<in> set existing" "b = attempt_values x" by auto
        with next_attempt_number_gt [of x existing] num show ?thesis by (simp add: attempt_values_def)
      qed
      moreover have "wr_id w = pe_delivery_id env" "wr_payment_id w = pc_payment_id c" "wr_status w = ''pending''" "wr_attempt w = 1"
        "wr_event_type w = ''payment.'' @ outcome_value (pres_outcome r)"
        by (simp_all add: w_def out delivery_to_model_def staged_delivery_def delivery_create_def fin_event_def
            fin_status_def)
      moreover have "d' = d\<lparr>payments := update_where (\<lambda>r. pr_id r = pc_payment_id c)
            (\<lambda>r. r\<lparr>pr_status := outcome_value (pres_outcome r'), pr_version := pr_version r + 2,
                   pr_processed_at := Some (pe_finished env)\<rparr>) (payments d),
          payment_attempts := payment_attempts d @ [a], webhook_deliveries := webhook_deliveries d @ [w]\<rparr>"
        if "r' = r" for r' using that by (simp add: d' settled_def a_def w_def settle_def [abs_def] out)
      note this [OF refl]
      moreover have "payment_state (pc_payment_id c) d' = Some (outcome_value (pres_outcome r), v + 2)"
        by (simp add: d' out settled_state [OF st])
      ultimately show ?thesis using st a True
        by (simp only: run res prod.case sum.case if_True) blast
    qed
  qed
qed

section \<open>A concrete call\<close>

definition demo_process_env :: process_env where
  "demo_process_env = \<lparr>pe_started = 200, pe_finished = 300, pe_attempt_id = 21, pe_delivery_id = 31\<rparr>"

definition demo_process_command :: process_command where
  "demo_process_command = \<lparr>pc_payment_id = 1, pc_correlation_id = None\<rparr>"

definition demo_gateway :: gateway where
  "demo_gateway i m k =
     Inr \<lparr>gr_success = True, gr_gateway_id = Some ''gw-1'', gr_error = None, gr_raw = None\<rparr>"

lemma demo_process_facts:
  "ids_unique demo_db" "payment_state 1 demo_db = Some (''pending'', 0)" "attempts_of 1 demo_db = []"
  "row_by pr_id 1 (payments demo_db) = Some demo_row" "pc_payment_id demo_process_command = 1"
  "p_status demo_payment = Pending" "p_version demo_payment = 0"
  by (simp_all add: ids_unique_def unique_key_def payment_state_def attempts_of_def demo_row_def
      demo_process_command_def demo_payment_def)

lemma demo_processed:
  "\<exists>d'. process_payment demo_process_env demo_gateway demo_db demo_process_command demo_db =
     (Inr \<lparr>pres_outcome = OSucceeded, pres_gateway_id = Some ''gw-1''\<rparr>, d')"
proof -
  have "attempt_row_check demo_db (attempt_values (started_attempt demo_process_env demo_process_command 1 [])) = Inr ()"
    by (simp add: attempt_row_check_def attempt_values_def started_attempt_def attempt_create_def
        demo_process_command_def demo_process_env_def int4_def varchar_def varchar_opt_def params_check_def demo_row_def)
  moreover have "delivery_row_check demo_db (delivery_to_model (staged_delivery demo_process_env demo_process_command 1 r)) =
      Inr ()" for r
    by (simp add: delivery_row_check_def delivery_to_model_def staged_delivery_def delivery_create_def fin_event_def
        demo_process_command_def demo_process_env_def int4_def varchar_def varchar_opt_def params_check_def demo_row_def)
  ultimately show ?thesis
    using demo_process_facts
    by (simp add: process_payment_eq demo_row_domain charged_def demo_gateway_def Let_def fin_attempt_def params_check_def
        started_attempt_def attempt_create_def fin_outcome_def or_else_def)
qed

theorem process_payment_effect_witness:
  "\<exists>d'. process_payment demo_process_env demo_gateway demo_db demo_process_command demo_db =
     (Inr \<lparr>pres_outcome = OSucceeded, pres_gateway_id = Some ''gw-1''\<rparr>, d') \<and>
     payment_state 1 d' = Some (''succeeded'', 2) \<and> map pr_amount (payments d') = map pr_amount (payments demo_db) \<and>
     (\<exists>a. payment_attempts d' = [a] \<and> ar_status a = ''succeeded'') \<and>
     (\<exists>w. webhook_deliveries d' = [w] \<and> wr_event_type w = ''payment.succeeded'')"
proof -
  obtain d' where "process_payment demo_process_env demo_gateway demo_db demo_process_command demo_db =
     (Inr \<lparr>pres_outcome = OSucceeded, pres_gateway_id = Some ''gw-1''\<rparr>, d')" using demo_processed by blast
  with process_payment_effect [OF demo_process_facts(1), where env = demo_process_env and gw = demo_gateway and seen = demo_db and c = demo_process_command]
  show ?thesis using demo_process_facts by auto
qed

text \<open>
  Property C8. One winner: once a call has taken a payment to its final state, no later call for
  it, however old the state its first \<open>SELECT\<close> read, charges it again: it changes nothing, does
  not report success or failure, and does what it does whatever the gateway would answer.
\<close>

theorem process_payment_one_winner:
  assumes "ids_unique d" and first: "process_payment env gw seen c d = (Inr res, d1)"
    and "pres_outcome res \<in> {OSucceeded, OFailed}" and "pc_payment_id c' = pc_payment_id c"
    and second: "process_payment env' gw' seen' c' d1 = (res', d2)"
  shows "d2 = d1 \<and> (\<forall>r. res' = Inr r \<longrightarrow> pres_outcome r \<notin> {OSucceeded, OFailed}) \<and>
    (\<forall>gw''. process_payment env' gw'' seen' c' d1 = (res', d2))"
proof -
  obtain v g existing where st: "payment_state (pc_payment_id c) d = Some (''pending'', v)"
    and d1: "d1 = settled env c g (started_attempt env c (pc_payment_id c) existing) d"
    by (rule process_payment_terminal [OF assms(1) first assms(3)]) (rule that)
  have ids: "ids_unique d1" using assms(1)
    by (simp add: d1 settled_def ids_unique_def unique_key_update_where settle_def)
  have "payment_state (pc_payment_id c') d1 = Some (payment_status_value (fin_status g), v + 2)"
    unfolding d1 assms(4) by (rule settled_state [OF st])
  then have no: "payment_state (pc_payment_id c') d1 \<noteq> Some (''pending'', w)" for w
    by (auto simp: fin_status_def)
  have same: "process_payment env' gw'' seen' c' d1 = process_payment env' gw' seen' c' d1" for gw''
    by (auto simp: process_payment_eq [OF ids] no split: option.split sum.split)
  have "pres_outcome r \<notin> {OSucceeded, OFailed}" if "res' = Inr r" for r
    using second that no
    by (auto simp: process_payment_eq [OF ids] result_of_def split: option.splits sum.splits if_splits)
  with same second process_payment_no_effect [OF ids second] show ?thesis by auto
qed

theorem process_payment_one_winner_witness:
  "\<exists>d1. fst (process_payment demo_process_env demo_gateway demo_db demo_process_command demo_db) =
       Inr \<lparr>pres_outcome = OSucceeded, pres_gateway_id = Some ''gw-1''\<rparr> \<and>
     snd (process_payment demo_process_env demo_gateway demo_db demo_process_command demo_db) = d1 \<and>
     snd (process_payment (demo_process_env\<lparr>pe_attempt_id := 22\<rparr>) demo_gateway demo_db demo_process_command d1) = d1"
proof -
  obtain d1 where run: "process_payment demo_process_env demo_gateway demo_db demo_process_command demo_db =
     (Inr \<lparr>pres_outcome = OSucceeded, pres_gateway_id = Some ''gw-1''\<rparr>, d1)" using demo_processed by blast
  obtain res d2 where run2: "process_payment (demo_process_env\<lparr>pe_attempt_id := 22\<rparr>) demo_gateway demo_db
      demo_process_command d1 = (res, d2)" by (metis surj_pair)
  have out: "pres_outcome \<lparr>pres_outcome = OSucceeded, pres_gateway_id = Some ''gw-1''\<rparr> \<in> {OSucceeded, OFailed}"
    by simp
  from process_payment_one_winner [OF demo_process_facts(1) run out refl run2] run run2 show ?thesis by auto
qed

text \<open>
  A gateway that raises leaves no trace: for a readable pending payment the
  exception reaches the caller and the tables are as before, so neither the attempt nor its
  error is recorded, although the port's contract lets \<open>charge\<close> raise for exactly that purpose.
\<close>

theorem gateway_exception_unrecorded:
  assumes "ids_unique d" and "row_by pr_id (pc_payment_id c) (payments d) = Some r"
    and "payment_to_domain r = Inr p" and "p_status p = Pending"
    and "\<forall>a \<in> set (payment_attempts d). attempt_row_ok a"
    and "gw (pc_payment_id c) (p_money p) (key_value (p_idempotency_key p)) = Inl e"
  shows "process_payment env gw d c d = (Inl e, d)"
proof -
  have "payment_state (pc_payment_id c) d = Some (''pending'', p_version p)"
    using assms payment_to_domain_fields [OF assms(3)] by (simp add: payment_state_def)
  moreover obtain as where "mapM_res attempt_to_domain (attempts_of (pc_payment_id c) d) = Inr as"
  proof -
    have "\<forall>x \<in> set (attempts_of (pc_payment_id c) d). \<exists>a. attempt_to_domain x = Inr a"
      using assms(5) by (auto simp: attempts_of_set intro: attempt_row_ok_to_domain)
    then obtain h where "\<And>x. x \<in> set (attempts_of (pc_payment_id c) d) \<Longrightarrow> attempt_to_domain x = Inr (h x)"
      by metis
    then have "mapM_res attempt_to_domain (attempts_of (pc_payment_id c) d) = Inr (map h (attempts_of (pc_payment_id c) d))"
      by (rule mapM_res_total)
    with that show thesis by blast
  qed
  ultimately show ?thesis using assms by (simp add: process_payment_eq charged_def)
qed

theorem gateway_exception_unrecorded_witness:
  "process_payment demo_process_env (\<lambda>_ _ _. Inl (External ''timeout'')) demo_db demo_process_command demo_db =
     (Inl (External ''timeout''), demo_db)"
  by (rule gateway_exception_unrecorded [where r = demo_row and p = demo_payment])
    (simp_all add: demo_process_facts demo_row_domain del: demo_db_simps(1))

end
