(* ===== verification/DeliverWebhooks.thy ===== *)
theory DeliverWebhooks
  imports CreatePayment
begin

text \<open>
  \<open>domain/webhook_sender.py\<close> and \<open>application/handlers/deliver_webhooks.py\<close>: claim the due
  deliveries, send them, and record every result under the retry policy, in one transaction.

  The sender is a parameter that raises or returns a result. \<open>asyncio.gather\<close> runs the sends
  together and raises the first exception any of them raises; of several, the model reports the
  first in the order of the batch. A semaphore of zero permits, with which the call would wait for
  ever, is outside the model.
\<close>

record send_result =
  ws_ok :: bool
  ws_status_code :: "int option"
  ws_body :: "string option"

record batch_result =
  br_processed :: nat
  br_failures :: nat

type_synonym sender = "payment \<Rightarrow> delivery \<Rightarrow> exn + send_result"

text \<open>The handler object, and what one call sees: the clock's readings and the rows others lock.\<close>

record deliver_env =
  dl_sender :: sender
  dl_batch_size :: int
  dl_policy :: retry_policy
  dl_concurrency :: int
  dl_clock :: "nat \<Rightarrow> datetime"
  dl_locked :: "uuid \<Rightarrow> bool"

fun load_payments :: "delivery list \<Rightarrow> (uuid \<Rightarrow> payment option option) \<Rightarrow> uow \<Rightarrow>
    exn + (uuid \<Rightarrow> payment option option) \<times> uow" where
  "load_payments [] ps = return_act ps"
| "load_payments (d # ds) ps =
     (if ps (d_payment_id d) = None
      then bind_act (repo (get_payment (d_payment_id d))) (\<lambda>p.
             load_payments ds (ps(d_payment_id d := Some p)))
      else load_payments ds ps)"

definition send_one :: "sender \<Rightarrow> (uuid \<Rightarrow> payment option option) \<Rightarrow> delivery \<Rightarrow>
    exn + delivery \<times> send_result option" where
  "send_one send ps d =
     (case ps (d_payment_id d) of
        Some (Some p) \<Rightarrow> map_res (\<lambda>r. (d, Some r)) (send p d)
      | _ \<Rightarrow> Inr (d, None))"

definition send_all :: "sender \<Rightarrow> int \<Rightarrow> (uuid \<Rightarrow> payment option option) \<Rightarrow> delivery list \<Rightarrow>
    exn + (delivery \<times> send_result option) list" where
  "send_all send concurrency ps ds =
     (if concurrency < 0 then Inl (ValueError ''Semaphore initial value must be >= 0'')
      else mapM_res (send_one send ps) ds)"

definition apply_result :: "retry_policy \<Rightarrow> datetime \<Rightarrow> send_result \<Rightarrow> delivery \<Rightarrow> exn + delivery" where
  "apply_result policy now r d =
     (if ws_ok r then delivery_mark_success now (ws_status_code r) (ws_body r) d
      else delivery_record_failure now (ws_status_code r) (ws_body r) policy d)"

definition record_result :: "retry_policy \<Rightarrow> datetime \<Rightarrow> delivery \<Rightarrow> send_result \<Rightarrow> uow \<Rightarrow> exn + bool \<times> uow" where
  "record_result policy now d r =
     bind_act (lift_act (apply_result policy now r d)) (\<lambda>d'.
     bind_act (repo (delivery_update d')) (\<lambda>_. return_act (\<not> ws_ok r)))"

text \<open>The loop over the results; \<open>n\<close> counts the readings of the clock.\<close>

fun record_all :: "deliver_env \<Rightarrow> nat \<Rightarrow> (delivery \<times> send_result option) list \<Rightarrow> nat \<Rightarrow> uow \<Rightarrow>
    exn + nat \<times> uow" where
  "record_all env n [] fails = return_act fails"
| "record_all env n ((d, None) # rs) fails = record_all env n rs fails"
| "record_all env n ((d, Some r) # rs) fails =
     bind_act (record_result (dl_policy env) (dl_clock env n) d r) (\<lambda>failed.
       record_all env (n + 1) rs (if failed then fails + 1 else fails))"

definition deliver_body :: "deliver_env \<Rightarrow> uow \<Rightarrow> exn + batch_result \<times> uow" where
  "deliver_body env =
     bind_act (repo (claim_due (dl_locked env) (dl_batch_size env) (dl_clock env 0))) (\<lambda>ds.
       if ds = [] then return_act \<lparr>br_processed = 0, br_failures = 0\<rparr>
       else
         bind_act (load_payments ds (\<lambda>_. None)) (\<lambda>ps.
         bind_act (lift_act (send_all (dl_sender env) (dl_concurrency env) ps ds)) (\<lambda>rs.
         bind_act (record_all env 1 rs 0) (\<lambda>fails.
           return_act \<lparr>br_processed = length ds, br_failures = fails\<rparr>))))"

definition deliver_webhooks :: "deliver_env \<Rightarrow> db \<Rightarrow> (exn + batch_result) \<times> db" where
  "deliver_webhooks env = transactional True (deliver_body env)"

section \<open>What the steps do\<close>

lemma load_payments_on:
  "load_payments ds ps (on (open_session d)) = Inr (qs, u) \<Longrightarrow>
     u = on (open_session d) \<and>
     (\<forall>x. ps x \<noteq> None \<longrightarrow> qs x = ps x) \<and>
     (\<forall>x \<in> set ds. ps (d_payment_id x) = None \<longrightarrow>
        (case row_by pr_id (d_payment_id x) (payments d) of
           None \<Rightarrow> qs (d_payment_id x) = Some None
         | Some r \<Rightarrow> \<exists>p. payment_to_domain r = Inr p \<and> qs (d_payment_id x) = Some (Some p)))"
proof (induction ds arbitrary: ps)
  case Nil
  then show ?case by (auto simp: return_act_def)
next
  case (Cons x xs)
  show ?case
  proof (cases "ps (d_payment_id x) = None")
    case False
    with Cons show ?thesis by auto
  next
    case True
    with Cons.prems obtain q where q: "map_row payment_to_domain (row_by pr_id (d_payment_id x) (payments d)) = Inr q"
      and rest: "load_payments xs (ps(d_payment_id x := Some q)) (on (open_session d)) = Inr (qs, u)"
      by (auto simp: bind_act_def repo_on get_payment_def res_simps)
    from Cons.IH [OF rest] have u: "u = on (open_session d)"
      and keep: "\<And>y. (ps(d_payment_id x := Some q)) y \<noteq> None \<Longrightarrow> qs y = (ps(d_payment_id x := Some q)) y"
      and new: "\<And>y. y \<in> set xs \<Longrightarrow> (ps(d_payment_id x := Some q)) (d_payment_id y) = None \<Longrightarrow>
        (case row_by pr_id (d_payment_id y) (payments d) of
           None \<Rightarrow> qs (d_payment_id y) = Some None
         | Some r \<Rightarrow> \<exists>p. payment_to_domain r = Inr p \<and> qs (d_payment_id y) = Some (Some p))"
      by blast+
    have x: "qs (d_payment_id x) = Some q" using keep [of "d_payment_id x"] by simp
    have q': "case row_by pr_id (d_payment_id x) (payments d) of
         None \<Rightarrow> qs (d_payment_id x) = Some None
       | Some r \<Rightarrow> \<exists>p. payment_to_domain r = Inr p \<and> qs (d_payment_id x) = Some (Some p)"
      using q x by (auto simp: map_row_def res_simps split: option.splits)
    have "case row_by pr_id (d_payment_id y) (payments d) of
         None \<Rightarrow> qs (d_payment_id y) = Some None
       | Some r \<Rightarrow> \<exists>p. payment_to_domain r = Inr p \<and> qs (d_payment_id y) = Some (Some p)"
      if "y \<in> set (x # xs)" "ps (d_payment_id y) = None" for y
    proof (cases "d_payment_id y = d_payment_id x")
      case True
      show ?thesis unfolding True by (rule q')
    next
      case False
      with that new [of y] show ?thesis by auto
    qed
    moreover have "qs y = ps y" if "ps y \<noteq> None" for y
      using keep [of y] that True by (cases "y = d_payment_id x") auto
    ultimately show ?thesis using u by blast
  qed
qed

lemma apply_result_model:
  "apply_result policy now r x = Inr y \<Longrightarrow>
     delivery_set y (delivery_to_model x) = delivery_to_model y \<and> d_id y = d_id x"
  by (auto simp: apply_result_def delivery_ops_Inr delivery_set_def delivery_to_model_def split: if_splits)

text \<open>What the columns of a delivery can store.\<close>

definition delivery_storable :: "delivery \<Rightarrow> bool" where
  "delivery_storable x \<longleftrightarrow> int4 (d_attempt x) \<and>
     (case d_response_code x of None \<Rightarrow> True | Some c \<Rightarrow> int4 c) \<and> text_opt (d_response_body x)"

lemma apply_result_body: "apply_result policy now r x = Inr y \<Longrightarrow> d_response_body y = ws_body r"
  by (auto simp: apply_result_def delivery_ops_Inr split: if_splits)

lemma record_result_on:
  "record_result policy now x r (on (open_session d)) = Inr (b, u) \<Longrightarrow>
     \<exists>y. apply_result policy now r x = Inr y \<and> delivery_storable y \<and> b = (\<not> ws_ok r) \<and>
       u = on (open_session (d\<lparr>webhook_deliveries :=
             update_where (\<lambda>w. wr_id w = d_id x) (delivery_set y) (webhook_deliveries d)\<rparr>))"
  by (auto simp: record_result_def res_simps delivery_update_def delivery_storable_def dest: apply_result_model split: if_splits)

definition is_failed :: "delivery \<times> send_result option \<Rightarrow> bool" where
  "is_failed = (\<lambda>(x, r). case r of None \<Rightarrow> False | Some s \<Rightarrow> \<not> ws_ok s)"

text \<open>The row of a delivery after its result was recorded.\<close>

definition recorded :: "retry_policy \<Rightarrow> delivery_row list \<Rightarrow> delivery \<times> send_result option \<Rightarrow> bool" where
  "recorded policy t = (\<lambda>(x, r). case r of
      None \<Rightarrow> row_by wr_id (d_id x) t = Some (delivery_to_model x)
    | Some s \<Rightarrow> \<exists>now y. apply_result policy now s x = Inr y \<and> delivery_storable y \<and>
        row_by wr_id (d_id x) t = Some (delivery_to_model y))"

lemma recorded_cong: "row_by wr_id (d_id (fst xr)) t = row_by wr_id (d_id (fst xr)) t' \<Longrightarrow>
    recorded policy t xr = recorded policy t' xr"
  by (cases xr) (simp add: recorded_def split: option.split)

lemma record_all_on:
  assumes "record_all env n rs f (on (open_session d)) = Inr (k, u)"
    and "distinct (map (d_id \<circ> fst) rs)"
    and "\<And>xr. xr \<in> set rs \<Longrightarrow> row_by wr_id (d_id (fst xr)) (webhook_deliveries d) = Some (delivery_to_model (fst xr))"
  shows "\<exists>t. u = on (open_session (d\<lparr>webhook_deliveries := t\<rparr>)) \<and>
    map wr_id t = map wr_id (webhook_deliveries d) \<and>
    (\<forall>i. i \<notin> (d_id \<circ> fst) ` set rs \<longrightarrow> row_by wr_id i t = row_by wr_id i (webhook_deliveries d)) \<and>
    (\<forall>xr \<in> set rs. recorded (dl_policy env) t xr) \<and> k = f + length (filter is_failed rs)"
  using assms
proof (induction env n rs f arbitrary: d rule: record_all.induct)
  case (1 env n f)
  then show ?case by (auto simp: return_act_def intro!: exI [of _ "webhook_deliveries d"])
next
  case (2 env n x rs f)
  then obtain t where t: "u = on (open_session (d\<lparr>webhook_deliveries := t\<rparr>))"
    "map wr_id t = map wr_id (webhook_deliveries d)"
    "\<forall>i. i \<notin> (d_id \<circ> fst) ` set rs \<longrightarrow> row_by wr_id i t = row_by wr_id i (webhook_deliveries d)"
    "\<forall>xr \<in> set rs. recorded (dl_policy env) t xr" "k = f + length (filter is_failed rs)"
    by auto
  moreover have "d_id x \<notin> (d_id \<circ> fst) ` set rs" using "2.prems"(2) by simp
  ultimately have "recorded (dl_policy env) t (x, None)"
    using "2.prems"(3) [of "(x, None)"] by (simp add: recorded_def)
  with t show ?case by (intro exI [of _ t]) (auto simp: is_failed_def)
next
  case (3 env n x r rs f)
  from "3.prems"(1) obtain b s where one: "record_result (dl_policy env) (dl_clock env n) x r (on (open_session d)) = Inr (b, s)"
    and rest: "record_all env (n + 1) rs (if b then f + 1 else f) s = Inr (k, u)"
    by (auto simp: bind_act_def res_simps)
  from record_result_on [OF one] obtain y where y: "apply_result (dl_policy env) (dl_clock env n) r x = Inr y" "delivery_storable y"
    and b: "b = (\<not> ws_ok r)" and s: "s = on (open_session (d\<lparr>webhook_deliveries :=
        update_where (\<lambda>w. wr_id w = d_id x) (delivery_set y) (webhook_deliveries d)\<rparr>))" by blast
  define d1 where "d1 = d\<lparr>webhook_deliveries :=
      update_where (\<lambda>w. wr_id w = d_id x) (delivery_set y) (webhook_deliveries d)\<rparr>"
  have row1: "row_by wr_id i (webhook_deliveries d1) =
      map_option (\<lambda>w. if wr_id w = d_id x then delivery_set y w else w) (row_by wr_id i (webhook_deliveries d))" for i
    by (simp add: d1_def row_by_update_where)
  have other: "row_by wr_id i (webhook_deliveries d1) = row_by wr_id i (webhook_deliveries d)" if "i \<noteq> d_id x" for i
    using that row_by_SomeD [of wr_id i "webhook_deliveries d"]
    by (cases "row_by wr_id i (webhook_deliveries d)") (auto simp: row1)
  have ids1: "map wr_id (webhook_deliveries d1) = map wr_id (webhook_deliveries d)"
    by (simp add: d1_def map_update_where)
  have fresh: "d_id x \<notin> (d_id \<circ> fst) ` set rs" using "3.prems"(2) by simp
  have hyp: "row_by wr_id (d_id (fst xr)) (webhook_deliveries d1) = Some (delivery_to_model (fst xr))"
    if "xr \<in> set rs" for xr
    using "3.prems"(3) [of xr] other [of "d_id (fst xr)"] that fresh by (auto simp: image_iff)
  from "3.IH" [OF rest [unfolded s, folded d1_def] _ hyp] "3.prems"(2) obtain t where
    t: "u = on (open_session (d1\<lparr>webhook_deliveries := t\<rparr>))"
    "map wr_id t = map wr_id (webhook_deliveries d1)"
    "\<forall>i. i \<notin> (d_id \<circ> fst) ` set rs \<longrightarrow> row_by wr_id i t = row_by wr_id i (webhook_deliveries d1)"
    "\<forall>xr \<in> set rs. recorded (dl_policy env) t xr"
    "k = (if b then f + 1 else f) + length (filter is_failed rs)" by auto
  have "row_by wr_id (d_id x) t = Some (delivery_to_model y)"
    using t(3) fresh row1 [of "d_id x"] "3.prems"(3) [of "(x, Some r)"] apply_result_model [OF y(1)]
    by (simp add: delivery_to_model_def)
  with y have "recorded (dl_policy env) t (x, Some r)" by (auto simp: recorded_def)
  with t other ids1 b show ?case
    by (intro exI [of _ t]) (auto simp: is_failed_def d1_def)
qed

lemma send_one_fst: "send_one send ps x = Inr xr \<Longrightarrow> fst xr = x"
  by (auto simp: send_one_def res_simps split: option.splits)

lemma send_all_fst: "send_all send n ps ds = Inr rs \<Longrightarrow> map fst rs = ds"
proof -
  assume "send_all send n ps ds = Inr rs"
  then have "list_all2 (\<lambda>x xr. send_one send ps x = Inr xr) ds rs"
    by (auto simp: send_all_def mapM_res_Inr split: if_splits)
  then show ?thesis by (induction rule: list_all2_induct) (auto dest: send_one_fst)
qed

lemma send_all_set:
  "send_all send n ps ds = Inr rs \<Longrightarrow> xr \<in> set rs \<Longrightarrow> send_one send ps (fst xr) = Inr xr"
proof -
  assume "send_all send n ps ds = Inr rs" and x: "xr \<in> set rs"
  then have "list_all2 (\<lambda>x xr. send_one send ps x = Inr xr) ds rs"
    by (auto simp: send_all_def mapM_res_Inr split: if_splits)
  with x obtain x where "send_one send ps x = Inr xr" by (auto simp: list_all2_conv_all_nth in_set_conv_nth)
  with send_one_fst [OF this] show ?thesis by simp
qed

lemma claim_due_Inr:
  "claim_due locked limit now (open_session d) = Inr (ds, s) \<Longrightarrow>
     s = open_session d \<and> 0 \<le> limit \<and> due_rows locked limit now d = map delivery_to_model ds"
proof -
  assume "claim_due locked limit now (open_session d) = Inr (ds, s)"
  then have lim: "s = open_session d \<and> 0 \<le> limit"
    and "mapM_res delivery_to_domain (due_rows locked limit now d) = Inr ds"
    by (auto simp: claim_due_def res_simps split: if_splits)
  then have "list_all2 (\<lambda>r x. r = delivery_to_model x) (due_rows locked limit now d) ds"
    by (simp add: mapM_res_Inr delivery_to_domain_Inr)
  then have "due_rows locked limit now d = map delivery_to_model ds"
    by (induction rule: list_all2_induct) auto
  with lim show ?thesis by simp
qed

lemma claimed_rows:
  assumes "due_rows locked limit now d = map delivery_to_model ds" "unique_key wr_id (webhook_deliveries d)"
  shows "distinct (map d_id ds)"
    and "x \<in> set ds \<Longrightarrow> row_by wr_id (d_id x) (webhook_deliveries d) = Some (delivery_to_model x)"
proof -
  have id: "wr_id \<circ> delivery_to_model = d_id" by (auto simp: delivery_to_model_def)
  show "distinct (map d_id ds)"
    using due_rows_distinct [OF assms(2), of locked limit now] assms(1) by (simp add: id)
  assume "x \<in> set ds"
  then have "delivery_to_model x \<in> set (due_rows locked limit now d)" by (simp add: assms(1))
  from due_rows_set [OF this] row_by_unique [OF assms(2)]
  have "row_by wr_id (wr_id (delivery_to_model x)) (webhook_deliveries d) = Some (delivery_to_model x)" by blast
  then show "row_by wr_id (d_id x) (webhook_deliveries d) = Some (delivery_to_model x)"
    by (simp add: delivery_to_model_def)
qed

text \<open>What becomes of a claimed delivery: what its payment and its send give, and its row.\<close>

definition send_outcome :: "deliver_env \<Rightarrow> db \<Rightarrow> delivery \<Rightarrow> send_result option" where
  "send_outcome env d x =
     (case row_by pr_id (d_payment_id x) (payments d) of
        None \<Rightarrow> None
      | Some r \<Rightarrow> (case payment_to_domain r of
          Inl _ \<Rightarrow> None
        | Inr p \<Rightarrow> (case dl_sender env p x of Inl _ \<Rightarrow> None | Inr s \<Rightarrow> Some s)))"

lemma send_outcome_loaded:
  assumes "load_payments ds (\<lambda>_. None) (on (open_session d)) = Inr (qs, u)" "x \<in> set ds"
    and "send_one (dl_sender env) qs x = Inr xr"
  shows "xr = (x, send_outcome env d x)"
proof -
  have "case row_by pr_id (d_payment_id x) (payments d) of
         None \<Rightarrow> qs (d_payment_id x) = Some None
       | Some r \<Rightarrow> \<exists>p. payment_to_domain r = Inr p \<and> qs (d_payment_id x) = Some (Some p)"
    using load_payments_on [OF assms(1)] assms(2) by blast
  with assms(3) show ?thesis
    by (auto simp: send_one_def send_outcome_def res_simps split: option.splits)
qed

lemma deliver_body_Inr:
  assumes uniq: "unique_key wr_id (webhook_deliveries d)"
    and run: "deliver_body env (on (open_session d)) = Inr (res, u)"
  shows "\<exists>ds t. due_rows (dl_locked env) (dl_batch_size env) (dl_clock env 0) d = map delivery_to_model ds \<and>
    u = on (open_session (d\<lparr>webhook_deliveries := t\<rparr>)) \<and> map wr_id t = map wr_id (webhook_deliveries d) \<and>
    (\<forall>i. i \<notin> d_id ` set ds \<longrightarrow> row_by wr_id i t = row_by wr_id i (webhook_deliveries d)) \<and>
    (\<forall>x \<in> set ds. recorded (dl_policy env) t (x, send_outcome env d x)) \<and>
    br_processed res = length ds \<and>
    br_failures res = length (filter (\<lambda>x. is_failed (x, send_outcome env d x)) ds)"
proof -
  from run obtain ds s where claim: "claim_due (dl_locked env) (dl_batch_size env) (dl_clock env 0) (open_session d) = Inr (ds, s)"
    and cont: "(if ds = [] then return_act \<lparr>br_processed = 0, br_failures = 0\<rparr>
       else bind_act (load_payments ds (\<lambda>_. None)) (\<lambda>ps.
         bind_act (lift_act (send_all (dl_sender env) (dl_concurrency env) ps ds)) (\<lambda>rs.
         bind_act (record_all env 1 rs 0) (\<lambda>fails.
           return_act \<lparr>br_processed = length ds, br_failures = fails\<rparr>)))) (on s) = Inr (res, u)"
    by (auto simp: deliver_body_def res_simps)
  from claim_due_Inr [OF claim] have s: "s = open_session d"
    and rows: "due_rows (dl_locked env) (dl_batch_size env) (dl_clock env 0) d = map delivery_to_model ds" by simp_all
  show ?thesis
  proof (cases "ds = []")
    case True
    with cont s rows show ?thesis
      by (intro exI [of _ "[]"] exI [of _ "webhook_deliveries d"]) (auto simp: return_act_def)
  next
    case False
    with cont s obtain qs rs k u0 u1 where load: "load_payments ds (\<lambda>_. None) (on (open_session d)) = Inr (qs, u0)"
      and send: "send_all (dl_sender env) (dl_concurrency env) qs ds = Inr rs"
      and rec: "record_all env 1 rs 0 u0 = Inr (k, u1)"
      and res: "res = \<lparr>br_processed = length ds, br_failures = k\<rparr>" "u = u1"
      by (auto simp: res_simps)
    have u0: "u0 = on (open_session d)" using load_payments_on [OF load] by simp
    have fst: "map fst rs = ds" by (rule send_all_fst [OF send])
    have out: "xr = (fst xr, send_outcome env d (fst xr))" if "xr \<in> set rs" for xr
      using send_outcome_loaded [OF load _ send_all_set [OF send that]] fst that by auto
    have rs: "rs = map (\<lambda>x. (x, send_outcome env d x)) ds"
    proof -
      have "map (\<lambda>xr. (fst xr, send_outcome env d (fst xr))) rs = rs" by (rule map_idI) (metis out)
      then show ?thesis by (simp add: comp_def flip: fst)
    qed
    note claimed = claimed_rows [OF rows uniq]
    have "distinct (map (d_id \<circ> fst) rs)" using claimed(1) by (simp add: rs comp_def)
    moreover have "row_by wr_id (d_id (fst xr)) (webhook_deliveries d) = Some (delivery_to_model (fst xr))"
      if "xr \<in> set rs" for xr
      using that claimed(2) [of "fst xr"] by (auto simp: rs)
    ultimately obtain t where "u1 = on (open_session (d\<lparr>webhook_deliveries := t\<rparr>))"
      "map wr_id t = map wr_id (webhook_deliveries d)"
      "\<forall>i. i \<notin> (d_id \<circ> fst) ` set rs \<longrightarrow> row_by wr_id i t = row_by wr_id i (webhook_deliveries d)"
      "\<forall>xr \<in> set rs. recorded (dl_policy env) t xr" "k = 0 + length (filter is_failed rs)"
      using record_all_on [OF rec [unfolded u0]] by blast
    with res rows show ?thesis
      by (intro exI [of _ ds] exI [of _ t]) (simp add: rs filter_map comp_def image_image)
  qed
qed

lemma claim_due_ok:
  assumes "due_rows locked limit now d = map delivery_to_model ds" and "0 \<le> limit"
  shows "claim_due locked limit now (open_session d) = Inr (ds, open_session d)"
proof -
  have "mapM_res delivery_to_domain (map delivery_to_model ds) = Inr ds"
    by (simp add: mapM_res_Inr list_all2_conv_all_nth)
  with assms show ?thesis by (simp add: claim_due_def)
qed

section \<open>Properties\<close>

text \<open>
  Property C15. A batch that is committed records every send exactly once: the claimed deliveries
  are those due and unlocked, oldest first, at most the batch size; each is rewritten by its
  entity's transition for the result of its send (delivered, retried later, or failed for good),
  one whose payment is unknown stays as it was, and no other row of any table changes. The counts
  are the claimed and the failed deliveries.
\<close>

theorem deliver_batch_effect:
  assumes "unique_key wr_id (webhook_deliveries d)" and run: "deliver_webhooks env d = (Inr res, d')"
  shows "\<exists>ds. due_rows (dl_locked env) (dl_batch_size env) (dl_clock env 0) d = map delivery_to_model ds \<and>
    br_processed res = length ds \<and>
    br_failures res = length (filter (\<lambda>x. is_failed (x, send_outcome env d x)) ds) \<and>
    d' = d\<lparr>webhook_deliveries := webhook_deliveries d'\<rparr> \<and>
    map wr_id (webhook_deliveries d') = map wr_id (webhook_deliveries d) \<and>
    (\<forall>i. i \<notin> d_id ` set ds \<longrightarrow>
       row_by wr_id i (webhook_deliveries d') = row_by wr_id i (webhook_deliveries d)) \<and>
    (\<forall>x \<in> set ds. case send_outcome env d x of
       None \<Rightarrow> row_by wr_id (d_id x) (webhook_deliveries d') = Some (delivery_to_model x)
     | Some s \<Rightarrow> \<exists>now y. apply_result (dl_policy env) now s x = Inr y \<and>
         row_by wr_id (d_id x) (webhook_deliveries d') = Some (delivery_to_model y))"
proof -
  from run obtain u s s' where body: "deliver_body env (on (open_session d)) = Inr (res, u)"
    and s: "u_session u = Some s" "flush s = Inr s'" "d' = s_db s'"
    by (auto simp: deliver_webhooks_def transactional_Inr)
  from deliver_body_Inr [OF assms(1) body] obtain ds t where
    claimed: "due_rows (dl_locked env) (dl_batch_size env) (dl_clock env 0) d = map delivery_to_model ds"
    and u: "u = on (open_session (d\<lparr>webhook_deliveries := t\<rparr>))"
    and t: "map wr_id t = map wr_id (webhook_deliveries d)"
      "\<forall>i. i \<notin> d_id ` set ds \<longrightarrow> row_by wr_id i t = row_by wr_id i (webhook_deliveries d)"
      "\<forall>x \<in> set ds. recorded (dl_policy env) t (x, send_outcome env d x)"
      "br_processed res = length ds"
      "br_failures res = length (filter (\<lambda>x. is_failed (x, send_outcome env d x)) ds)" by blast
  from u s have d': "d' = d\<lparr>webhook_deliveries := t\<rparr>" by auto
  have wd: "webhook_deliveries d' = t" by (simp add: d')
  show ?thesis
    unfolding wd by (rule exI [of _ ds]) (use claimed t d' in \<open>fastforce simp: recorded_def split: option.split\<close>)
qed

text \<open>
  Property C23. One bad delivery fails the whole batch: if the send of any claimed delivery raises,
  or the merchant answers it with a body that contains NUL, which the column cannot store, nothing
  is recorded for any of them, also for those that were sent, and the due deliveries are claimed
  again by the next run.
\<close>

theorem deliver_batch_poisoned:
  assumes "due_rows (dl_locked env) (dl_batch_size env) (dl_clock env 0) d = map delivery_to_model ds"
    and "unique_key wr_id (webhook_deliveries d)" and "0 \<le> dl_batch_size env" and "x \<in> set ds"
    and "row_by pr_id (d_payment_id x) (payments d) = Some r" and "payment_to_domain r = Inr p"
    and "case dl_sender env p x of Inl e \<Rightarrow> True | Inr s \<Rightarrow> \<not> text_opt (ws_body s)"
  shows "(\<exists>e'. deliver_webhooks env d = (Inl e', d)) \<and>
    due_rows (dl_locked env) (dl_batch_size env) (dl_clock env 0) (snd (deliver_webhooks env d)) =
      map delivery_to_model ds"
proof -
  have "\<nexists>r u. deliver_body env (on (open_session d)) = Inr (r, u)"
  proof (rule ccontr, clarsimp)
    fix res u assume run: "deliver_body env (on (open_session d)) = Inr (res, u)"
    show False
    proof (cases "dl_sender env p x")
      case (Inl e)
      have "claim_due (dl_locked env) (dl_batch_size env) (dl_clock env 0) (open_session d) = Inr (ds, open_session d)"
        by (rule claim_due_ok [OF assms(1,3)])
      with run assms(4) obtain qs rs u0 where load: "load_payments ds (\<lambda>_. None) (on (open_session d)) = Inr (qs, u0)"
        and send: "send_all (dl_sender env) (dl_concurrency env) qs ds = Inr rs"
        by (fastforce simp: deliver_body_def res_simps repo_on split: if_splits)
      from send have "list_all2 (\<lambda>x xr. send_one (dl_sender env) qs x = Inr xr) ds rs"
        by (auto simp: send_all_def mapM_res_Inr split: if_splits)
      moreover from assms(4) obtain i where "i < length ds" "x = ds ! i" by (metis in_set_conv_nth)
      ultimately have "send_one (dl_sender env) qs x = Inr (rs ! i)" by (simp add: list_all2_conv_all_nth)
      moreover have "qs (d_payment_id x) = Some (Some p)"
        using load_payments_on [OF load] assms(4-6) by force
      ultimately show False using Inl by (simp add: send_one_def)
    next
      case (Inr s)
      from deliver_body_Inr [OF assms(2) run] obtain ds' t where
        "due_rows (dl_locked env) (dl_batch_size env) (dl_clock env 0) d = map delivery_to_model ds'"
        and rec: "\<forall>x \<in> set ds'. recorded (dl_policy env) t (x, send_outcome env d x)" by blast
      with assms(1) have "map delivery_to_model ds' = map delivery_to_model ds" by simp
      then have "ds' = ds" by (rule map_injective [OF _ injI]) (metis delivery_to_domain_model sum.inject(2))
      moreover have "send_outcome env d x = Some s" using Inr assms(5,6) by (simp add: send_outcome_def)
      ultimately have "recorded (dl_policy env) t (x, Some s)" using rec assms(4) by metis
      then have "text_opt (ws_body s)" by (auto simp: recorded_def delivery_storable_def dest: apply_result_body)
      with Inr assms(7) show False by simp
    qed
  qed
  then have "\<exists>e'. deliver_webhooks env d = (Inl e', d)"
    by (cases "deliver_body env (on (open_session d))")
      (auto simp: deliver_webhooks_def transactional_commit)
  with assms(1) show ?thesis by auto
qed

section \<open>A concrete batch\<close>

definition demo_delivery :: delivery where
  "demo_delivery = delivery_create 31 1 ''payment.succeeded'' None 300"

definition demo_delivery_db :: db where
  "demo_delivery_db = demo_db\<lparr>webhook_deliveries := [delivery_to_model demo_delivery]\<rparr>"

definition demo_deliver_env :: "sender \<Rightarrow> deliver_env" where
  "demo_deliver_env send = \<lparr>dl_sender = send, dl_batch_size = 10,
     dl_policy = \<lparr>max_attempts = 3, base_delay = 1\<rparr>, dl_concurrency = 10,
     dl_clock = (\<lambda>n. 400 + int n), dl_locked = (\<lambda>_. False)\<rparr>"

lemma demo_delivery_facts:
  "payments demo_delivery_db = [demo_row]" "pr_id demo_row = 1" "d_payment_id demo_delivery = 1"
  "webhook_deliveries demo_delivery_db = [delivery_to_model demo_delivery]"
  "unique_key wr_id (webhook_deliveries demo_delivery_db)" "d_id demo_delivery = 31"
  "d_status demo_delivery = DPending" "d_attempt demo_delivery = 1"
  by (simp_all add: demo_delivery_db_def demo_delivery_def delivery_create_def unique_key_def demo_row_def)

lemma demo_due:
  "due_rows (dl_locked (demo_deliver_env send)) (dl_batch_size (demo_deliver_env send))
     (dl_clock (demo_deliver_env send) 0) demo_delivery_db = map delivery_to_model [demo_delivery]"
  by (simp add: due_rows_def demo_deliver_env_def demo_delivery_facts due_def demo_delivery_def delivery_create_def
      delivery_to_model_def)

lemma demo_deliver_runs:
  "\<exists>d'. deliver_webhooks (demo_deliver_env (\<lambda>_ _. Inr \<lparr>ws_ok = True, ws_status_code = Some 200, ws_body = None\<rparr>))
     demo_delivery_db = (Inr \<lparr>br_processed = 1, br_failures = 0\<rparr>, d')"
proof -
  let ?send = "\<lambda>_ _. Inr \<lparr>ws_ok = True, ws_status_code = Some 200, ws_body = None\<rparr>"
  have claim: "claim_due (dl_locked (demo_deliver_env ?send)) (dl_batch_size (demo_deliver_env ?send))
      (dl_clock (demo_deliver_env ?send) 0) (open_session demo_delivery_db) =
      Inr ([demo_delivery], open_session demo_delivery_db)"
    using demo_due by (simp add: claim_due_def) (simp add: demo_deliver_env_def)
  have int4: "int4 1" "int4 200" by (simp_all add: int4_def)
  show ?thesis
    by (simp add: deliver_webhooks_def transactional_commit deliver_body_def bind_act_def repo_on claim
        return_act_def lift_act_def get_payment_def map_row_def demo_delivery_facts demo_row_domain)
      (simp add: demo_deliver_env_def send_all_def send_one_def demo_delivery_facts bind_act_def
        record_result_def lift_act_def apply_result_def delivery_mark_success_def delivery_transition_def repo_on
        delivery_update_def return_act_def int4 params_check_def)
qed

theorem deliver_batch_effect_witness:
  "\<exists>d' y. deliver_webhooks (demo_deliver_env (\<lambda>_ _. Inr \<lparr>ws_ok = True, ws_status_code = Some 200, ws_body = None\<rparr>))
     demo_delivery_db = (Inr \<lparr>br_processed = 1, br_failures = 0\<rparr>, d') \<and>
     row_by wr_id 31 (webhook_deliveries d') = Some (delivery_to_model y) \<and> d_status y = DSuccess"
proof -
  let ?send = "\<lambda>_ _. Inr \<lparr>ws_ok = True, ws_status_code = Some 200, ws_body = None\<rparr>"
  obtain d' where run: "deliver_webhooks (demo_deliver_env ?send) demo_delivery_db =
      (Inr \<lparr>br_processed = 1, br_failures = 0\<rparr>, d')" using demo_deliver_runs by blast
  from deliver_batch_effect [OF demo_delivery_facts(5) run] obtain ds where
    ds: "map delivery_to_model [demo_delivery] = map delivery_to_model ds"
    and all: "\<forall>x \<in> set ds. case send_outcome (demo_deliver_env ?send) demo_delivery_db x of
       None \<Rightarrow> row_by wr_id (d_id x) (webhook_deliveries d') = Some (delivery_to_model x)
     | Some s \<Rightarrow> \<exists>now y. apply_result (dl_policy (demo_deliver_env ?send)) now s x = Inr y \<and>
         row_by wr_id (d_id x) (webhook_deliveries d') = Some (delivery_to_model y)"
    unfolding demo_due by blast
  from ds obtain x where "ds = [x]" "delivery_to_model x = delivery_to_model demo_delivery" by auto
  moreover then have "x = demo_delivery" by (metis delivery_to_domain_model sum.inject(2))
  moreover have "send_outcome (demo_deliver_env ?send) demo_delivery_db demo_delivery =
      Some \<lparr>ws_ok = True, ws_status_code = Some 200, ws_body = None\<rparr>"
    by (simp add: send_outcome_def demo_delivery_facts demo_row_domain demo_deliver_env_def)
  ultimately have "\<exists>y. row_by wr_id 31 (webhook_deliveries d') = Some (delivery_to_model y) \<and> d_status y = DSuccess"
    using all by (auto simp: apply_result_def delivery_mark_success_Inr demo_delivery_facts)
  with run show ?thesis by blast
qed

theorem deliver_batch_poisoned_witness:
  "\<exists>e. deliver_webhooks (demo_deliver_env (\<lambda>_ _. Inr \<lparr>ws_ok = True, ws_status_code = Some 200, ws_body = Some [CHR 0x00]\<rparr>))
     demo_delivery_db = (Inl e, demo_delivery_db)"
proof -
  let ?env = "demo_deliver_env (\<lambda>_ _. Inr \<lparr>ws_ok = True, ws_status_code = Some 200, ws_body = Some [CHR 0x00]\<rparr>)"
  have "0 \<le> dl_batch_size ?env" "demo_delivery \<in> set [demo_delivery]"
    "row_by pr_id (d_payment_id demo_delivery) (payments demo_delivery_db) = Some demo_row"
    "case dl_sender ?env demo_payment demo_delivery of Inl e \<Rightarrow> True | Inr s \<Rightarrow> \<not> text_opt (ws_body s)"
    by (simp_all add: demo_deliver_env_def demo_delivery_facts)
  from deliver_batch_poisoned [OF demo_due demo_delivery_facts(5) this(1-3) demo_row_domain this(4)] show ?thesis by blast
qed

end
