(* ===== verification/OutboxRepo.thy ===== *)
theory OutboxRepo
  imports UnitOfWork
begin

text \<open>
  \<open>domain/repositories/outbox.py\<close>, \<open>infrastructure/mappers/outbox.py\<close> and
  \<open>infrastructure/repositories/outbox.py\<close>: the leases on the messages of the transactional outbox.
  \<open>ts\<close> is what SQL \<open>now()\<close> returns, the start of the transaction; \<open>locked\<close> says which rows other
  transactions hold locks on. The rows an \<open>UPDATE ... RETURNING\<close> gives come in table order.
\<close>

section \<open>The order of the claim\<close>

datatype claim_key = ClaimKey (ck_created: datetime) (ck_id: uuid)

text \<open>\<open>ORDER BY created_at, id\<close>\<close>

instantiation claim_key :: linorder
begin

definition less_eq_claim_key :: "claim_key \<Rightarrow> claim_key \<Rightarrow> bool" where
  "less_eq_claim_key a b \<longleftrightarrow> ck_created a < ck_created b \<or> ck_created a = ck_created b \<and> ck_id a \<le> ck_id b"

definition less_claim_key :: "claim_key \<Rightarrow> claim_key \<Rightarrow> bool" where
  "less_claim_key a b \<longleftrightarrow> ck_created a < ck_created b \<or> ck_created a = ck_created b \<and> ck_id a < ck_id b"

instance
  by standard (auto simp: less_eq_claim_key_def less_claim_key_def claim_key.expand)

end

definition claim_key_of :: "outbox_row \<Rightarrow> claim_key" where
  "claim_key_of r = ClaimKey (ob_created_at r) (ob_id r)"

section \<open>Messages\<close>

record outbox_message =
  om_id :: uuid
  om_event_type :: string
  om_aggregate_id :: uuid
  om_payload :: pydict
  om_correlation_id :: "string option"
  om_attempts :: int
  om_status :: string
  om_created_at :: datetime
  om_next_retry_at :: "datetime option"
  om_claimed_at :: "datetime option"
  om_claimed_by :: "uuid option"
  om_processed_at :: "datetime option"

definition outbox_to_domain :: "outbox_row \<Rightarrow> outbox_message" where
  "outbox_to_domain r =
     \<lparr>om_id = ob_id r, om_event_type = ob_event_type r, om_aggregate_id = ob_aggregate_id r,
      om_payload = ob_payload r, om_correlation_id = ob_correlation_id r, om_attempts = ob_attempts r,
      om_status = ob_status r, om_created_at = ob_created_at r, om_next_retry_at = ob_next_retry_at r,
      om_claimed_at = ob_claimed_at r, om_claimed_by = ob_claimed_by r,
      om_processed_at = ob_processed_at r\<rparr>"

section \<open>Statements\<close>

definition update_outbox :: "(outbox_row \<Rightarrow> bool) \<Rightarrow> (outbox_row \<Rightarrow> outbox_row) \<Rightarrow> db \<Rightarrow> db" where
  "update_outbox P f d = d\<lparr>outbox_messages := update_where P f (outbox_messages d)\<rparr>"

definition expired :: "datetime \<Rightarrow> outbox_row \<Rightarrow> bool" where
  "expired cutoff r \<longleftrightarrow> ob_status r = ''processing'' \<and>
     (case ob_claimed_at r of None \<Rightarrow> False | Some t \<Rightarrow> t < cutoff)"

definition to_dead :: "datetime \<Rightarrow> outbox_row \<Rightarrow> outbox_row" where
  "to_dead ts r = r\<lparr>ob_status := ''dead'', ob_claimed_at := None, ob_claimed_by := None,
                   ob_next_retry_at := None, ob_finished_at := Some ts\<rparr>"

definition to_pending :: "outbox_row \<Rightarrow> outbox_row" where
  "to_pending r = r\<lparr>ob_status := ''pending'', ob_claimed_at := None, ob_claimed_by := None\<rparr>"

definition release_expired_db ::
    "datetime \<Rightarrow> datetime \<Rightarrow> int \<Rightarrow> int \<Rightarrow> db \<Rightarrow> (nat \<times> nat) \<times> db" where
  "release_expired_db ts now timeout max_att d =
     (let cutoff = now - timedelta (of_int timeout);
          dead = (\<lambda>r. expired cutoff r \<and> max_att \<le> ob_attempts r);
          d1 = update_outbox dead (to_dead ts) d;
          back = (\<lambda>r. expired cutoff r \<and> ob_attempts r < max_att)
      in ((rowcount dead (outbox_messages d), rowcount back (outbox_messages d1)),
          update_outbox back to_pending d1))"

definition claimable :: "datetime \<Rightarrow> int \<Rightarrow> outbox_row \<Rightarrow> bool" where
  "claimable now max_att r \<longleftrightarrow>
     ob_status r = ''pending'' \<and> ob_processed_at r = None \<and> ob_attempts r < max_att \<and>
     (case ob_next_retry_at r of None \<Rightarrow> True | Some t \<Rightarrow> t \<le> now)"

definition claim_ids :: "(uuid \<Rightarrow> bool) \<Rightarrow> int \<Rightarrow> datetime \<Rightarrow> int \<Rightarrow> db \<Rightarrow> uuid list" where
  "claim_ids locked limit now max_att d =
     map ob_id (take (nat limit)
       (sort_key claim_key_of
         (filter (\<lambda>r. claimable now max_att r \<and> \<not> locked (ob_id r)) (outbox_messages d))))"

definition to_claimed :: "datetime \<Rightarrow> uuid \<Rightarrow> outbox_row \<Rightarrow> outbox_row" where
  "to_claimed now worker r =
     r\<lparr>ob_status := ''processing'', ob_claimed_at := Some now, ob_claimed_by := Some worker,
       ob_attempts := ob_attempts r + 1\<rparr>"

definition claim_batch_db ::
    "(uuid \<Rightarrow> bool) \<Rightarrow> int \<Rightarrow> datetime \<Rightarrow> uuid \<Rightarrow> int \<Rightarrow> db \<Rightarrow> exn + outbox_message list \<times> db" where
  "claim_batch_db locked limit now worker max_att d =
     (if limit < 0 then Inl (DBAPIError ''InvalidRowCountInLimitClause'')
      else let ids = claim_ids locked limit now max_att d;
               d' = update_outbox (\<lambda>r. ob_id r \<in> set ids) (to_claimed now worker) d
           in Inr (map outbox_to_domain (filter (\<lambda>r. ob_id r \<in> set ids) (outbox_messages d')), d'))"

text \<open>The guard of both marks: the row is still leased by this worker.\<close>

definition owned :: "uuid \<Rightarrow> uuid \<Rightarrow> outbox_row \<Rightarrow> bool" where
  "owned i worker r \<longleftrightarrow> ob_id r = i \<and> ob_status r = ''processing'' \<and> ob_claimed_by r = Some worker"

definition to_processed :: "datetime \<Rightarrow> outbox_row \<Rightarrow> outbox_row" where
  "to_processed ts r = r\<lparr>ob_processed_at := Some ts, ob_status := ''processed'', ob_claimed_at := None,
                       ob_claimed_by := None, ob_finished_at := Some ts\<rparr>"

definition mark_processed_db :: "datetime \<Rightarrow> uuid \<Rightarrow> uuid \<Rightarrow> db \<Rightarrow> db" where
  "mark_processed_db ts i worker = update_outbox (owned i worker) (to_processed ts)"

definition after_failure :: "datetime \<Rightarrow> int \<Rightarrow> datetime option \<Rightarrow> outbox_row \<Rightarrow> outbox_row" where
  "after_failure ts max_att next r =
     (let exceeded = max_att \<le> ob_attempts r
      in r\<lparr>ob_status := (if exceeded then ''dead'' else ''pending''), ob_claimed_at := None,
           ob_claimed_by := None, ob_next_retry_at := (if exceeded then None else next),
           ob_finished_at := (if exceeded then Some ts else None)\<rparr>)"

definition mark_publish_failure_db ::
    "datetime \<Rightarrow> uuid \<Rightarrow> uuid \<Rightarrow> int \<Rightarrow> datetime option \<Rightarrow> db \<Rightarrow> db" where
  "mark_publish_failure_db ts i worker max_att next =
     update_outbox (owned i worker) (after_failure ts max_att next)"

definition to_reaped :: "datetime \<Rightarrow> outbox_row \<Rightarrow> outbox_row" where
  "to_reaped ts r = r\<lparr>ob_status := ''dead'', ob_next_retry_at := None, ob_finished_at := Some ts\<rparr>"

definition reap_exhausted_db :: "datetime \<Rightarrow> int \<Rightarrow> db \<Rightarrow> db" where
  "reap_exhausted_db ts max_att =
     update_outbox (\<lambda>r. ob_status r = ''pending'' \<and> max_att \<le> ob_attempts r) (to_reaped ts)"

definition purgeable :: "datetime \<Rightarrow> outbox_row \<Rightarrow> bool" where
  "purgeable cutoff r \<longleftrightarrow> ob_status r \<in> {''processed'', ''dead''} \<and>
     (case ob_finished_at r of None \<Rightarrow> False | Some t \<Rightarrow> t < cutoff)"

definition purge_processed_db :: "datetime \<Rightarrow> db \<Rightarrow> db" where
  "purge_processed_db cutoff d =
     d\<lparr>outbox_messages := filter (\<lambda>r. \<not> purgeable cutoff r) (outbox_messages d)\<rparr>"

text \<open>The repository's methods, on the session.\<close>

definition release_expired_claims :: "datetime \<Rightarrow> datetime \<Rightarrow> int \<Rightarrow> int \<Rightarrow> session \<Rightarrow> exn + (nat \<times> nat) \<times> session" where
  "release_expired_claims ts now timeout max_att =
     execute (\<lambda>d. Inr (release_expired_db ts now timeout max_att d))"

definition claim_batch ::
    "(uuid \<Rightarrow> bool) \<Rightarrow> int \<Rightarrow> datetime \<Rightarrow> uuid \<Rightarrow> int \<Rightarrow> session \<Rightarrow> exn + outbox_message list \<times> session" where
  "claim_batch locked limit now worker max_att =
     execute (claim_batch_db locked limit now worker max_att)"

definition mark_processed :: "datetime \<Rightarrow> uuid \<Rightarrow> uuid \<Rightarrow> session \<Rightarrow> exn + unit \<times> session" where
  "mark_processed ts i worker = execute (\<lambda>d. Inr ((), mark_processed_db ts i worker d))"

definition mark_publish_failure ::
    "datetime \<Rightarrow> uuid \<Rightarrow> uuid \<Rightarrow> int \<Rightarrow> datetime option \<Rightarrow> session \<Rightarrow> exn + unit \<times> session" where
  "mark_publish_failure ts i worker max_att next =
     execute (\<lambda>d. Inr ((), mark_publish_failure_db ts i worker max_att next d))"

definition reap_exhausted :: "datetime \<Rightarrow> int \<Rightarrow> session \<Rightarrow> exn + unit \<times> session" where
  "reap_exhausted ts max_att = execute (\<lambda>d. Inr ((), reap_exhausted_db ts max_att d))"

definition purge_processed :: "datetime \<Rightarrow> session \<Rightarrow> exn + unit \<times> session" where
  "purge_processed cutoff = execute (\<lambda>d. Inr ((), purge_processed_db cutoff d))"

section \<open>The abstract queue\<close>

text \<open>
  What the outbox promises of a message, without rows: it waits, is leased by one worker, or has
  reached an end; the number counts the leases so far. The steps are labelled with who may take
  them.
\<close>

datatype lease = Waiting int | Leased uuid int | Published | Dead

datatype lease_op = Insert | Claim uuid | Ack uuid | Nack uuid | Expire | Reap | Purge

inductive lease_step :: "int \<Rightarrow> lease_op \<Rightarrow> lease option \<Rightarrow> lease option \<Rightarrow> bool" for m :: int where
  insert: "lease_step m Insert None (Some (Waiting 0))"
| claim: "n < m \<Longrightarrow> lease_step m (Claim w) (Some (Waiting n)) (Some (Leased w (n + 1)))"
| ack: "lease_step m (Ack w) (Some (Leased w n)) (Some Published)"
| nack: "n < m \<Longrightarrow> lease_step m (Nack w) (Some (Leased w n)) (Some (Waiting n))"
| give_up: "m \<le> n \<Longrightarrow> lease_step m (Nack w) (Some (Leased w n)) (Some Dead)"
| expire: "n < m \<Longrightarrow> lease_step m Expire (Some (Leased w n)) (Some (Waiting n))"
| expire_dead: "m \<le> n \<Longrightarrow> lease_step m Expire (Some (Leased w n)) (Some Dead)"
| reap: "m \<le> n \<Longrightarrow> lease_step m Reap (Some (Waiting n)) (Some Dead)"
| purge: "l = Published \<or> l = Dead \<Longrightarrow> lease_step m Purge (Some l) None"

inductive_cases lease_step_from_Leased: "lease_step m a (Some (Leased w n)) l"
inductive_cases lease_step_from_Published: "lease_step m a (Some Published) l"
inductive_cases lease_step_from_Dead: "lease_step m a (Some Dead) l"
inductive_simps lease_step_to_Published: "lease_step m a l (Some Published)"

text \<open>No message is leased more than \<open>m\<close> times.\<close>

fun lease_bounded :: "int \<Rightarrow> lease option \<Rightarrow> bool" where
  "lease_bounded m None \<longleftrightarrow> True"
| "lease_bounded m (Some (Waiting n)) \<longleftrightarrow> 0 \<le> n \<and> n \<le> m"
| "lease_bounded m (Some (Leased w n)) \<longleftrightarrow> 1 \<le> n \<and> n \<le> m"
| "lease_bounded m (Some Published) \<longleftrightarrow> True"
| "lease_bounded m (Some Dead) \<longleftrightarrow> True"

lemma lease_step_bounded: "lease_step m a l l' \<Longrightarrow> 0 \<le> m \<Longrightarrow> lease_bounded m l \<Longrightarrow> lease_bounded m l'"
  by (induction rule: lease_step.induct) auto

text \<open>
  The interface the workers rely on: every operation moves each message by a step of the abstract
  queue with the operation's label, or leaves it.
\<close>

locale message_queue =
  fixes view :: "uuid \<Rightarrow> 'd \<Rightarrow> lease option"
    and ok :: "'d \<Rightarrow> bool"
    and ops :: "lease_op \<Rightarrow> ('d \<Rightarrow> 'd) set"
    and m :: int
  assumes refines: "f \<in> ops a \<Longrightarrow> ok d \<Longrightarrow> view i (f d) = view i d \<or> lease_step m a (view i d) (view i (f d))"
    and keeps_ok: "f \<in> ops a \<Longrightarrow> ok d \<Longrightarrow> ok (f d)"
    and max_nonneg: "ok d \<Longrightarrow> 0 \<le> m"
begin

text \<open>A history of operations, each with its label.\<close>

abbreviation history :: "(lease_op \<times> ('d \<Rightarrow> 'd)) list \<Rightarrow> bool" where
  "history h \<equiv> (\<forall>(a, f) \<in> set h. f \<in> ops a)"

abbreviation after :: "(lease_op \<times> ('d \<Rightarrow> 'd)) list \<Rightarrow> 'd \<Rightarrow> 'd" where
  "after h d \<equiv> fold (\<lambda>(a, f). f) h d"

lemma history_ok: "history h \<Longrightarrow> ok d \<Longrightarrow> ok (after h d)"
  by (induction h arbitrary: d) (auto intro: keeps_ok)

lemma history_bounded: "history h \<Longrightarrow> ok d \<Longrightarrow> lease_bounded m (view i d) \<Longrightarrow> lease_bounded m (view i (after h d))"
proof (induction h arbitrary: d)
  case Nil
  then show ?case by simp
next
  case (Cons af h)
  obtain a f where af: "af = (a, f)" by (cases af)
  with Cons.prems have f: "f \<in> ops a" by simp
  have "lease_bounded m (view i (f d))"
    using refines [OF f, of d i] Cons.prems max_nonneg [of d] lease_step_bounded by metis
  with Cons f af keeps_ok [OF f] show ?case by simp
qed

text \<open>A lease ends only by its owner's marks or by expiry.\<close>

lemma lease_kept:
  "history h \<Longrightarrow> ok d \<Longrightarrow> view i d = Some (Leased w n) \<Longrightarrow>
   (\<forall>(a, f) \<in> set h. a \<noteq> Ack w \<and> a \<noteq> Nack w \<and> a \<noteq> Expire) \<Longrightarrow> view i (after h d) = Some (Leased w n)"
proof (induction h arbitrary: d)
  case Nil
  then show ?case by simp
next
  case (Cons af h)
  obtain a f where af: "af = (a, f)" by (cases af)
  with Cons.prems have f: "f \<in> ops a" and a: "a \<noteq> Ack w" "a \<noteq> Nack w" "a \<noteq> Expire" by auto
  have "view i (f d) = Some (Leased w n)"
    using refines [OF f Cons.prems(2), of i] Cons.prems(3) a by (auto elim: lease_step_from_Leased)
  with Cons f af keeps_ok [OF f] show ?case by simp
qed

text \<open>What is published or dead stays so until it is purged.\<close>

lemma end_kept:
  "history h \<Longrightarrow> ok d \<Longrightarrow> view i d = Some l \<Longrightarrow> l = Published \<or> l = Dead \<Longrightarrow>
   (\<forall>(a, f) \<in> set h. a \<noteq> Purge) \<Longrightarrow> view i (after h d) = Some l"
proof (induction h arbitrary: d)
  case Nil
  then show ?case by simp
next
  case (Cons af h)
  obtain a f where af: "af = (a, f)" by (cases af)
  with Cons.prems have f: "f \<in> ops a" and a: "a \<noteq> Purge" by auto
  have "view i (f d) = Some l"
    using refines [OF f Cons.prems(2), of i] Cons.prems(3,4) a
    by (auto elim: lease_step_from_Published lease_step_from_Dead)
  with Cons f af keeps_ok [OF f] show ?case by simp
qed

text \<open>A message becomes published only by an acknowledgement of the worker that leased it.\<close>

lemma published_by_owner:
  "f \<in> ops a \<Longrightarrow> ok d \<Longrightarrow> view i (f d) = Some Published \<Longrightarrow> view i d \<noteq> Some Published \<Longrightarrow>
   \<exists>w n. a = Ack w \<and> view i d = Some (Leased w n)"
  using refines [of f a d i] by (auto simp: lease_step_to_Published)

end

section \<open>The table refines the abstract queue\<close>

definition outbox_row_ok :: "int \<Rightarrow> outbox_row \<Rightarrow> bool" where
  "outbox_row_ok m r \<longleftrightarrow>
     ob_status r \<in> {''pending'', ''processing'', ''processed'', ''dead''} \<and>
     (ob_status r = ''processing'' \<longleftrightarrow> ob_claimed_by r \<noteq> None) \<and>
     (ob_claimed_at r \<noteq> None \<longleftrightarrow> ob_claimed_by r \<noteq> None) \<and>
     (ob_finished_at r \<noteq> None \<longleftrightarrow> ob_status r \<in> {''processed'', ''dead''}) \<and>
     (ob_processed_at r \<noteq> None \<longleftrightarrow> ob_status r = ''processed'') \<and>
     0 \<le> ob_attempts r \<and> (ob_status r = ''pending'' \<longrightarrow> ob_attempts r < m) \<and>
     (ob_status r = ''processing'' \<longrightarrow> 1 \<le> ob_attempts r) \<and> ob_attempts r \<le> m"

definition outbox_ok :: "int \<Rightarrow> db \<Rightarrow> bool" where
  "outbox_ok m d \<longleftrightarrow> 0 < m \<and> unique_key ob_id (outbox_messages d) \<and>
     (\<forall>r \<in> set (outbox_messages d). outbox_row_ok m r)"

definition lease_of :: "outbox_row \<Rightarrow> lease" where
  "lease_of r =
     (if ob_status r = ''processed'' then Published else if ob_status r = ''dead'' then Dead
      else case ob_claimed_by r of None \<Rightarrow> Waiting (ob_attempts r) | Some w \<Rightarrow> Leased w (ob_attempts r))"

definition outbox_view :: "uuid \<Rightarrow> db \<Rightarrow> lease option" where
  "outbox_view i d = map_option lease_of (row_by ob_id i (outbox_messages d))"

text \<open>The operations of the code, by label.\<close>

definition claim_op :: "(uuid \<Rightarrow> bool) \<Rightarrow> int \<Rightarrow> datetime \<Rightarrow> uuid \<Rightarrow> int \<Rightarrow> db \<Rightarrow> db" where
  "claim_op locked limit now w m d =
     (case claim_batch_db locked limit now w m d of Inl _ \<Rightarrow> d | Inr (_, d') \<Rightarrow> d')"

definition insert_op :: "uuid \<Rightarrow> domain_event \<Rightarrow> db \<Rightarrow> db" where
  "insert_op i e d =
     (case insert_row (NewOutbox (outbox_row_of i e)) d of Inl _ \<Rightarrow> d | Inr d' \<Rightarrow> d')"

fun outbox_ops :: "int \<Rightarrow> lease_op \<Rightarrow> (db \<Rightarrow> db) set" where
  "outbox_ops m Insert = {insert_op i e | i e. True}"
| "outbox_ops m (Claim w) = {claim_op locked limit now w m | locked limit now. True}"
| "outbox_ops m (Ack w) = {mark_processed_db ts i w | ts i. True}"
| "outbox_ops m (Nack w) = {mark_publish_failure_db ts i w m next | ts i next. True}"
| "outbox_ops m Expire = {\<lambda>d. snd (release_expired_db ts now timeout m d) | ts now timeout. True}"
| "outbox_ops m Reap = {reap_exhausted_db ts m | ts. True}"
| "outbox_ops m Purge = {purge_processed_db cutoff | cutoff. True}"

lemma update_outbox_refines:
  assumes "outbox_ok m d" and id: "\<And>r. ob_id (f r) = ob_id r"
    and row: "\<And>r. outbox_row_ok m r \<Longrightarrow> P r \<Longrightarrow>
      outbox_row_ok m (f r) \<and> lease_step m a (Some (lease_of r)) (Some (lease_of (f r)))"
  shows "outbox_ok m (update_outbox P f d)"
    and "outbox_view i (update_outbox P f d) = outbox_view i d \<or>
      lease_step m a (outbox_view i d) (outbox_view i (update_outbox P f d))"
proof -
  show "outbox_ok m (update_outbox P f d)"
    using assms by (auto simp: outbox_ok_def update_outbox_def unique_key_update_where set_update_where)
  show "outbox_view i (update_outbox P f d) = outbox_view i d \<or>
      lease_step m a (outbox_view i d) (outbox_view i (update_outbox P f d))"
  proof (cases "row_by ob_id i (outbox_messages d)")
    case None
    then show ?thesis by (simp add: outbox_view_def update_outbox_def row_by_update_where id)
  next
    case (Some r)
    then have "r \<in> set (outbox_messages d)" by (auto dest: row_by_SomeD)
    with assms(1) have "outbox_row_ok m r" by (simp add: outbox_ok_def)
    with Some row [of r] show ?thesis
      by (auto simp: outbox_view_def update_outbox_def row_by_update_where id)
  qed
qed

lemma release_expired_eq:
  "snd (release_expired_db ts now timeout m d) =
     update_outbox (expired (now - timedelta (of_int timeout)))
       (\<lambda>r. if m \<le> ob_attempts r then to_dead ts r else to_pending r) d"
  by (auto simp: release_expired_db_def update_outbox_def update_where_def Let_def expired_def to_dead_def)

lemma claim_op_eq:
  "claim_op locked limit now w m d =
     (if limit < 0 then d
      else update_outbox (\<lambda>r. ob_id r \<in> set (claim_ids locked limit now m d)) (to_claimed now w) d)"
  by (simp add: claim_op_def claim_batch_db_def Let_def)

lemma claim_ids_rows:
  assumes "unique_key ob_id (outbox_messages d)" "r \<in> set (outbox_messages d)"
    "ob_id r \<in> set (claim_ids locked limit now m d)"
  shows "claimable now m r \<and> \<not> locked (ob_id r)"
proof -
  let ?q = "sort_key claim_key_of (filter (\<lambda>r. claimable now m r \<and> \<not> locked (ob_id r)) (outbox_messages d))"
  from assms(3) have "ob_id r \<in> ob_id ` set (take (nat limit) ?q)" by (simp only: claim_ids_def set_map)
  then obtain r' where "r' \<in> set (take (nat limit) ?q)" and id: "ob_id r' = ob_id r"
    by (elim imageE) (rule that, simp_all only:)
  then have "r' \<in> set ?q" by (blast dest: in_set_takeD)
  then have "r' \<in> set (outbox_messages d)" "claimable now m r'" "\<not> locked (ob_id r')" by simp_all
  with unique_key_eq [OF assms(1), of r r'] assms(2) id show ?thesis by simp
qed

lemma update_where_cong:
  "(\<And>r. r \<in> set t \<Longrightarrow> P r = Q r) \<Longrightarrow> update_where P f t = update_where Q f t"
  by (auto simp: update_where_def)

lemma claim_op_refines:
  assumes ok: "outbox_ok m d"
  shows "outbox_ok m (claim_op locked limit now w m d) \<and>
    (outbox_view i (claim_op locked limit now w m d) = outbox_view i d \<or>
     lease_step m (Claim w) (outbox_view i d) (outbox_view i (claim_op locked limit now w m d)))"
proof (cases "limit < 0")
  case True
  with ok show ?thesis by (simp add: claim_op_eq)
next
  case False
  let ?ids = "set (claim_ids locked limit now m d)"
  have eq: "claim_op locked limit now w m d =
      update_outbox (\<lambda>r. ob_id r \<in> ?ids \<and> claimable now m r) (to_claimed now w) d"
  proof -
    have "update_where (\<lambda>r. ob_id r \<in> ?ids) (to_claimed now w) (outbox_messages d) =
        update_where (\<lambda>r. ob_id r \<in> ?ids \<and> claimable now m r) (to_claimed now w) (outbox_messages d)"
      by (rule update_where_cong) (use ok claim_ids_rows in \<open>unfold outbox_ok_def, blast\<close>)
    with False show ?thesis by (simp add: claim_op_eq update_outbox_def)
  qed
  have row: "outbox_row_ok m (to_claimed now w r) \<and>
      lease_step m (Claim w) (Some (lease_of r)) (Some (lease_of (to_claimed now w r)))"
    if "outbox_row_ok m r" "ob_id r \<in> ?ids \<and> claimable now m r" for r
    using that by (auto simp: outbox_row_ok_def claimable_def to_claimed_def lease_of_def intro: lease_step.claim)
  have id: "ob_id (to_claimed now w r) = ob_id r" for r by (simp add: to_claimed_def)
  show ?thesis
    unfolding eq by (intro conjI update_outbox_refines [OF ok id]) (use row in blast)+
qed

lemma outbox_op_cases:
  assumes "f \<in> outbox_ops m a"
  obtains (insert) i e where "a = Insert" "f = insert_op i e"
  | (claim) w locked limit now where "a = Claim w" "f = claim_op locked limit now w m"
  | (ack) w ts i where "a = Ack w" "f = mark_processed_db ts i w"
  | (nack) w ts i due_at where "a = Nack w" "f = mark_publish_failure_db ts i w m due_at"
  | (expire) ts now timeout where "a = Expire" "f = (\<lambda>d. snd (release_expired_db ts now timeout m d))"
  | (reap) ts where "a = Reap" "f = reap_exhausted_db ts m"
  | (purge) cutoff where "a = Purge" "f = purge_processed_db cutoff"
  using assms by (cases a) auto

lemma insert_op_refines:
  assumes ok: "outbox_ok m d"
  shows "outbox_ok m (insert_op j e d) \<and>
    (outbox_view i (insert_op j e d) = outbox_view i d \<or>
     lease_step m Insert (outbox_view i d) (outbox_view i (insert_op j e d)))"
proof (cases "outbox_row_check d (outbox_row_of j e)")
  case (Inl x)
  with ok show ?thesis by (simp add: insert_op_def)
next
  case (Inr u)
  then have fresh: "row_by ob_id j (outbox_messages d) = None"
    by (auto simp: outbox_row_check_def outbox_row_of_def res_simps split: if_splits)
  have eq: "insert_op j e d = d\<lparr>outbox_messages := outbox_messages d @ [outbox_row_of j e]\<rparr>"
    using Inr by (simp add: insert_op_def)
  have "outbox_row_ok m (outbox_row_of j e)"
    using ok by (simp add: outbox_row_ok_def outbox_row_of_def outbox_ok_def)
  with ok fresh have "outbox_ok m (insert_op j e d)"
    by (auto simp: eq outbox_ok_def unique_key_snoc outbox_row_of_def)
  moreover have "outbox_view i (insert_op j e d) =
      (if i = j then Some (Waiting 0) else outbox_view i d)"
    using fresh by (auto simp: eq outbox_view_def row_by_append outbox_row_of_def lease_of_def split: option.split)
  moreover have "outbox_view j d = None" using fresh by (simp add: outbox_view_def)
  ultimately show ?thesis by (auto intro: lease_step.insert)
qed

lemma purge_refines:
  assumes ok: "outbox_ok m d"
  shows "outbox_ok m (purge_processed_db cutoff d) \<and>
    (outbox_view i (purge_processed_db cutoff d) = outbox_view i d \<or>
     lease_step m Purge (outbox_view i d) (outbox_view i (purge_processed_db cutoff d)))"
proof -
  let ?t = "outbox_messages d"
  have uniq: "unique_key ob_id ?t" using ok by (simp add: outbox_ok_def)
  have "unique_key ob_id (filter P ?t)" for P using uniq by (simp add: unique_key_def distinct_map_filter)
  with ok have ok': "outbox_ok m (purge_processed_db cutoff d)"
    by (auto simp: outbox_ok_def purge_processed_db_def)
  have row: "row_by ob_id i (filter P t) = (case row_by ob_id i t of None \<Rightarrow> None
      | Some r \<Rightarrow> if P r then Some r else None)" if "unique_key ob_id t" for P t
    using that
  proof (induction t)
    case (Cons a t)
    then have "ob_id x \<noteq> ob_id a" if "x \<in> set t" for x using that by (auto simp: unique_key_def image_iff)
    then have "row_by ob_id (ob_id a) t = None" "row_by ob_id (ob_id a) (filter P t) = None"
      by (auto simp: row_by_None_iff)
    with Cons show ?case by (auto simp: unique_key_def split: option.split)
  qed simp
  show ?thesis
  proof (cases "row_by ob_id i ?t")
    case None
    with ok' show ?thesis by (simp add: outbox_view_def purge_processed_db_def row [OF uniq])
  next
    case (Some r)
    show ?thesis
    proof (cases "purgeable cutoff r")
      case False
      with ok' Some show ?thesis by (simp add: outbox_view_def purge_processed_db_def row [OF uniq])
    next
      case True
      then have "lease_of r = Published \<or> lease_of r = Dead" by (auto simp: purgeable_def lease_of_def)
      with ok' Some True show ?thesis
        by (auto simp: outbox_view_def purge_processed_db_def row [OF uniq] intro: lease_step.purge)
    qed
  qed
qed

lemma outbox_op_refines:
  assumes f: "f \<in> outbox_ops m a" and ok: "outbox_ok m d"
  shows "outbox_ok m (f d) \<and>
    (outbox_view i (f d) = outbox_view i d \<or> lease_step m a (outbox_view i d) (outbox_view i (f d)))"
  using f
proof (cases rule: outbox_op_cases)
  case (insert j e)
  then show ?thesis using insert_op_refines [OF ok] by simp
next
  case (claim w locked limit now)
  then show ?thesis using claim_op_refines [OF ok] by simp
next
  case (ack w ts j)
  show ?thesis unfolding ack mark_processed_db_def
    by (intro conjI update_outbox_refines [OF ok])
      (auto simp: to_processed_def outbox_row_ok_def owned_def lease_of_def intro: lease_step.ack)
next
  case (nack w ts j due_at)
  show ?thesis unfolding nack mark_publish_failure_db_def
    by (intro conjI update_outbox_refines [OF ok])
      (auto simp: after_failure_def Let_def outbox_row_ok_def owned_def lease_of_def
        intro: lease_step.nack lease_step.give_up)
next
  case (expire ts now timeout)
  show ?thesis unfolding expire release_expired_eq
    by (intro conjI update_outbox_refines [OF ok])
      (auto simp: to_dead_def to_pending_def outbox_row_ok_def expired_def lease_of_def
        intro: lease_step.expire lease_step.expire_dead split: option.splits)
next
  case (reap ts)
  show ?thesis unfolding reap reap_exhausted_db_def
    by (intro conjI update_outbox_refines [OF ok])
      (auto simp: to_reaped_def outbox_row_ok_def lease_of_def intro: lease_step.reap)
next
  case (purge cutoff)
  then show ?thesis using purge_refines [OF ok] by simp
qed

interpretation ob: message_queue outbox_view "outbox_ok m" "outbox_ops m" m for m
proof unfold_locales
  show "outbox_view i (f d) = outbox_view i d \<or> lease_step m a (outbox_view i d) (outbox_view i (f d))"
    if "f \<in> outbox_ops m a" "outbox_ok m d" for f a d i
    using outbox_op_refines [OF that] by blast
  show "outbox_ok m (f d)" if "f \<in> outbox_ops m a" "outbox_ok m d" for f a d
    using outbox_op_refines [OF that] by blast
  show "0 \<le> m" if "outbox_ok m d" for d using that by (simp add: outbox_ok_def)
qed

section \<open>Properties\<close>

text \<open>
  Property C11. Refinement: every operation of the outbox repository and the insertion of an event
  moves each message by a step of the abstract queue (new messages wait; only a waiting message
  with attempts left is leased; only the leasing worker marks it; leases expire; what has used
  all attempts is dead; only ended messages are purged), or leaves it, and keeps the rows
  consistent.
\<close>

theorem outbox_refines_queue:
  assumes "f \<in> outbox_ops m a" and "outbox_ok m d"
  shows "outbox_ok m (f d) \<and>
    (outbox_view i (f d) = outbox_view i d \<or> lease_step m a (outbox_view i d) (outbox_view i (f d)))"
  using ob.refines [OF assms] ob.keeps_ok [OF assms] by blast

definition demo_message :: outbox_row where
  "demo_message = \<lparr>ob_id = 10, ob_event_type = ''PaymentCreated'', ob_aggregate_id = 1, ob_payload = [],
     ob_correlation_id = None, ob_attempts = 0, ob_status = ''pending'', ob_created_at = 100,
     ob_next_retry_at = None, ob_claimed_at = None, ob_claimed_by = None, ob_processed_at = None,
     ob_finished_at = None\<rparr>"

definition demo_outbox_db :: db where
  "demo_outbox_db = empty_db\<lparr>outbox_messages := [demo_message]\<rparr>"

lemma demo_outbox_ok: "0 < m \<Longrightarrow> outbox_ok m demo_outbox_db"
  by (simp add: outbox_ok_def demo_outbox_db_def unique_key_def outbox_row_ok_def demo_message_def)

lemma demo_claim:
  "claim_op (\<lambda>_. False) 10 200 7 5 demo_outbox_db =
     empty_db\<lparr>outbox_messages := [demo_message\<lparr>ob_status := ''processing'', ob_claimed_at := Some 200,
       ob_claimed_by := Some 7, ob_attempts := 1\<rparr>]\<rparr>"
  by (simp add: claim_op_eq claim_ids_def demo_outbox_db_def claimable_def update_outbox_def to_claimed_def
      demo_message_def)

theorem outbox_refines_queue_witness:
  "outbox_view 10 demo_outbox_db = Some (Waiting 0) \<and>
   outbox_view 10 (claim_op (\<lambda>_. False) 10 200 7 5 demo_outbox_db) = Some (Leased 7 1) \<and>
   outbox_ok 5 (claim_op (\<lambda>_. False) 10 200 7 5 demo_outbox_db)"
proof -
  have "claim_op (\<lambda>_. False) 10 200 7 5 \<in> outbox_ops 5 (Claim 7)" by auto
  moreover have "outbox_ok 5 demo_outbox_db" by (simp add: demo_outbox_ok)
  ultimately have "outbox_ok 5 (claim_op (\<lambda>_. False) 10 200 7 5 demo_outbox_db)"
    using outbox_refines_queue by blast
  moreover have "outbox_view 10 demo_outbox_db = Some (Waiting 0)"
    by (simp add: outbox_view_def demo_outbox_db_def demo_message_def lease_of_def)
  ultimately show ?thesis
    by (simp add: demo_claim) (simp add: outbox_view_def demo_message_def lease_of_def)
qed

text \<open>
  Bounded work: whatever the outbox operations do, in any order and by any number of
  workers under the limit \<open>m\<close>, no message is ever leased, and so published, more than \<open>m\<close> times, a
  waiting message always has an attempt left, and exactly the leased messages carry an owner.
\<close>

theorem outbox_attempts_bounded:
  assumes "outbox_ok m d" and "\<forall>(a, f) \<in> set h. f \<in> outbox_ops m a"
  shows "\<forall>r \<in> set (outbox_messages (fold (\<lambda>(a, f). f) h d)). ob_attempts r \<le> m \<and>
    (ob_status r = ''pending'' \<longrightarrow> ob_attempts r < m) \<and>
    (ob_status r = ''processing'' \<longleftrightarrow> ob_claimed_by r \<noteq> None) \<and>
    (ob_finished_at r \<noteq> None \<longleftrightarrow> ob_status r \<in> {''processed'', ''dead''})"
proof -
  have "outbox_ok m (fold (\<lambda>(a, f). f) h d)" by (rule ob.history_ok [OF assms(2,1)])
  then show ?thesis by (auto simp: outbox_ok_def outbox_row_ok_def)
qed

theorem outbox_attempts_bounded_witness:
  "list_all (\<lambda>r. ob_attempts r \<le> 1) (outbox_messages (fold (\<lambda>(a, f). f)
       [(Claim 7, claim_op (\<lambda>_. False) 10 200 7 1), (Nack 7, mark_publish_failure_db 300 10 7 1 (Some 400)),
        (Claim 8, claim_op (\<lambda>_. False) 10 500 8 1)] demo_outbox_db))"
proof -
  let ?h = "[(Claim 7, claim_op (\<lambda>_. False) 10 200 7 1), (Nack 7, mark_publish_failure_db 300 10 7 1 (Some 400)),
        (Claim 8, claim_op (\<lambda>_. False) 10 500 8 1)]"
  have "\<forall>(a, f) \<in> set ?h. f \<in> outbox_ops 1 a" by auto
  from outbox_attempts_bounded [OF demo_outbox_ok this] show ?thesis unfolding list_all_iff by simp
qed

text \<open>
  A lease belongs to its worker: as long as worker \<open>w\<close> neither marks the message nor
  lets its lease expire, the message stays leased by \<open>w\<close> whatever all the other workers do
  (claim, mark, reap, purge), and a message becomes published only when the worker that leases it
  marks it.
\<close>

theorem outbox_lease_owned:
  assumes "outbox_ok m d" and "outbox_view i d = Some (Leased w n)"
    and "\<forall>(a, f) \<in> set h. f \<in> outbox_ops m a \<and> a \<noteq> Ack w \<and> a \<noteq> Nack w \<and> a \<noteq> Expire"
    and "f \<in> outbox_ops m a"
  shows "outbox_view i (fold (\<lambda>(a, f). f) h d) = Some (Leased w n) \<and>
    (outbox_view i (f d) = Some Published \<longrightarrow> a = Ack w)"
proof -
  have h: "\<forall>(a, f) \<in> set h. f \<in> outbox_ops m a"
    "\<forall>(a, f) \<in> set h. a \<noteq> Ack w \<and> a \<noteq> Nack w \<and> a \<noteq> Expire" using assms(3) by auto
  have "outbox_view i (fold (\<lambda>(a, f). f) h d) = Some (Leased w n)"
    by (rule ob.lease_kept [OF h(1) assms(1,2) h(2)])
  moreover have "a = Ack w" if "outbox_view i (f d) = Some Published"
    using ob.published_by_owner [OF assms(4,1) that] assms(2) by auto
  ultimately show ?thesis by blast
qed

theorem outbox_lease_owned_witness:
  "outbox_view 10 (fold (\<lambda>(a, f). f) [(Claim 8, claim_op (\<lambda>_. False) 10 500 8 5),
       (Ack 8, mark_processed_db 600 10 8)] (claim_op (\<lambda>_. False) 10 200 7 5 demo_outbox_db)) = Some (Leased 7 1)"
proof -
  let ?d = "claim_op (\<lambda>_. False) 10 200 7 5 demo_outbox_db"
  let ?h = "[(Claim 8, claim_op (\<lambda>_. False) 10 500 8 5), (Ack 8, mark_processed_db 600 10 8)]"
  have ok: "outbox_ok 5 ?d" using outbox_op_refines [of "claim_op (\<lambda>_. False) 10 200 7 5" 5 "Claim 7" demo_outbox_db]
    by (auto simp: demo_outbox_ok)
  have v: "outbox_view 10 ?d = Some (Leased 7 1)"
    by (simp add: demo_claim outbox_view_def demo_message_def lease_of_def)
  have h: "\<forall>(a, f) \<in> set ?h. f \<in> outbox_ops 5 a \<and> a \<noteq> Ack 7 \<and> a \<noteq> Nack 7 \<and> a \<noteq> Expire" by auto
  have "reap_exhausted_db 0 5 \<in> outbox_ops 5 Reap" by auto
  from outbox_lease_owned [OF ok v h this] show ?thesis by blast
qed

lemma claim_batch_Inr:
  assumes ok: "outbox_ok m d" and run: "claim_batch_db locked limit now w m d = Inr (ms, d')"
  shows "0 \<le> limit" and "d' = claim_op locked limit now w m d"
    and "x \<in> set ms \<Longrightarrow> \<exists>r \<in> set (outbox_messages d). claimable now m r \<and> \<not> locked (ob_id r) \<and>
      ob_id r \<in> set (claim_ids locked limit now m d) \<and> x = outbox_to_domain (to_claimed now w r)"
    and "length ms \<le> nat limit"
proof -
  let ?ids = "claim_ids locked limit now m d"
  from run show lim: "0 \<le> limit" by (auto simp: claim_batch_db_def split: if_splits)
  from run show d': "d' = claim_op locked limit now w m d" by (simp add: claim_op_def)
  have out: "outbox_messages d' =
      update_where (\<lambda>r. ob_id r \<in> set ?ids) (to_claimed now w) (outbox_messages d)"
    using lim by (simp add: d' claim_op_eq update_outbox_def)
  have ms: "ms = map outbox_to_domain (filter (\<lambda>r. ob_id r \<in> set ?ids) (outbox_messages d'))"
    using run lim by (auto simp: claim_batch_db_def Let_def)
  have uniq: "unique_key ob_id (outbox_messages d)" using ok by (simp add: outbox_ok_def)
  show "\<exists>r \<in> set (outbox_messages d). claimable now m r \<and> \<not> locked (ob_id r) \<and>
      ob_id r \<in> set ?ids \<and> x = outbox_to_domain (to_claimed now w r)" if x: "x \<in> set ms"
  proof -
    from x obtain r' where r': "r' \<in> set (outbox_messages d')" "ob_id r' \<in> set ?ids" "x = outbox_to_domain r'"
      by (auto simp: ms)
    from r'(1) obtain r where r: "r \<in> set (outbox_messages d)"
      "r' = (if ob_id r \<in> set ?ids then to_claimed now w r else r)"
      by (auto simp: out set_update_where)
    then have id: "ob_id r \<in> set ?ids" using r'(2) by (simp add: to_claimed_def split: if_splits)
    show ?thesis
      by (rule bexI [OF _ r(1)]) (use claim_ids_rows [OF uniq r(1) id] id r(2) r'(3) in simp)
  qed
  have "map ob_id (outbox_messages d') = map ob_id (outbox_messages d)"
    unfolding out by (rule map_update_where) (simp add: to_claimed_def)
  then have "distinct (map ob_id (filter (\<lambda>r. ob_id r \<in> set ?ids) (outbox_messages d')))"
    using uniq by (simp add: unique_key_def distinct_map_filter)
  moreover have "set (map ob_id (filter (\<lambda>r. ob_id r \<in> set ?ids) (outbox_messages d'))) \<subseteq> set ?ids" by auto
  ultimately have "length (map ob_id (filter (\<lambda>r. ob_id r \<in> set ?ids) (outbox_messages d'))) \<le> card (set ?ids)"
    by (metis List.finite_set card_mono distinct_card)
  also have "\<dots> \<le> length ?ids" by (rule card_length)
  also have "\<dots> \<le> nat limit" by (simp add: claim_ids_def)
  finally show "length ms \<le> nat limit" by (simp add: ms)
qed

lemma claim_batch_view:
  assumes ok: "outbox_ok m d" and run: "claim_batch_db locked limit now w m d = Inr (ms, d')"
  shows "outbox_ok m d'" and "distinct (map om_id ms)"
    and "x \<in> set ms \<Longrightarrow> outbox_view (om_id x) d' = Some (Leased w (om_attempts x))"
proof -
  note A = claim_batch_Inr [OF assms]
  show ok': "outbox_ok m d'" unfolding A(2) using claim_op_refines [OF ok] by blast
  let ?ids = "claim_ids locked limit now m d"
  have ms: "ms = map outbox_to_domain (filter (\<lambda>r. ob_id r \<in> set ?ids) (outbox_messages d'))"
    using run A(1) by (auto simp: claim_batch_db_def Let_def)
  have id: "om_id \<circ> outbox_to_domain = ob_id" by (auto simp: outbox_to_domain_def)
  show "distinct (map om_id ms)"
    using ok' by (simp add: ms id outbox_ok_def unique_key_def distinct_map_filter)
  show "outbox_view (om_id x) d' = Some (Leased w (om_attempts x))" if x: "x \<in> set ms"
  proof -
    from A(3) [OF x] obtain r where r: "r \<in> set (outbox_messages d)" "claimable now m r"
      "ob_id r \<in> set ?ids" "x = outbox_to_domain (to_claimed now w r)" by blast
    have "to_claimed now w r \<in> set (outbox_messages d')"
      using A(1) r by (auto simp: A(2) claim_op_eq update_outbox_def set_update_where)
    then have "row_by ob_id (ob_id (to_claimed now w r)) (outbox_messages d') = Some (to_claimed now w r)"
      using ok' by (intro row_by_unique) (simp_all add: outbox_ok_def)
    then show ?thesis
      by (simp add: outbox_view_def r(4) outbox_to_domain_def) (simp add: to_claimed_def lease_of_def)
  qed
qed

text \<open>
  Property C19. Competing workers split the outbox: a claim returns at most \<open>limit\<close> messages, each
  now leased by the claiming worker within the attempt limit, and no second claim returns one of
  them, whether it runs after the first has committed or at the same time, with the first one's
  rows locked.
\<close>

theorem claim_batches_disjoint:
  assumes "outbox_ok m d" and "claim_batch_db lockedA limitA nowA wA m d = Inr (ms, dA)"
  shows "int (length ms) \<le> limitA \<and>
    (\<forall>x \<in> set ms. om_status x = ''processing'' \<and> om_claimed_by x = Some wA \<and>
       1 \<le> om_attempts x \<and> om_attempts x \<le> m) \<and>
    (claim_batch_db lockedB limitB nowB wB m dA = Inr (ms', dB) \<or>
     claim_batch_db lockedB limitB nowB wB m d = Inr (ms', dB) \<and> (\<forall>x \<in> set ms. lockedB (om_id x)) \<longrightarrow>
       om_id ` set ms \<inter> om_id ` set ms' = {})"
proof -
  note A = claim_batch_Inr [OF assms]
  have mine: "om_status x = ''processing'' \<and> om_claimed_by x = Some wA \<and> 1 \<le> om_attempts x \<and> om_attempts x \<le> m"
    if x: "x \<in> set ms" for x
  proof -
    from A(3) [OF x] obtain r where "r \<in> set (outbox_messages d)" "claimable nowA m r"
      "x = outbox_to_domain (to_claimed nowA wA r)" by blast
    moreover with assms(1) have "outbox_row_ok m r" by (simp add: outbox_ok_def)
    ultimately show ?thesis
      by (auto simp: outbox_row_ok_def claimable_def to_claimed_def outbox_to_domain_def)
  qed
  have later: "om_id x \<noteq> om_id y"
    if run: "claim_batch_db lockedB limitB nowB wB m dA = Inr (ms', dB)" and x: "x \<in> set ms" and y: "y \<in> set ms'" for x y
  proof
    assume same: "om_id x = om_id y"
    have okA: "outbox_ok m dA" unfolding A(2) using claim_op_refines [OF assms(1)] by blast
    from A(3) [OF x] obtain r where r: "r \<in> set (outbox_messages d)"
      "ob_id r \<in> set (claim_ids lockedA limitA nowA m d)" "x = outbox_to_domain (to_claimed nowA wA r)" by blast
    then have inA: "to_claimed nowA wA r \<in> set (outbox_messages dA)"
      using A(1) by (auto simp: A(2) claim_op_eq update_outbox_def set_update_where)
    from claim_batch_Inr(3) [OF okA run y] obtain q where q: "q \<in> set (outbox_messages dA)"
      "claimable nowB m q" "y = outbox_to_domain (to_claimed nowB wB q)" by blast
    have uniq: "unique_key ob_id (outbox_messages dA)" using okA by (simp add: outbox_ok_def)
    have "ob_id q = ob_id (to_claimed nowA wA r)"
      using same unfolding r(3) q(3) by (simp add: outbox_to_domain_def to_claimed_def)
    from unique_key_eq [OF uniq q(1) inA this] q(2) show False
      by (simp add: claimable_def to_claimed_def)
  qed
  have same_time: "om_id x \<noteq> om_id y"
    if run: "claim_batch_db lockedB limitB nowB wB m d = Inr (ms', dB)" and lock: "\<forall>x \<in> set ms. lockedB (om_id x)"
      and x: "x \<in> set ms" and y: "y \<in> set ms'" for x y
    using claim_batch_Inr(3) [OF assms(1) run y] lock x by (auto simp: outbox_to_domain_def to_claimed_def)
  have disjoint: "om_id ` set ms \<inter> om_id ` set ms' = {}"
    if "\<And>x y. x \<in> set ms \<Longrightarrow> y \<in> set ms' \<Longrightarrow> om_id x \<noteq> om_id y"
    using that by blast
  have "int (length ms) \<le> limitA" using A(1,4) by linarith
  then show ?thesis
  proof (intro conjI ballI impI)
    show "om_id ` set ms \<inter> om_id ` set ms' = {}"
      if "claim_batch_db lockedB limitB nowB wB m dA = Inr (ms', dB) \<or>
        claim_batch_db lockedB limitB nowB wB m d = Inr (ms', dB) \<and> (\<forall>x \<in> set ms. lockedB (om_id x))"
      using that
    proof
      assume "claim_batch_db lockedB limitB nowB wB m dA = Inr (ms', dB)"
      then show ?thesis by (intro disjoint later)
    next
      assume "claim_batch_db lockedB limitB nowB wB m d = Inr (ms', dB) \<and> (\<forall>x \<in> set ms. lockedB (om_id x))"
      then show ?thesis by (intro disjoint same_time) simp_all
    qed
  qed (use mine in simp_all)
qed

theorem claim_batches_disjoint_witness:
  "\<exists>ms dA ms' dB. claim_batch_db (\<lambda>_. False) 10 200 7 5 demo_outbox_db = Inr (ms, dA) \<and> map om_id ms = [10] \<and>
     claim_batch_db (\<lambda>_. False) 10 300 8 5 dA = Inr (ms', dB) \<and> om_id ` set ms \<inter> om_id ` set ms' = {}"
proof -
  have ok: "outbox_ok 5 demo_outbox_db" by (simp add: demo_outbox_ok)
  obtain ms dA where A: "claim_batch_db (\<lambda>_. False) 10 200 7 5 demo_outbox_db = Inr (ms, dA)"
    by (simp add: claim_batch_db_def Let_def)
  have "claim_ids (\<lambda>_. False) 10 200 5 demo_outbox_db = [10]"
    by (simp add: claim_ids_def demo_outbox_db_def demo_message_def claimable_def)
  then have "map om_id ms = [10]"
    using A by (simp add: claim_batch_db_def Let_def demo_outbox_db_def)
      (auto simp add: demo_message_def update_outbox_def to_claimed_def outbox_to_domain_def)
  moreover obtain ms' dB where B: "claim_batch_db (\<lambda>_. False) 10 300 8 5 dA = Inr (ms', dB)"
    by (simp add: claim_batch_db_def Let_def)
  moreover have "om_id ` set ms \<inter> om_id ` set ms' = {}"
    using claim_batches_disjoint [OF ok A, where lockedB = "\<lambda>_. False" and limitB = 10 and nowB = 300
        and wB = 8 and ms' = ms' and dB = dB] B by (simp only: simp_thms)
  ultimately show ?thesis using A by metis
qed

end
