(* ===== verification/System.thy ===== *)
theory System
  imports GetPayment ProcessPayment DeliverWebhooks OutboxRepo
begin

text \<open>
  The handlers and workers together. Every committed transaction of the program, from any process
  and in any order, is a step on the tables: creating a payment, processing one (its first read may
  be arbitrarily old), delivering webhooks, reading, and the operations of the outbox. The
  invariant relates the tables to each other: which attempts, deliveries and messages belong to a
  payment in each of its states.
\<close>

section \<open>The invariant\<close>

text \<open>The columns of the other tables that tie their rows to a payment.\<close>

definition attempt_links :: "uuid \<Rightarrow> db \<Rightarrow> (int \<times> string) list" where
  "attempt_links i d =
     map (\<lambda>a. (ar_attempt_number a, ar_status a)) (filter (\<lambda>a. ar_payment_id a = i) (payment_attempts d))"

definition delivery_keys :: "db \<Rightarrow> (uuid \<times> uuid \<times> string) list" where
  "delivery_keys d = map (\<lambda>w. (wr_id w, wr_payment_id w, wr_event_type w)) (webhook_deliveries d)"

definition delivery_links :: "uuid \<Rightarrow> db \<Rightarrow> string list" where
  "delivery_links i d = map (\<lambda>(_, _, t). t) (filter (\<lambda>(_, j, _). j = i) (delivery_keys d))"

text \<open>What a message says: the payment it is about, and the fields no step of the outbox changes.\<close>

type_synonym message_info = "uuid \<times> string \<times> pydict \<times> string option"

definition message_key :: "outbox_row \<Rightarrow> message_info" where
  "message_key m = (ob_aggregate_id m, ob_event_type m, ob_payload m, ob_correlation_id m)"

definition message_keys :: "db \<Rightarrow> message_info list" where
  "message_keys d = map message_key (outbox_messages d)"

fun message_ok :: "message_info \<Rightarrow> bool" where
  "message_ok (i, t, body, co) \<longleftrightarrow>
     t = ''PaymentCreated'' \<and> dict_get ''event_type'' body = Some (VStr t) \<and>
     dict_get ''aggregate_id'' body = Some (VStr (uuid_str i)) \<and>
     dict_get ''correlation_id'' body = Some (opt_str co) \<and> varchar_opt 64 co \<and> text_opt co"

definition payment_story :: "db \<Rightarrow> payment_row \<Rightarrow> bool" where
  "payment_story d p \<longleftrightarrow>
     is_ok (payment_to_domain p) \<and>
     (if pr_status p = ''pending'' then
        pr_version p = 0 \<and> pr_processed_at p = None \<and>
        attempt_links (pr_id p) d = [] \<and> delivery_links (pr_id p) d = []
      else
        pr_status p \<in> {''succeeded'', ''failed''} \<and> pr_version p = 2 \<and> pr_processed_at p \<noteq> None \<and>
        attempt_links (pr_id p) d = [(1, pr_status p)] \<and>
        delivery_links (pr_id p) d = [''payment.'' @ pr_status p])"

definition system_ok :: "int \<Rightarrow> db \<Rightarrow> bool" where
  "system_ok m d \<longleftrightarrow>
     unique_key pr_id (payments d) \<and> unique_key pr_idempotency_key (payments d) \<and>
     (\<forall>p \<in> set (payments d). payment_story d p) \<and>
     unique_key ar_id (payment_attempts d) \<and>
     (\<forall>a \<in> set (payment_attempts d). ar_payment_id a \<in> pr_id ` set (payments d) \<and> attempt_row_ok a) \<and>
     distinct (map fst (delivery_keys d)) \<and>
     (\<forall>(_, i, _) \<in> set (delivery_keys d). i \<in> pr_id ` set (payments d)) \<and>
     outbox_ok m d \<and> distinct (map fst (message_keys d)) \<and>
     (\<forall>k \<in> set (message_keys d). fst k \<in> pr_id ` set (payments d) \<and> message_ok k)"

lemma system_ok_empty: "0 < m \<Longrightarrow> system_ok m empty_db"
  by (simp add: system_ok_def empty_db_def unique_key_def delivery_keys_def message_keys_def outbox_ok_def)

lemma system_ids: "system_ok m d \<Longrightarrow> ids_unique d"
  by (simp add: system_ok_def ids_unique_def)

lemma delivery_keys_links: "delivery_keys d' = delivery_keys d \<Longrightarrow> delivery_links i d' = delivery_links i d"
  by (simp add: delivery_links_def)

text \<open>A step that leaves payments and attempts and the keys of the other two tables.\<close>

lemma system_ok_keys:
  assumes "system_ok m d" and "payments d' = payments d" "payment_attempts d' = payment_attempts d"
    and "delivery_keys d' = delivery_keys d" "outbox_ok m d'"
    and "distinct (map fst (message_keys d'))" "set (message_keys d') \<subseteq> set (message_keys d)"
  shows "system_ok m d'"
proof -
  have "attempt_links i d' = attempt_links i d" for i by (simp add: attempt_links_def assms(3))
  then have "payment_story d' p = payment_story d p" for p
    by (simp add: payment_story_def delivery_keys_links [OF assms(4)])
  with assms show ?thesis by (auto simp: system_ok_def)
qed

lemma system_no_links:
  assumes ok: "system_ok m d" and i: "i \<notin> pr_id ` set (payments d)"
  shows "attempt_links i d = []" and "delivery_links i d = []"
proof -
  have "ar_payment_id a \<in> pr_id ` set (payments d)" if "a \<in> set (payment_attempts d)" for a
    using ok that unfolding system_ok_def by blast
  with i show "attempt_links i d = []" by (simp only: attempt_links_def) (simp add: filter_empty_conv, metis)
  have "fst (snd k) \<in> pr_id ` set (payments d)" if "k \<in> set (delivery_keys d)" for k
  proof -
    have "\<forall>(_, j, _) \<in> set (delivery_keys d). j \<in> pr_id ` set (payments d)"
      using ok unfolding system_ok_def by (elim conjE)
    from bspec [OF this that] show ?thesis by (simp add: split_beta)
  qed
  with i have "fst (snd k) \<noteq> i" if "k \<in> set (delivery_keys d)" for k using that by metis
  then show "delivery_links i d = []"
    by (fastforce simp: delivery_links_def filter_empty_conv)
qed

section \<open>Creating a payment\<close>

lemma create_payment_cases:
  assumes "create_payment env c d = (Inr dto, d')"
  obtains (replayed) "d' = d"
  | (created) k mo r where "command_values c = Inr (k, mo)" "dto = from_payment (new_payment env c k mo) None"
      "payment_row_check (payment_values (new_payment env c k mo)) = Inr r"
      "row_by pr_idempotency_key (cc_idempotency_key c) (payments d) = None"
      "row_by pr_id (ce_payment_id env) (payments d) = None"
      "outbox_row_check (d\<lparr>payments := payments d @ [r]\<rparr>) (created_row env (new_payment env c k mo)) = Inr ()"
      "d' = d\<lparr>payments := payments d @ [r],
              outbox_messages := outbox_messages d @ [created_row env (new_payment env c k mo)]\<rparr>"
proof (cases "command_values c")
  case (Inl e)
  with assms show thesis by (simp add: create_payment_invalid)
next
  case (Inr km)
  then obtain k mo where "command_values c = Inr (k, mo)" by (cases km) auto
  with assms replayed created show thesis
    by (simp add: create_payment_checked [OF _ refl] split: sum.splits option.splits if_splits)
qed

lemma created_message_ok:
  assumes "outbox_row_check d (created_row env (new_payment env c k mo)) = Inr u"
  shows "message_ok (message_key (created_row env (new_payment env c k mo)))"
proof -
  have "varchar_opt 64 (cc_correlation_id c)" "text_opt (cc_correlation_id c)"
    using assms by (auto simp: outbox_row_check_def res_simps created_row_def outbox_row_of_def new_payment_def
        payment_create_def add_event_def split: if_splits)
  then show ?thesis
    by (cases "cc_correlation_id c")
      (simp_all add: message_key_def created_row_def outbox_row_of_def new_payment_def payment_create_def
        add_event_def serialize_event_def base_fields_def dict_set_def dict_get_def opt_str_def)
qed

lemma system_ok_create:
  assumes ok: "system_ok m d" and run: "create_payment env c d = (Inr dto, d')"
  shows "system_ok m d'"
  using run
proof (cases rule: create_payment_cases)
  case replayed
  with ok show ?thesis by simp
next
  case (created k mo r)
  let ?p = "new_payment env c k mo" and ?i = "ce_payment_id env"
  have p: "payment_ok ?p" "key_value k = cc_idempotency_key c" using command_values_ok [OF created(1)] by auto
  from payment_row_check_Inr [OF p(1) created(3)]
  have r: "r = payment_values (?p\<lparr>p_money := stored_money (p_money ?p)\<rparr>)" "is_ok (payment_to_domain r)" by auto
  then have cols: "pr_id r = ?i" "pr_status r = ''pending''" "pr_version r = 0" "pr_processed_at r = None"
    "pr_idempotency_key r = cc_idempotency_key c"
    by (simp_all add: payment_values_def p(2))
  have i: "?i \<notin> pr_id ` set (payments d)" using created(5) by (auto simp: row_by_None_iff)
  have links: "attempt_links j d' = attempt_links j d" "delivery_keys d' = delivery_keys d" for j
    by (simp_all add: created(7) attempt_links_def delivery_keys_def)
  have none: "attempt_links ?i d = []" "delivery_links ?i d = []"
    by (rule system_no_links [OF ok i])+
  have story: "payment_story d' q = payment_story d q" for q
    by (simp add: payment_story_def links(1) delivery_keys_links [OF links(2)])
  have "payment_story d r" using r(2) cols none by (simp add: payment_story_def)
  moreover have "outbox_ok m d'"
  proof -
    have "row_by ob_id (ob_id (created_row env ?p)) (outbox_messages d) = None"
      using created(6) by (auto simp: outbox_row_check_def res_simps split: if_splits)
    moreover have "outbox_row_ok m (created_row env ?p)"
      using ok by (simp add: outbox_row_ok_def created_row_def outbox_row_of_def system_ok_def outbox_ok_def)
    ultimately show ?thesis using ok by (simp add: created(7) outbox_ok_def unique_key_snoc system_ok_def)
  qed
  moreover have "?i \<notin> fst ` set (message_keys d)" using ok i by (auto simp: system_ok_def)
  moreover have "message_keys d' = message_keys d @ [message_key (created_row env ?p)]"
    by (simp add: created(7) message_keys_def)
  moreover have "fst (message_key (created_row env ?p)) = ?i" by (simp add: message_key_def)
  moreover have "message_ok (message_key (created_row env ?p))" by (rule created_message_ok [OF created(6)])
  moreover have "payments d' = payments d @ [r]" "payment_attempts d' = payment_attempts d" by (simp_all add: created(7))
  moreover have "unique_key pr_id (payments d @ [r])" "unique_key pr_idempotency_key (payments d @ [r])"
    using ok created(4,5) cols by (simp_all add: unique_key_snoc system_ok_def)
  ultimately show ?thesis using ok cols(1) by (auto simp: system_ok_def story links(2))
qed

section \<open>Processing a payment\<close>

lemma process_payment_cases:
  assumes "ids_unique d" and "process_payment env gw seen c d = (res, d')"
  obtains (unchanged) "d' = d"
  | (settled) existing v r where "payment_state (pc_payment_id c) d = Some (''pending'', v)"
      "mapM_res attempt_to_domain (attempts_of (pc_payment_id c) d) = Inr existing"
      "attempt_row_check d (attempt_values (started_attempt env c (pc_payment_id c) existing)) = Inr ()"
      "delivery_row_check d (delivery_to_model (staged_delivery env c (pc_payment_id c) r)) = Inr ()"
      "params_check (a_gateway_response (fin_attempt r (pe_finished env) (started_attempt env c (pc_payment_id c) existing)))
         [a_error (fin_attempt r (pe_finished env) (started_attempt env c (pc_payment_id c) existing))] = Inr ()"
      "d' = settled env c r (started_attempt env c (pc_payment_id c) existing) d"
proof -
  consider "d' = d" | p where "payment_state (pc_payment_id c) d = Some (''pending'', p_version p)"
    "charged env gw c p d = (res, d')"
    using assms(2) by (auto simp: process_payment_eq [OF assms(1)] split: option.splits sum.splits if_splits)
  then show thesis
  proof cases
    case 1
    then show thesis by (rule unchanged)
  next
    case 2
    from charged_cases [OF 2(2)] 2(1) unchanged settled show thesis by (elim disjE exE conjE) metis+
  qed
qed

lemma settle_readable:
  "is_ok (payment_to_domain r) \<Longrightarrow> is_ok (payment_to_domain (settle st n t r))"
  by (auto simp: payment_to_domain_def settle_def is_ok_iff res_simps mk_payment_status_Inr)

lemma settle_cols [simp]:
  "pr_id (settle st n t r) = pr_id r" "pr_status (settle st n t r) = payment_status_value st"
  "pr_version (settle st n t r) = pr_version r + n" "pr_processed_at (settle st n t r) = Some t"
  by (simp_all add: settle_def)

lemma fin_status_cases: "payment_status_value (fin_status r) \<in> {''succeeded'', ''failed''}"
  by (simp add: fin_status_def)

lemma system_ok_process:
  assumes ok: "system_ok m d" and run: "process_payment env gw seen c d = (res, d')"
  shows "system_ok m d'"
  using run
proof (cases rule: process_payment_cases [OF system_ids [OF ok] run])
  case 1
  with ok show ?thesis by simp
next
  case (2 existing v r)
  let ?i = "pc_payment_id c" and ?st = "payment_status_value (fin_status r)"
  let ?a = "attempt_values (fin_attempt r (pe_finished env) (started_attempt env c ?i existing))"
  let ?w = "delivery_to_model (staged_delivery env c ?i r)"
  obtain p0 where p0: "p0 \<in> set (payments d)" "pr_id p0 = ?i" "pr_status p0 = ''pending''"
    using 2(1) row_by_SomeD [of pr_id ?i "payments d"] by (auto simp: payment_state_def)
  have story: "payment_story d q" if "q \<in> set (payments d)" for q
    using ok that by (simp add: system_ok_def)
  have none: "attempt_links ?i d = []" "delivery_links ?i d = []"
    using story [OF p0(1)] p0 by (simp_all add: payment_story_def)
  then have "attempts_of ?i d = []" by (simp add: attempts_of_def attempt_links_def)
  with 2(2) have "existing = []" by simp
  then have a: "ar_payment_id ?a = ?i" "ar_attempt_number ?a = 1" "ar_status ?a = ?st"
    "ar_id ?a = pe_attempt_id env"
    by (simp_all add: attempt_values_def fin_attempt_def started_attempt_def attempt_create_def fin_status_def
        next_attempt_number_def)
  have w: "wr_payment_id ?w = ?i" "wr_event_type ?w = ''payment.'' @ ?st"
    by (simp_all add: delivery_to_model_def staged_delivery_def delivery_create_def fin_event_def fin_status_def)
  have tabs: "payment_attempts d' = payment_attempts d @ [?a]" "outbox_messages d' = outbox_messages d"
    "delivery_keys d' = delivery_keys d @ [(wr_id ?w, ?i, ''payment.'' @ ?st)]"
    and pays: "payments d' = update_where (\<lambda>x. pr_id x = ?i) (settle (fin_status r) 2 (pe_finished env)) (payments d)"
    using w by (simp_all add: 2(6) settled_def delivery_keys_def)
  have links: "attempt_links j d' = attempt_links j d @ (if j = ?i then [(1, ?st)] else [])"
    "delivery_links j d' = delivery_links j d @ (if j = ?i then [''payment.'' @ ?st] else [])" for j
    using a by (simp_all add: attempt_links_def delivery_links_def tabs)
  have new: "payment_story d' (settle (fin_status r) 2 (pe_finished env) q)" if "q \<in> set (payments d)" "pr_id q = ?i" for q
  proof -
    have "q = p0" using unique_key_eq [of pr_id "payments d" q p0] ok that p0 by (simp add: system_ok_def)
    with story [OF p0(1)] p0 none fin_status_cases [of r] settle_readable show ?thesis
      by (auto simp: payment_story_def links)
  qed
  have old: "payment_story d' q" if "q \<in> set (payments d)" "pr_id q \<noteq> ?i" for q
    using story [OF that(1)] that(2) by (simp add: payment_story_def links split: if_splits)
  have stories: "payment_story d' q" if "q \<in> set (payments d')" for q
    using that old new by (auto simp: pays set_update_where)
  have ids: "pr_id ` set (payments d') = pr_id ` set (payments d)"
    unfolding pays set_map [symmetric] by (subst map_update_where) (simp_all add: settle_def)
  have "unique_key pr_id (payments d')" "unique_key pr_idempotency_key (payments d')"
    using ok by (simp_all add: pays system_ok_def unique_key_update_where settle_def)
  moreover have "row_by ar_id (ar_id ?a) (payment_attempts d) = None" using attempt_row_check_fresh [OF 2(3)]
    by (simp add: attempt_values_def fin_attempt_def)
  then have "unique_key ar_id (payment_attempts d')" using ok by (simp add: tabs unique_key_snoc system_ok_def)
  moreover have "attempt_row_ok ?a"
    using fin_status_cases [of r] a(3) by (auto simp: attempt_row_ok_def mk_attempt_status_def)
  moreover have "row_by wr_id (wr_id ?w) (webhook_deliveries d) = None"
    using 2(4) by (auto simp: delivery_row_check_def res_simps split: if_splits)
  then have "wr_id ?w \<notin> fst ` set (delivery_keys d)" by (auto simp: delivery_keys_def row_by_None_iff)
  moreover have "?i \<in> pr_id ` set (payments d)" using p0 by force
  moreover have "outbox_ok m d'" "message_keys d' = message_keys d"
    using ok by (simp_all add: outbox_ok_def tabs message_keys_def system_ok_def)
  ultimately show ?thesis using ok stories a(1) by (auto simp: system_ok_def ids tabs)
qed

section \<open>Delivering webhooks\<close>

lemma recorded_keys:
  assumes "recorded policy t (x, r)"
  shows "\<exists>w. row_by wr_id (d_id x) t = Some w \<and> wr_payment_id w = d_payment_id x \<and> wr_event_type w = d_event_type x"
proof (cases r)
  case None
  with assms show ?thesis by (simp add: recorded_def delivery_to_model_def)
next
  case (Some s)
  with assms obtain now y where y: "apply_result policy now s x = Inr y"
    and row: "row_by wr_id (d_id x) t = Some (delivery_to_model y)" by (auto simp: recorded_def)
  from apply_result_model [OF y] have "delivery_set y (delivery_to_model x) = delivery_to_model y" by simp
  then have "d_payment_id y = d_payment_id x" "d_event_type y = d_event_type x"
    by (simp_all add: delivery_set_def delivery_to_model_def)
  with row show ?thesis by (simp add: delivery_to_model_def)
qed

lemma deliver_tables:
  assumes uniq: "unique_key wr_id (webhook_deliveries d)" and run: "deliver_webhooks env d = (Inr res, d')"
  shows "\<exists>t. d' = d\<lparr>webhook_deliveries := t\<rparr> \<and> delivery_keys d' = delivery_keys d"
proof -
  from run obtain u s s' where body: "deliver_body env (on (open_session d)) = Inr (res, u)"
    and s: "u_session u = Some s" "flush s = Inr s'" "d' = s_db s'"
    by (auto simp: deliver_webhooks_def transactional_Inr)
  from deliver_body_Inr [OF uniq body] obtain ds t where
    due: "due_rows (dl_locked env) (dl_batch_size env) (dl_clock env 0) d = map delivery_to_model ds"
    and u: "u = on (open_session (d\<lparr>webhook_deliveries := t\<rparr>))"
    and ids: "map wr_id t = map wr_id (webhook_deliveries d)"
    and other: "\<And>i. i \<notin> d_id ` set ds \<Longrightarrow> row_by wr_id i t = row_by wr_id i (webhook_deliveries d)"
    and rec: "\<And>x. x \<in> set ds \<Longrightarrow> recorded (dl_policy env) t (x, send_outcome env d x)" by blast
  have d': "d' = d\<lparr>webhook_deliveries := t\<rparr>" using s by (auto simp: u)
  have uniq': "unique_key wr_id t" using uniq ids by (simp add: unique_key_def)
  have same: "wr_payment_id w = wr_payment_id v \<and> wr_event_type w = wr_event_type v"
    if "w \<in> set t" "v \<in> set (webhook_deliveries d)" "wr_id w = wr_id v" for w v
  proof (cases "wr_id v \<in> d_id ` set ds")
    case False
    from other [OF this] row_by_unique [OF uniq' that(1)] row_by_unique [OF uniq that(2)] that(3)
    have "Some w = Some v" by metis
    then show ?thesis by simp
  next
    case True
    then obtain x where x: "x \<in> set ds" "wr_id v = d_id x" by blast
    from claimed_rows(2) [OF due uniq x(1)] row_by_unique [OF uniq that(2)] x(2)
    have v: "v = delivery_to_model x" by simp
    from recorded_keys [OF rec [OF x(1)]] row_by_unique [OF uniq' that(1)] that(3) x(2)
    show ?thesis by (auto simp: v delivery_to_model_def)
  qed
  have "delivery_keys d' = delivery_keys d"
  proof (rule nth_equalityI)
    show len: "length (delivery_keys d') = length (delivery_keys d)"
      using arg_cong [OF ids, of length] by (simp add: delivery_keys_def d')
    fix k assume k: "k < length (delivery_keys d')"
    then have "k < length t" "k < length (webhook_deliveries d)" using len by (simp_all add: delivery_keys_def d')
    moreover then have "wr_id (t ! k) = wr_id (webhook_deliveries d ! k)" by (metis ids nth_map)
    ultimately show "delivery_keys d' ! k = delivery_keys d ! k"
      using same [of "t ! k" "webhook_deliveries d ! k"] by (simp add: delivery_keys_def d')
  qed
  with d' show ?thesis by blast
qed

lemma system_ok_deliver:
  assumes ok: "system_ok m d" and run: "deliver_webhooks env d = (Inr res, d')"
  shows "system_ok m d' \<and> payments d' = payments d \<and> message_keys d' = message_keys d"
proof -
  have "map wr_id (webhook_deliveries d) = map fst (delivery_keys d)" by (simp add: delivery_keys_def)
  with ok have "unique_key wr_id (webhook_deliveries d)" by (simp add: unique_key_def system_ok_def)
  from deliver_tables [OF this run] obtain t where
    d': "d' = d\<lparr>webhook_deliveries := t\<rparr>" "delivery_keys d' = delivery_keys d" by blast
  have "outbox_ok m d'" using ok by (simp add: d' outbox_ok_def system_ok_def)
  moreover have same: "message_keys d' = message_keys d" by (simp add: d' message_keys_def)
  ultimately have "system_ok m d'"
    by (intro system_ok_keys [OF ok _ _ d'(2)]) (use ok in \<open>simp_all add: d' system_ok_def\<close>)
  with d' same show ?thesis by simp
qed

section \<open>The outbox\<close>

lemma update_outbox_keys:
  "(\<And>r. message_key (f r) = message_key r) \<Longrightarrow>
   message_keys (update_outbox P f d) = message_keys d"
  by (simp add: message_keys_def update_outbox_def update_where_def)

lemma outbox_op_tables:
  assumes f: "f \<in> outbox_ops m a" and a: "a \<noteq> Insert"
  shows "payments (f d) = payments d \<and> payment_attempts (f d) = payment_attempts d \<and>
    webhook_deliveries (f d) = webhook_deliveries d \<and>
    (a \<noteq> Purge \<longrightarrow> message_keys (f d) = message_keys d) \<and>
    (\<exists>P. message_keys (f d) = map message_key (filter P (outbox_messages d)))"
proof -
  have upd: ?thesis if "f d = update_outbox P g d"
    "\<And>r. message_key (g r) = message_key r" for P g
    using that update_outbox_keys [of g P d]
    by (auto simp: update_outbox_def message_keys_def intro!: exI [of _ "\<lambda>_. True"])
  from f show ?thesis
  proof (cases rule: outbox_op_cases)
    case (insert i e)
    with a show ?thesis by simp
  next
    case (claim w locked limit now)
    show ?thesis
    proof (cases "limit < 0")
      case True
      then show ?thesis using claim
        by (auto simp: claim_op_eq message_keys_def intro!: exI [of _ "\<lambda>_. True"])
    next
      case False
      then show ?thesis
        by (intro upd [where g = "to_claimed now w"]) (auto simp: claim claim_op_eq to_claimed_def message_key_def)
    qed
  next
    case (ack w ts i)
    then show ?thesis by (intro upd [where g = "to_processed ts"]) (auto simp: mark_processed_db_def to_processed_def message_key_def)
  next
    case (nack w ts i due_at)
    then show ?thesis by (intro upd [where g = "after_failure ts m due_at"]) (auto simp: mark_publish_failure_db_def after_failure_def Let_def message_key_def)
  next
    case (expire ts now timeout)
    then show ?thesis by (intro upd [where g = "\<lambda>r. if m \<le> ob_attempts r then to_dead ts r else to_pending r"])
        (auto simp: release_expired_eq to_dead_def to_pending_def message_key_def)
  next
    case (reap ts)
    then show ?thesis by (intro upd [where g = "to_reaped ts"]) (auto simp: reap_exhausted_db_def to_reaped_def message_key_def)
  next
    case (purge cutoff)
    then show ?thesis by (auto simp: purge_processed_db_def message_keys_def)
  qed
qed

lemma system_ok_outbox:
  assumes ok: "system_ok m d" and f: "f \<in> outbox_ops m a" "a \<noteq> Insert"
  shows "system_ok m (f d)"
proof -
  from outbox_op_tables [OF f, of d] obtain P where
    tabs: "payments (f d) = payments d" "payment_attempts (f d) = payment_attempts d"
      "webhook_deliveries (f d) = webhook_deliveries d"
    and keys: "message_keys (f d) = map message_key (filter P (outbox_messages d))"
    by blast
  have "distinct (map (fst \<circ> message_key) (outbox_messages d))"
    using ok by (simp add: system_ok_def message_keys_def)
  then have "distinct (map fst (message_keys (f d)))"
    by (simp add: keys distinct_map_filter)
  moreover have "set (message_keys (f d)) \<subseteq> set (message_keys d)"
    unfolding keys by (auto simp: message_keys_def)
  moreover have "outbox_ok m (f d)" using ok outbox_op_refines [OF f(1), of d] by (simp add: system_ok_def)
  ultimately show ?thesis
    by (intro system_ok_keys [OF ok tabs(1,2)]) (simp_all add: delivery_keys_def tabs(3))
qed

section \<open>Every handler keeps the invariant\<close>

interpretation creating: atomic_handler "\<lambda>(env, c). create_payment env c" "system_ok m" for m
  by unfold_locales
    (auto simp: create_payment_def intro: transactional_error system_ok_create [unfolded create_payment_def])

interpretation processing: atomic_handler "\<lambda>(env, gw, seen, c). process_payment env gw seen c" "system_ok m" for m
  by unfold_locales
    (auto simp: process_payment_def intro: transactional_error system_ok_process [unfolded process_payment_def])

interpretation delivering: atomic_handler deliver_webhooks "system_ok m" for m
  by unfold_locales (auto simp: system_ok_deliver deliver_webhooks_def intro: transactional_error)

interpretation reading: atomic_handler get_payment_handle "system_ok m" for m
  by unfold_locales (auto simp: get_payment_handle_eq split: option.splits sum.splits)

lemma deliver_keeps:
  assumes "system_ok m d" and run: "deliver_webhooks env d = (res, d')"
  shows "payments d' = payments d \<and> message_keys d' = message_keys d"
proof (cases res)
  case (Inl e)
  with delivering.error_keeps [of env d e d'] run show ?thesis by simp
next
  case (Inr r)
  with system_ok_deliver [OF assms(1), of env r d'] run show ?thesis by simp
qed

section \<open>The service as a transition system\<close>

text \<open>
  One committed transaction. \<open>m\<close> is the number of attempts the outbox allows a message; \<open>purges\<close>
  says whether the retention sweep may run. Parallel processes commit one after the other, so every
  execution is a sequence of these steps; what a transaction read before it got its locks is the
  argument \<open>seen\<close> of a processing step, and the rows others hold are arguments of the claims.
\<close>

inductive service_step :: "int \<Rightarrow> bool \<Rightarrow> db \<Rightarrow> db \<Rightarrow> bool" for m :: int and purges :: bool where
  create: "create_payment env c d = (res, d') \<Longrightarrow> service_step m purges d d'"
| process: "process_payment env gw seen c d = (res, d') \<Longrightarrow> service_step m purges d d'"
| deliver: "deliver_webhooks denv d = (res, d') \<Longrightarrow> service_step m purges d d'"
| read: "get_payment_handle i d = (res, d') \<Longrightarrow> service_step m purges d d'"
| outbox: "f \<in> outbox_ops m a \<Longrightarrow> a \<noteq> Insert \<Longrightarrow> a = Purge \<longrightarrow> purges \<Longrightarrow> service_step m purges d (f d)"

abbreviation service_run :: "int \<Rightarrow> bool \<Rightarrow> db \<Rightarrow> db \<Rightarrow> bool" where
  "service_run m purges \<equiv> (service_step m purges)\<^sup>*\<^sup>*"

lemma service_step_ok: "service_step m purges d d' \<Longrightarrow> system_ok m d \<Longrightarrow> system_ok m d'"
proof (induction rule: service_step.induct)
  case (create env c d res d')
  then show ?case using creating.run_inv [of m d "(env, c)"] by simp
next
  case (process env gw seen c d res d')
  then show ?case using processing.run_inv [of m d "(env, gw, seen, c)"] by simp
next
  case (deliver denv d res d')
  then show ?case using delivering.run_inv [of m d denv] by simp
next
  case (read i d res d')
  then show ?case using reading.run_inv [of m d i] by simp
next
  case (outbox f a d)
  then show ?case by (blast intro: system_ok_outbox)
qed

lemma service_run_ok: "service_run m purges d d' \<Longrightarrow> system_ok m d \<Longrightarrow> system_ok m d'"
  by (induction rule: rtranclp_induct) (auto intro: service_step_ok)

section \<open>Properties of the service\<close>

text \<open>The lifecycle a client observes of a payment: its status and version in the committed tables.\<close>

inductive payment_move :: "(string \<times> int) option \<Rightarrow> (string \<times> int) option \<Rightarrow> bool" where
  appear: "payment_move None (Some (''pending'', 0))"
| settle: "s \<in> {''succeeded'', ''failed''} \<Longrightarrow> payment_move (Some (''pending'', 0)) (Some (s, 2))"

inductive_cases payment_move_from_Some: "payment_move (Some (s, v)) x"

lemma create_move:
  assumes "create_payment env c d = (res, d')"
  shows "payment_state i d' = payment_state i d \<or> payment_move (payment_state i d) (payment_state i d')"
proof (cases res)
  case (Inl e)
  with assms show ?thesis by (auto simp: create_payment_def dest: transactional_error)
next
  case (Inr dto)
  from assms [unfolded Inr] show ?thesis
  proof (cases rule: create_payment_cases)
    case (created k mo r)
    have "payment_ok (new_payment env c k mo)" using command_values_ok [OF created(1)] by simp
    from payment_row_check_Inr [OF this created(3)]
    have "pr_id r = ce_payment_id env" "pr_status r = ''pending''" "pr_version r = 0"
      by (simp_all add: payment_values_def)
    then have "payment_state i d' = (if i = ce_payment_id env then Some (''pending'', 0) else payment_state i d)"
      using created(5) by (simp add: created(7) payment_state_def row_by_append split: option.split)
    moreover have "payment_state (ce_payment_id env) d = None" using created(5) by (simp add: payment_state_def)
    ultimately show ?thesis by (auto intro: payment_move.appear)
  qed simp
qed

lemma pending_version:
  assumes "system_ok m d" "payment_state i d = Some (''pending'', v)"
  shows "v = 0"
proof -
  from assms(2) obtain r where "r \<in> set (payments d)" "pr_status r = ''pending''" "pr_version r = v"
    by (auto simp: payment_state_def dest: row_by_SomeD)
  with assms(1) show ?thesis by (auto simp: system_ok_def payment_story_def)
qed

lemma process_move:
  assumes ok: "system_ok m d" and run: "process_payment env gw seen c d = (res, d')"
  shows "payment_state i d' = payment_state i d \<or> payment_move (payment_state i d) (payment_state i d')"
proof (cases rule: process_payment_cases [OF system_ids [OF ok] run])
  case (2 existing v r)
  have "v = 0" by (rule pending_version [OF ok 2(1)])
  with settled_state [OF 2(1)] settled_other 2(1) fin_status_cases [of r] show ?thesis
    by (cases "i = pc_payment_id c") (auto simp: 2(6) intro: payment_move.settle)
qed simp

lemma step_messages:
  assumes "system_ok m d" and "service_step m False d d'"
    and "map fst (message_keys d) = map pr_id (payments d)"
  shows "map fst (message_keys d') = map pr_id (payments d')"
  using assms(2)
proof cases
  case (create env c res)
  show ?thesis
  proof (cases res)
    case (Inl e)
    with create assms(3) show ?thesis by (auto simp: create_payment_def dest: transactional_error)
  next
    case (Inr dto)
    from create [unfolded Inr] show ?thesis
    proof (cases rule: create_payment_cases)
      case (created k mo r)
      have "payment_ok (new_payment env c k mo)" using command_values_ok [OF created(1)] by simp
      from payment_row_check_Inr [OF this created(3)] have "pr_id r = ce_payment_id env"
        by (simp add: payment_values_def)
      with assms(3) show ?thesis by (simp add: created(7) message_keys_def message_key_def)
    qed (use assms(3) in simp)
  qed
next
  case (process env gw seen c res)
  from system_ids [OF assms(1)] process show ?thesis
  proof (cases rule: process_payment_cases)
    case (settled existing v r)
    then show ?thesis using assms(3)
      by (simp add: ProcessPayment.settled_def message_keys_def map_update_where)
  qed (use assms(3) in simp)
next
  case (deliver denv res)
  then show ?thesis using deliver_keeps [OF assms(1)] assms(3) by simp
next
  case (read i res)
  then show ?thesis using assms(3) by (auto simp: get_payment_handle_eq split: option.splits sum.splits)
next
  case (outbox f a)
  then show ?thesis using outbox_op_tables [of f m a d] assms(3) by auto
qed

lemma service_step_move:
  assumes ok: "system_ok m d" and "service_step m purges d d'"
  shows "payment_state i d' = payment_state i d \<or> payment_move (payment_state i d) (payment_state i d')"
  using assms(2)
proof cases
  case (create env c res)
  then show ?thesis by (rule create_move)
next
  case (process env gw seen c res)
  then show ?thesis by (intro process_move [OF ok])
next
  case (deliver denv res)
  then show ?thesis using deliver_keeps [OF ok] by (simp add: payment_state_def)
next
  case (read j res)
  then show ?thesis by (auto simp: get_payment_handle_eq split: option.splits sum.splits)
next
  case (outbox f a)
  then show ?thesis using outbox_op_tables [of f m a d] by (auto simp: payment_state_def)
qed

lemma payment_stays:
  assumes "service_run m purges d d'" and "system_ok m d" and "payment_state i d \<noteq> None"
  shows "payment_state i d' \<noteq> None"
  using assms(1)
proof (induction rule: rtranclp_induct)
  case (step x y)
  have "system_ok m x" by (rule service_run_ok [OF step(1) assms(2)])
  from service_step_move [OF this step(2), of i] step(3) show ?case by (auto elim: payment_move.cases)
qed (rule assms(3))

text \<open>
  Property C4. The service refines the lifecycle of a payment. In every reachable state, every
  transaction of any handler or worker, whether it commits or fails, leaves the status and version
  of each payment as they are, creates it as pending with version 0, or takes it from pending to
  succeeded or failed with version 2: no other change is ever committed, and no payment disappears.
\<close>

theorem service_refines_lifecycle:
  assumes "0 < m" and "service_run m purges empty_db d" and "service_step m purges d d'"
  shows "payment_state i d' = payment_state i d \<or> payment_move (payment_state i d) (payment_state i d')"
proof (rule service_step_move [OF _ assms(3)])
  show "system_ok m d" using service_run_ok [OF assms(2)] system_ok_empty [OF assms(1)] by simp
qed

text \<open>A run in which a payment is created and succeeds.\<close>

definition demo_settled :: db where
  "demo_settled = snd (process_payment demo_process_env demo_gateway demo_db demo_process_command demo_db)"

lemma demo_settled_state: "payment_state 1 demo_settled = Some (''succeeded'', 2)"
  "length (payments demo_settled) = 1"
proof -
  have run: "process_payment demo_process_env demo_gateway demo_db demo_process_command demo_db =
      (Inr \<lparr>pres_outcome = OSucceeded, pres_gateway_id = Some ''gw-1''\<rparr>, demo_settled)"
    using demo_processed by (auto simp: demo_settled_def)
  obtain v existing g where "payment_state 1 demo_db = Some (''pending'', v)" "OSucceeded = fin_outcome g"
    and d': "demo_settled = settled demo_process_env demo_process_command g
      (started_attempt demo_process_env demo_process_command 1 existing) demo_db"
    by (rule process_payment_terminal [OF demo_process_facts(1) run]) (simp_all add: demo_process_facts)
  then have "payment_state 1 demo_db = Some (''pending'', 0)" "fin_status g = Succeeded"
    by (simp_all add: demo_process_facts fin_outcome_def fin_status_def split: if_splits)
  with settled_state [of demo_process_command demo_db "''pending''" 0]
  show "payment_state 1 demo_settled = Some (''succeeded'', 2)" by (simp add: d' demo_process_facts)
  show "length (payments demo_settled) = 1" by (simp add: d' settled_def update_where_def)
qed

lemma demo_runs: "service_run m purges empty_db demo_db" "service_step m purges demo_db demo_settled"
    "service_run m purges empty_db demo_settled"
proof -
  show run: "service_run m purges empty_db demo_db" using demo_create service_step.create by blast
  show step: "service_step m purges demo_db demo_settled"
    unfolding demo_settled_def by (rule service_step.process [OF prod.collapse [symmetric]])
  show "service_run m purges empty_db demo_settled" by (rule rtranclp.rtrancl_into_rtrancl [OF run step])
qed

theorem service_refines_lifecycle_witness:
  "service_step 5 True demo_db demo_settled \<and>
     payment_move (payment_state 1 demo_db) (payment_state 1 demo_settled)"
  using service_refines_lifecycle [of 5, OF _ demo_runs(1,2), of 1]
    demo_runs(2) [of 5 True] demo_settled_state demo_process_facts(2) by simp

section \<open>Repeating a request\<close>

text \<open>What a transaction can do to the row of a payment: nothing, or settle it, once.\<close>

definition row_kept :: "payment_row \<Rightarrow> payment_row \<Rightarrow> bool" where
  "row_kept q q' \<longleftrightarrow> q' = q \<or>
     pr_status q = ''pending'' \<and> pr_status q' \<in> {''succeeded'', ''failed''} \<and>
     q' = q\<lparr>pr_status := pr_status q', pr_version := pr_version q', pr_processed_at := pr_processed_at q'\<rparr>"

lemma row_kept_trans: "row_kept x y \<Longrightarrow> row_kept y z \<Longrightarrow> row_kept x z"
  by (auto simp: row_kept_def)

lemma step_row_kept:
  assumes ok: "system_ok m d" and "service_step m purges d d'"
    and q: "row_by pr_idempotency_key k (payments d) = Some q"
  shows "\<exists>q'. row_by pr_idempotency_key k (payments d') = Some q' \<and> row_kept q q'"
  using assms(2)
proof cases
  case (create env c res)
  show ?thesis
  proof (cases res)
    case (Inl e)
    with create q show ?thesis by (auto simp: create_payment_def row_kept_def dest: transactional_error)
  next
    case (Inr dto)
    from create [unfolded Inr] q show ?thesis
      by (cases rule: create_payment_cases) (simp_all add: row_by_append row_kept_def)
  qed
next
  case (process env gw seen c res)
  from system_ids [OF ok] process show ?thesis
  proof (cases rule: process_payment_cases)
    case (settled existing v r)
    have pays: "payments d' = update_where (\<lambda>x. pr_id x = pc_payment_id c)
        (settle (fin_status r) 2 (pe_finished env)) (payments d)"
      by (simp add: settled(6) ProcessPayment.settled_def)
    have "pr_status q = ''pending''" if "pr_id q = pc_payment_id c"
    proof -
      have "unique_key pr_id (payments d)" using ok by (simp add: system_ok_def)
      from row_by_unique [OF this] row_by_SomeD [OF q] that
      have "row_by pr_id (pc_payment_id c) (payments d) = Some q" by metis
      with settled(1) show ?thesis by (simp add: payment_state_def)
    qed
    moreover have "row_by pr_idempotency_key k (payments d') =
        Some (if pr_id q = pc_payment_id c then settle (fin_status r) 2 (pe_finished env) q else q)"
      by (simp add: pays row_by_update_where settle_def q)
    ultimately show ?thesis using fin_status_cases [of r] by (auto simp: row_kept_def settle_def)
  qed (use q in \<open>simp add: row_kept_def\<close>)
next
  case (deliver denv res)
  then show ?thesis using deliver_keeps [OF ok] q by (simp add: row_kept_def)
next
  case (read i res)
  then show ?thesis using q by (auto simp: row_kept_def get_payment_handle_eq split: option.splits sum.splits)
next
  case (outbox f a)
  then show ?thesis using outbox_op_tables [of f m a d] q by (auto simp: row_kept_def)
qed

lemma run_row_kept:
  assumes "service_run m purges d d'" and ok: "system_ok m d"
    and q: "row_by pr_idempotency_key k (payments d) = Some q"
  shows "\<exists>q'. row_by pr_idempotency_key k (payments d') = Some q' \<and> row_kept q q'"
  using assms(1)
proof (induction rule: rtranclp_induct)
  case base
  from q show ?case by (auto simp: row_kept_def)
next
  case (step x y)
  from step(3) obtain q' where q': "row_by pr_idempotency_key k (payments x) = Some q'" "row_kept q q'" by blast
  from step_row_kept [OF service_run_ok [OF step(1) ok] step(2) q'(1)] row_kept_trans [OF q'(2)] show ?case by blast
qed

text \<open>The answer that a settled row gives, next to the one it gave before.\<close>

definition same_payment :: "payment_dto \<Rightarrow> payment_dto \<Rightarrow> bool" where
  "same_payment x y \<longleftrightarrow>
     x = y\<lparr>pd_amount := pd_amount x, pd_status := pd_status x, pd_processed_at := pd_processed_at x\<rparr> \<and>
     dec_eq (pd_amount x) (pd_amount y) \<and>
     (if pd_status x = pd_status y then pd_processed_at x = pd_processed_at y
      else pd_status y = ''pending'' \<and> pd_status x \<in> {''succeeded'', ''failed''})"

lemma same_dto_kept:
  "same_dto x y \<Longrightarrow> pd_payment_id x = pd_payment_id y \<and> pd_status x = pd_status y \<and> pd_processed_at x = pd_processed_at y"
  by (cases x; cases y) (simp add: same_dto_def)

lemma row_kept_domain:
  assumes "row_kept q q'" "payment_to_domain q = Inr p"
  shows "\<exists>p'. payment_to_domain q' = Inr p' \<and> from_payment p' None = (from_payment p None)
      \<lparr>pd_status := pr_status q', pd_processed_at := pr_processed_at q'\<rparr>"
proof -
  from assms(2) obtain k mo st where parts: "mk_idempotency_key (pr_idempotency_key q) = Inr k"
    "mk_money (ADecimal (pr_amount q)) (pr_currency q) = Inr mo" "mk_payment_status (pr_status q) = Inr st"
    by (auto simp: payment_to_domain_def res_simps)
  have cols: "q' = q\<lparr>pr_status := pr_status q', pr_version := pr_version q', pr_processed_at := pr_processed_at q'\<rparr>"
    using assms(1) by (auto simp: row_kept_def)
  then have "pr_idempotency_key q' = pr_idempotency_key q" "pr_amount q' = pr_amount q" "pr_currency q' = pr_currency q"
    "pr_id q' = pr_id q" "pr_description q' = pr_description q" "pr_metadata q' = pr_metadata q"
    "pr_webhook_url q' = pr_webhook_url q" "pr_correlation_id q' = pr_correlation_id q" "pr_created_at q' = pr_created_at q"
    by (cases q, cases q', simp)+
  note same = this
  have "pr_status q' \<in> {''succeeded'', ''failed''} \<or> pr_status q' = pr_status q" using assms(1) by (auto simp: row_kept_def)
  then have "\<exists>st'. mk_payment_status (pr_status q') = Inr st'" using parts(3) by (elim disjE) (auto simp: mk_payment_status_def)
  then obtain st' where st': "mk_payment_status (pr_status q') = Inr st'" ..
  then have "pr_status q' = payment_status_value st'" by (simp add: mk_payment_status_Inr)
  with assms(2) parts st' show ?thesis by (auto simp: payment_to_domain_def same from_payment_def)
qed

text \<open>
  Property C10. Idempotency, at any later time. After a call has returned a payment, whatever
  transactions the service commits in between, a call with the same key, whatever its other data,
  changes nothing and, if it returns, returns that payment, as it is then: its status is the one in
  the table, and all its other fields are those of the first answer (the amount numerically: it
  comes back with two decimals), except that status and \<open>processed_at\<close> have advanced if the payment
  has been settled meanwhile. The same command always returns it.
\<close>

theorem create_payment_idempotent:
  assumes "0 < m" and "service_run m purges empty_db d"
    and first: "create_payment env c d = (Inr dto, d1)" and later: "service_run m purges d1 d2"
    and key: "cc_idempotency_key c' = cc_idempotency_key c"
    and again: "create_payment env' c' d2 = (res, d3)"
  shows "d3 = d2 \<and>
    (\<forall>dto'. res = Inr dto' \<longrightarrow> same_payment dto' dto \<and>
       map_option fst (payment_state (pd_payment_id dto) d2) = Some (pd_status dto')) \<and>
    (c' = c \<longrightarrow> (\<exists>dto'. res = Inr dto'))"
proof -
  have ok: "system_ok m d" using service_run_ok [OF assms(2)] system_ok_empty [OF assms(1)] by simp
  have ok1: "system_ok m d1" by (rule system_ok_create [OF ok first])
  have ok2: "system_ok m d2" by (rule service_run_ok [OF later ok1])
  from create_payment_stored [OF first] obtain q p where
    q: "row_by pr_idempotency_key (cc_idempotency_key c') (payments d1) = Some q"
      "payment_to_domain q = Inr p" "same_dto (from_payment p None) dto" using key by auto
  from run_row_kept [OF later ok1 q(1)] obtain q' where
    q': "row_by pr_idempotency_key (cc_idempotency_key c') (payments d2) = Some q'" "row_kept q q'" by blast
  from row_kept_domain [OF q'(2) q(2)] obtain p' where
    p': "payment_to_domain q' = Inr p'" "from_payment p' None = (from_payment p None)
      \<lparr>pd_status := pr_status q', pd_processed_at := pr_processed_at q'\<rparr>" by blast
  have dom: "pr_id q = pd_payment_id dto" "pr_status q = pd_status dto" "pr_processed_at q = pd_processed_at dto"
    using q(2) same_dto_kept [OF q(3)] by (auto simp: from_payment_def payment_to_domain_def res_simps mk_payment_status_Inr)
  have id: "pr_id q' = pr_id q" using q'(2) by (cases q, cases q') (auto simp: row_kept_def)
  have kept: "same_payment (from_payment p' None) dto"
    using q(3) q'(2) dom unfolding p'(2) by (cases dto) (auto simp: same_payment_def same_dto_def row_kept_def)
  have "unique_key pr_id (payments d2)" using ok2 by (simp add: system_ok_def)
  from row_by_unique [OF this] row_by_SomeD [OF q'(1)] have "row_by pr_id (pr_id q') (payments d2) = Some q'" by blast
  then have state: "map_option fst (payment_state (pd_payment_id dto) d2) = Some (pd_status (from_payment p' None))"
    by (simp add: payment_state_def id dom(1) p'(2))
  have "\<exists>dto'. res = Inr dto'" if "c' = c"
    using create_payment_replay_returns [OF first, of d2 q' p' env'] q'(1) p'(1) again that by auto
  with create_payment_replay [OF q'(1) p'(1) again] kept state show ?thesis by blast
qed

text \<open>
  Property C3. The tables stay consistent with each other in every reachable state: each payment can
  be read through the API; a pending payment has version 0 and neither attempts nor webhook
  deliveries; any other payment is succeeded or failed with version 2, was charged in exactly one
  attempt, number 1, that has the same status, and owes its merchant exactly one delivery, of the
  event of that status. No payment is ever seen in status processing.
\<close>

theorem system_invariant:
  assumes "0 < m" and "service_run m purges empty_db d" and "p \<in> set (payments d)"
  shows "is_ok (fst (get_payment_handle (pr_id p) d)) \<and>
    (if pr_status p = ''pending'' then
       pr_version p = 0 \<and> pr_processed_at p = None \<and>
       (\<forall>a \<in> set (payment_attempts d). ar_payment_id a \<noteq> pr_id p) \<and>
       (\<forall>w \<in> set (webhook_deliveries d). wr_payment_id w \<noteq> pr_id p)
     else pr_status p \<in> {''succeeded'', ''failed''} \<and> pr_version p = 2 \<and> pr_processed_at p \<noteq> None \<and>
       (\<exists>a. filter (\<lambda>a. ar_payment_id a = pr_id p) (payment_attempts d) = [a] \<and>
          ar_attempt_number a = 1 \<and> ar_status a = pr_status p) \<and>
       (\<exists>w. filter (\<lambda>w. wr_payment_id w = pr_id p) (webhook_deliveries d) = [w] \<and>
          wr_event_type w = ''payment.'' @ pr_status p))"
proof -
  have ok: "system_ok m d" using service_run_ok [OF assms(2)] system_ok_empty [OF assms(1)] by simp
  with assms(3) have story: "payment_story d p" by (simp add: system_ok_def)
  have links: "delivery_links i d = map wr_event_type (filter (\<lambda>w. wr_payment_id w = i) (webhook_deliveries d))" for i
    by (simp add: delivery_links_def delivery_keys_def filter_map comp_def)
  have "row_by pr_id (pr_id p) (payments d) = Some p"
    using ok row_by_unique assms(3) by (auto simp: system_ok_def)
  moreover obtain as where "mapM_res attempt_to_domain (attempts_of (pr_id p) d) = Inr as"
    using get_by_payment_id_ok [of "open_session d" "pr_id p"] ok by (auto simp: mapM_res_Inr system_ok_def)
  moreover obtain q where "payment_to_domain p = Inr q" using story by (auto simp: payment_story_def is_ok_iff)
  ultimately have "is_ok (fst (get_payment_handle (pr_id p) d))" by (simp add: get_payment_handle_eq)
  with story show ?thesis
    by (auto simp: payment_story_def links attempt_links_def filter_empty_conv map_eq_Cons_conv)
qed

theorem system_invariant_witness:
  "\<exists>p a w. payments demo_settled = [p] \<and> pr_status p = ''succeeded'' \<and>
     filter (\<lambda>a. ar_payment_id a = 1) (payment_attempts demo_settled) = [a] \<and> ar_attempt_number a = 1 \<and>
     filter (\<lambda>w. wr_payment_id w = 1) (webhook_deliveries demo_settled) = [w] \<and>
     wr_event_type w = ''payment.succeeded''"
proof -
  obtain p where p: "row_by pr_id 1 (payments demo_settled) = Some p" "pr_status p = ''succeeded''"
    using demo_settled_state(1) by (auto simp: payment_state_def)
  have one: "payments demo_settled = [p]" "pr_id p = 1"
    using row_by_SomeD [OF p(1)] demo_settled_state(2) by (auto simp: length_Suc_conv)
  then have "p \<in> set (payments demo_settled)" by simp
  from system_invariant [of 5, OF _ demo_runs(3) this] p(2) one show ?thesis by auto
qed

theorem create_payment_idempotent_witness:
  "\<exists>dto'. create_payment (demo_env\<lparr>ce_payment_id := 2, ce_now := 900\<rparr>) demo_command demo_settled = (Inr dto', demo_settled) \<and>
     pd_payment_id dto' = 1 \<and> pd_created_at dto' = 100 \<and> pd_status dto' = ''succeeded''"
proof -
  obtain dto where dto: "create_payment demo_env demo_command empty_db = (Inr dto, demo_db)"
    "pd_payment_id dto = 1" "pd_created_at dto = 100" using demo_create by blast
  have run: "service_run 5 True demo_db demo_settled" using demo_runs(2) by blast
  obtain res d3 where again: "create_payment (demo_env\<lparr>ce_payment_id := 2, ce_now := 900\<rparr>) demo_command demo_settled = (res, d3)"
    by (metis surj_pair)
  from create_payment_idempotent [OF _ rtranclp.rtrancl_refl dto(1) run refl again] obtain dto' where
    "create_payment (demo_env\<lparr>ce_payment_id := 2, ce_now := 900\<rparr>) demo_command demo_settled = (Inr dto', demo_settled)"
    "same_payment dto' dto" "pd_status dto' = ''succeeded''"
    using again demo_settled_state(1) dto(2) by auto
  moreover then have "pd_payment_id dto' = pd_payment_id dto" "pd_created_at dto' = pd_created_at dto"
    by (cases dto; cases dto'; simp add: same_payment_def)+
  ultimately show ?thesis using dto(2,3) by auto
qed

text \<open>
  Property C6. No event is lost: as long as the retention sweep has not deleted any, every payment
  has exactly one message in the outbox, its PaymentCreated event, in the order the payments were
  created, and every message is waiting with fewer leases than allowed, leased by one worker,
  published, or dead. No failed, repeated or concurrent
  call of any handler leaves a payment without its message or a message without its payment.
\<close>

theorem no_event_lost:
  assumes "0 < m" and "service_run m False empty_db d"
  shows "map ob_aggregate_id (outbox_messages d) = map pr_id (payments d) \<and>
    list_all (\<lambda>x. ob_event_type x = ''PaymentCreated'' \<and>
      (case lease_of x of Waiting n \<Rightarrow> 0 \<le> n \<and> n < m | Leased w n \<Rightarrow> 1 \<le> n \<and> n \<le> m
       | Published \<Rightarrow> True | Dead \<Rightarrow> True)) (outbox_messages d)"
proof -
  have ok: "system_ok m d" using service_run_ok [OF assms(2)] system_ok_empty [OF assms(1)] by simp
  have "map fst (message_keys d) = map pr_id (payments d)"
    using assms(2)
  proof (induction rule: rtranclp_induct)
    case base
    then show ?case by (simp add: message_keys_def)
  next
    case (step d d')
    have ok: "system_ok m d" using service_run_ok [OF step(1)] system_ok_empty [OF assms(1)] by simp
    from step(2) show ?case by (rule step_messages [OF ok _ step(3)])
  qed
  moreover have "ob_event_type x = ''PaymentCreated''" if "x \<in> set (outbox_messages d)" for x
    using ok that by (force simp: system_ok_def message_keys_def message_key_def)
  moreover have "case lease_of x of Waiting n \<Rightarrow> 0 \<le> n \<and> n < m | Leased w n \<Rightarrow> 1 \<le> n \<and> n \<le> m
       | Published \<Rightarrow> True | Dead \<Rightarrow> True" if "x \<in> set (outbox_messages d)" for x
  proof -
    have "outbox_row_ok m x" using ok that by (simp add: system_ok_def outbox_ok_def)
    then show ?thesis by (auto simp: outbox_row_ok_def lease_of_def split: option.split)
  qed
  ultimately show ?thesis by (simp add: message_keys_def message_key_def comp_def list_all_iff)
qed

theorem no_event_lost_witness:
  "map ob_aggregate_id (outbox_messages demo_settled) = map pr_id (payments demo_settled)"
  using no_event_lost [of 5, OF _ demo_runs(3)] by simp

end
