(* ===== verification/Consumer.thy ===== *)
theory Consumer
  imports ProcessPayment Config
begin

text \<open>
  \<open>infrastructure/broker/consumer.py\<close> and \<open>broker.py\<close>: the RabbitMQ consumer of the payment
  messages and the topology of its queues.

  The broker is outside the repository. A message carries the result of its \<open>decode\<close>; what
  \<open>publish\<close>, \<open>ack\<close> and \<open>nack\<close> return or raise are parameters. The process handler is an argument of
  the consumer, as in the code, on the value \<open>body.get('correlation_id')\<close> gives. A call returns its
  effects in order: the messages sent to the DLQ, the acknowledgements and the metrics (the logging
  is left out); \<open>ce_elapsed\<close> is the difference of the two \<open>perf_counter\<close> readings, in seconds.
\<close>

record message =
  msg_decode :: "exn + pyval"
  msg_body :: string
  msg_headers :: pydict
  msg_correlation_id :: "string option"

record dlq_message =
  dlq_queue :: string
  dlq_body :: string
  dlq_headers :: pydict
  dlq_correlation_id :: "string option"

datatype effect = Metric metric | ToDlq dlq_message | Acked | Nacked

record consumer_env =
  ce_settings :: settings
  ce_handler :: "uuid \<Rightarrow> pyval \<Rightarrow> db \<Rightarrow> (exn + process_result) \<times> db"
  ce_publish :: "exn + unit"
  ce_ack :: "exn + unit"
  ce_nack :: "exn + unit"
  ce_elapsed :: rat

section \<open>The retry counter\<close>

text \<open>\<open>int(s)\<close> of a string: a sign and digits, with single underscores between digits.\<close>

fun py_digits :: "string \<Rightarrow> string option" where
  "py_digits [] = None"
| "py_digits [c] = (if is_digit c then Some [c] else None)"
| "py_digits (c # CHR ''_'' # s) = (if is_digit c then map_option (Cons c) (py_digits s) else None)"
| "py_digits (c # s) = (if is_digit c then map_option (Cons c) (py_digits s) else None)"

definition int_of_str :: "string \<Rightarrow> exn + int" where
  "int_of_str s =
     (let t = py_strip s;
          (neg, u) = (case t of [] \<Rightarrow> (False, t)
                      | c # r \<Rightarrow> if c = CHR ''-'' then (True, r) else if c = CHR ''+'' then (False, r) else (False, t))
      in case py_digits u of
           None \<Rightarrow> Inl (ValueError ''invalid literal for int() with base 10'')
         | Some ds \<Rightarrow> Inr (if neg then - int (digits_val ds) else int (digits_val ds)))"

fun py_int :: "pyval \<Rightarrow> exn + int" where
  "py_int (VInt i) = Inr i"
| "py_int (VBool b) = Inr (if b then 1 else 0)"
| "py_int (VFloat r) = Inr (if 0 \<le> r then \<lfloor>r\<rfloor> else \<lceil>r\<rceil>)"
| "py_int (VStr s) = int_of_str s"
| "py_int _ = Inl (TypeError ''int() argument must be a string, a bytes-like object or a real number'')"

text \<open>\<open>_rejected_count\<close>; the argument is \<open>None\<close> where the header is absent.\<close>

definition rejected_entry :: "pyval \<Rightarrow> pydict option" where
  "rejected_entry v =
     (case v of VDict e \<Rightarrow> if dict_get ''reason'' e = Some (VStr ''rejected'') then Some e else None | _ \<Rightarrow> None)"

definition rejected_count :: "pyval option \<Rightarrow> exn + int" where
  "rejected_count x_death =
     (case x_death of
        Some (VList entries) \<Rightarrow>
          map_res sum_list
            (mapM_res (\<lambda>e. case dict_get ''count'' e of None \<Rightarrow> Inr 1 | Some v \<Rightarrow> py_int v)
               (List.map_filter rejected_entry entries))
      | _ \<Rightarrow> Inr 0)"

section \<open>The consumer\<close>

definition send_to_dlq :: "consumer_env \<Rightarrow> message \<Rightarrow> db \<Rightarrow> (exn + unit) \<times> effect list \<times> db" where
  "send_to_dlq env msg d =
     (case ce_publish env of
        Inl e \<Rightarrow> (Inl e, [], d)
      | Inr _ \<Rightarrow>
          (Inr (), [ToDlq \<lparr>dlq_queue = RABBITMQ_DLQ_QUEUE (ce_settings env), dlq_body = msg_body msg,
                           dlq_headers = msg_headers msg, dlq_correlation_id = msg_correlation_id msg\<rparr>], d))"

text \<open>\<open>UUID(body['aggregate_id'])\<close>\<close>

definition aggregate_uuid :: "pydict \<Rightarrow> exn + uuid" where
  "aggregate_uuid body =
     (case dict_get ''aggregate_id'' body of
        None \<Rightarrow> Inl (KeyError ''aggregate_id'')
      | Some (VStr s) \<Rightarrow> parse_uuid s
      | Some VNone \<Rightarrow> Inl (TypeError ''one of the hex, bytes, bytes_le, fields, or int arguments must be given'')
      | Some _ \<Rightarrow> Inl (AttributeError ''replace''))"

text \<open>\<open>body.get('correlation_id')\<close>\<close>

definition body_correlation :: "pydict \<Rightarrow> pyval" where
  "body_correlation body = (case dict_get ''correlation_id'' body of None \<Rightarrow> VNone | Some v \<Rightarrow> v)"

definition outcome_metrics :: "outcome \<Rightarrow> effect list" where
  "outcome_metrics out =
     (if out = OSucceeded then [Metric (PaymentsTotal ''succeeded'')]
      else if out = OFailed then [Metric (PaymentsTotal ''failed'')] else [])"

text \<open>The gauge goes up, and when the handler ends, however it ends, down, and its duration is recorded.\<close>

abbreviation process_metrics :: "consumer_env \<Rightarrow> effect list" where
  "process_metrics env \<equiv>
     [Metric PaymentsInflightInc, Metric PaymentsInflightDec, Metric (PaymentDuration (ce_elapsed env))]"

definition consume_process :: "consumer_env \<Rightarrow> pydict \<Rightarrow> db \<Rightarrow> (exn + unit) \<times> effect list \<times> db" where
  "consume_process env body d =
     (case aggregate_uuid body of
        Inl e \<Rightarrow> (Inl e, [], d)
      | Inr i \<Rightarrow>
          let c = body_correlation body;
              (r, d') = ce_handler env i c d;
              ef = process_metrics env
          in case r of
               Inl e \<Rightarrow> (Inl e, ef, d')
             | Inr res \<Rightarrow> (Inr (), ef @ outcome_metrics (pres_outcome res), d'))"

definition route :: "consumer_env \<Rightarrow> message \<Rightarrow> db \<Rightarrow> (exn + unit) \<times> effect list \<times> db" where
  "route env msg d =
     (case msg_decode msg of
        Inl (ValueError _) \<Rightarrow> send_to_dlq env msg d
      | Inl (TypeError _) \<Rightarrow> send_to_dlq env msg d
      | Inl e \<Rightarrow> (Inl e, [], d)
      | Inr (VDict body) \<Rightarrow>
          if dict_get ''event_type'' body \<noteq> Some (VStr ''PaymentCreated'') then (Inr (), [], d)
          else (case rejected_count (dict_get ''x-death'' (msg_headers msg)) of
                  Inl e \<Rightarrow> (Inl e, [], d)
                | Inr retry_count \<Rightarrow>
                    if RABBITMQ_MAX_RETRIES (ce_settings env) \<le> retry_count then send_to_dlq env msg d
                    else consume_process env body d)
      | Inr _ \<Rightarrow> send_to_dlq env msg d)"

definition consumer_handle :: "consumer_env \<Rightarrow> message \<Rightarrow> db \<Rightarrow> (exn + unit) \<times> effect list \<times> db" where
  "consumer_handle env msg d =
     (case route env msg d of
        (Inr _, ef, d') \<Rightarrow>
          (case ce_ack env of Inl e \<Rightarrow> (Inl e, ef, d') | Inr _ \<Rightarrow> (Inr (), ef @ [Acked], d'))
      | (Inl e, ef, d') \<Rightarrow>
          if is_Exception e then
            (case ce_nack env of
               Inl e' \<Rightarrow> (Inl e', ef @ [Metric PaymentsRetryCount], d')
             | Inr _ \<Rightarrow> (Inr (), ef @ [Metric PaymentsRetryCount, Nacked], d'))
          else (Inl e, ef, d'))"

section \<open>The topology\<close>

record rabbit_exchange =
  ex_name :: string
  ex_type :: string
  ex_durable :: bool

record rabbit_queue =
  q_name :: string
  q_durable :: bool
  q_arguments :: pydict

definition queue_of :: "string \<Rightarrow> pydict \<Rightarrow> rabbit_queue" where
  "queue_of name args = \<lparr>q_name = name, q_durable = True, q_arguments = args\<rparr>"

text \<open>The first argument is \<open>ExchangeType\<close>, which may reject the configured name.\<close>

definition build_topology ::
    "(string \<Rightarrow> exn + string) \<Rightarrow> settings \<Rightarrow>
     exn + rabbit_exchange \<times> rabbit_queue \<times> rabbit_queue \<times> rabbit_queue" where
  "build_topology exchange_type s =
     map_res (\<lambda>ty.
       (\<lparr>ex_name = RABBITMQ_EXCHANGE s, ex_type = ty, ex_durable = True\<rparr>,
        queue_of (RABBITMQ_QUEUE s)
          [(''x-dead-letter-exchange'', VStr (RABBITMQ_EXCHANGE s)),
           (''x-dead-letter-routing-key'', VStr (RABBITMQ_RETRY_QUEUE s))],
        queue_of (RABBITMQ_RETRY_QUEUE s)
          [(''x-message-ttl'', VInt (RABBITMQ_RETRY_TTL_MS s)),
           (''x-dead-letter-exchange'', VStr (RABBITMQ_EXCHANGE s)),
           (''x-dead-letter-routing-key'', VStr (RABBITMQ_ROUTING_KEY s))],
        queue_of (RABBITMQ_DLQ_QUEUE s) []))
     (exchange_type (RABBITMQ_EXCHANGE_TYPE s))"

datatype broker_call =
    DeclareExchange rabbit_exchange
  | DeclareQueue rabbit_queue
  | BindQueue string string string
  | Subscribe rabbit_queue rabbit_exchange

text \<open>The calls \<open>declare_topology\<close> and \<open>register_consumer\<close> make, in order.\<close>

definition declare_topology :: "(string \<Rightarrow> exn + string) \<Rightarrow> settings \<Rightarrow> exn + broker_call list" where
  "declare_topology exchange_type s =
     map_res (\<lambda>(exchange, _, retry_queue, dlq_queue).
       [DeclareExchange exchange, DeclareQueue retry_queue, DeclareQueue dlq_queue,
        BindQueue (q_name retry_queue) (ex_name exchange) (RABBITMQ_RETRY_QUEUE s)])
     (build_topology exchange_type s)"

definition register_consumer :: "(string \<Rightarrow> exn + string) \<Rightarrow> settings \<Rightarrow> exn + broker_call list" where
  "register_consumer exchange_type s =
     map_res (\<lambda>(exchange, main_queue, _, _). [Subscribe main_queue exchange]) (build_topology exchange_type s)"

section \<open>What a delivery does\<close>

definition settlements :: "effect list \<Rightarrow> effect list" where
  "settlements = filter (\<lambda>e. e = Acked \<or> e = Nacked)"

definition metrics_of :: "effect list \<Rightarrow> metric list" where
  "metrics_of = List.map_filter (\<lambda>e. case e of Metric x \<Rightarrow> Some x | _ \<Rightarrow> None)"

lemma settlements_simps [simp]:
  "settlements [] = []" "settlements (Acked # ef) = Acked # settlements ef"
  "settlements (Nacked # ef) = Nacked # settlements ef" "settlements (Metric x # ef) = settlements ef"
  "settlements (ToDlq q # ef) = settlements ef" "settlements (ef @ ef') = settlements ef @ settlements ef'"
  by (simp_all add: settlements_def)

lemma metrics_of_simps [simp]:
  "metrics_of [] = []" "metrics_of (Acked # ef) = metrics_of ef" "metrics_of (Nacked # ef) = metrics_of ef"
  "metrics_of (Metric x # ef) = x # metrics_of ef" "metrics_of (ToDlq q # ef) = metrics_of ef"
  "metrics_of (ef @ ef') = metrics_of ef @ metrics_of ef'"
  by (simp_all add: metrics_of_def List.map_filter_def)

lemma outcome_metrics_simps [simp]:
  "settlements (outcome_metrics out) = []" "inflight (metrics_of (outcome_metrics out)) = 0"
  by (simp_all add: outcome_metrics_def inflight_def)

lemma send_to_dlq_quiet:
  "send_to_dlq env msg d = (r, ef, d') \<Longrightarrow>
     settlements ef = [] \<and> inflight (metrics_of ef) = 0 \<and> d' = d \<and>
     (r = Inr () \<longrightarrow> (\<exists>q. ToDlq q \<in> set ef \<and> dlq_queue q = RABBITMQ_DLQ_QUEUE (ce_settings env) \<and>
        dlq_body q = msg_body msg \<and> dlq_headers q = msg_headers msg))"
  by (auto simp: send_to_dlq_def split: sum.splits)

lemma consume_process_quiet:
  "consume_process env body d = (r, ef, d') \<Longrightarrow>
     settlements ef = [] \<and> inflight (metrics_of ef) = 0 \<and>
     (r = Inr () \<longrightarrow> (\<exists>i res. aggregate_uuid body = Inr i \<and> ce_handler env i (body_correlation body) d = (Inr res, d')))"
  by (auto simp: consume_process_def body_correlation_def Let_def split: sum.splits prod.splits)

text \<open>The branches of \<open>_route\<close>.\<close>

lemma route_cases:
  assumes "route env msg d = (r, ef, d')"
  obtains
    (dlq) "send_to_dlq env msg d = (r, ef, d')"
  | (raised) e where "r = Inl e" "ef = []" "d' = d"
  | (ignored) body where "msg_decode msg = Inr (VDict body)"
      "dict_get ''event_type'' body \<noteq> Some (VStr ''PaymentCreated'')" "r = Inr ()" "ef = []" "d' = d"
  | (processed) body where "msg_decode msg = Inr (VDict body)"
      "dict_get ''event_type'' body = Some (VStr ''PaymentCreated'')" "consume_process env body d = (r, ef, d')"
proof (cases "\<exists>body. msg_decode msg = Inr (VDict body)")
  case True
  then obtain body where b: "msg_decode msg = Inr (VDict body)" by blast
  show thesis
  proof (cases "dict_get ''event_type'' body = Some (VStr ''PaymentCreated'')")
    case True
    with assms b dlq raised processed show thesis by (auto simp: route_def split: sum.splits if_splits)
  next
    case False
    with assms b ignored show thesis by (auto simp: route_def)
  qed
next
  case False
  with assms dlq raised show thesis by (auto simp: route_def split: sum.splits exn.splits pyval.splits)
qed

lemma route_quiet:
  assumes "route env msg d = (r, ef, d')"
  shows "settlements ef = [] \<and> inflight (metrics_of ef) = 0"
  using assms by (cases rule: route_cases) (auto dest: send_to_dlq_quiet consume_process_quiet)

text \<open>
  Property C14. Every delivery is settled exactly once: a delivery that the consumer does not
  acknowledge it rejects, and never both, except when it is cancelled, which leaves the message
  with the broker; the gauge of payments in process ends where it started in every case. Nothing
  is lost silently: an acknowledged message was either a payment message that the handler processed
  without an exception, called with the payment and the correlation id of that very message, or it
  was put into the DLQ with its body and headers, or it is no payment message; in the last two cases
  the tables are as before.
\<close>

theorem consumer_settles_once:
  assumes "ce_ack env = Inr ()" and "ce_nack env = Inr ()" and "consumer_handle env msg d = (r, ef, d')"
  shows "inflight (metrics_of ef) = 0 \<and>
    (r = Inr () \<and> settlements ef \<in> {[Acked], [Nacked]} \<or> r = Inl CancelledError \<and> settlements ef = []) \<and>
    (Acked \<in> set ef \<longrightarrow>
       (\<exists>body i res. msg_decode msg = Inr (VDict body) \<and>
          dict_get ''event_type'' body = Some (VStr ''PaymentCreated'') \<and> aggregate_uuid body = Inr i \<and>
          ce_handler env i (body_correlation body) d = (Inr res, d')) \<or>
       (\<exists>q. ToDlq q \<in> set ef \<and> dlq_queue q = RABBITMQ_DLQ_QUEUE (ce_settings env) \<and>
          dlq_body q = msg_body msg \<and> dlq_headers q = msg_headers msg) \<and> d' = d \<or>
       (\<exists>body. msg_decode msg = Inr (VDict body) \<and>
          dict_get ''event_type'' body \<noteq> Some (VStr ''PaymentCreated'')) \<and> d' = d)"
proof -
  obtain r0 ef0 d0 where run: "route env msg d = (r0, ef0, d0)" by (metis prod_cases3)
  have quiet: "settlements ef0 = []" "inflight (metrics_of ef0) = 0" using route_quiet [OF run] by auto
  then have unsettled: "Acked \<notin> set ef0" by (auto simp: settlements_def filter_empty_conv)
  show ?thesis
  proof (cases r0)
    case (Inl e)
    then have "(r, ef, d') = (if is_Exception e then (Inr (), ef0 @ [Metric PaymentsRetryCount, Nacked], d0)
        else (Inl e, ef0, d0))" using assms run by (simp add: consumer_handle_def split: if_splits)
    with quiet unsettled show ?thesis by (cases e) (auto simp: inflight_def)
  next
    case (Inr u)
    then have res: "r = Inr ()" "ef = ef0 @ [Acked]" "d' = d0" using assms run by (simp_all add: consumer_handle_def)
    from run have "(\<exists>body i res. msg_decode msg = Inr (VDict body) \<and>
          dict_get ''event_type'' body = Some (VStr ''PaymentCreated'') \<and> aggregate_uuid body = Inr i \<and>
          ce_handler env i (body_correlation body) d = (Inr res, d0)) \<or>
       (\<exists>q. ToDlq q \<in> set ef0 \<and> dlq_queue q = RABBITMQ_DLQ_QUEUE (ce_settings env) \<and>
          dlq_body q = msg_body msg \<and> dlq_headers q = msg_headers msg) \<and> d0 = d \<or>
       (\<exists>body. msg_decode msg = Inr (VDict body) \<and>
          dict_get ''event_type'' body \<noteq> Some (VStr ''PaymentCreated'')) \<and> d0 = d"
    proof (cases rule: route_cases)
      case dlq
      with Inr send_to_dlq_quiet [OF dlq] show ?thesis by auto
    next
      case (processed body)
      with Inr consume_process_quiet [OF processed(3)] show ?thesis by simp
    qed (use Inr in auto)
    with res quiet show ?thesis by auto
  qed
qed

text \<open>A payment message whose handler raises.\<close>

definition demo_message_body :: pydict where
  "demo_message_body =
     [(''event_type'', VStr ''PaymentCreated''), (''aggregate_id'', VStr ''00000000-0000-0000-0000-000000000001'')]"

definition demo_payment_message :: message where
  "demo_payment_message =
     \<lparr>msg_decode = Inr (VDict demo_message_body), msg_body = ''{}'', msg_headers = [], msg_correlation_id = None\<rparr>"

definition demo_consumer :: consumer_env where
  "demo_consumer =
     \<lparr>ce_settings = default_settings ''u'' ''p'' ''d'',
      ce_handler = (\<lambda>_ _ d. (Inl (External ''GatewayDown''), d)), ce_publish = Inr (), ce_ack = Inr (),
      ce_nack = Inr (), ce_elapsed = 1/4\<rparr>"

lemma demo_aggregate: "aggregate_uuid demo_message_body = Inr 1"
  by (simp add: aggregate_uuid_def demo_message_body_def dict_get_def) code_simp

theorem consumer_settles_once_witness:
  "\<exists>ef. consumer_handle demo_consumer demo_payment_message demo_db = (Inr (), ef, demo_db) \<and> settlements ef = [Nacked]"
proof -
  let ?ef = "process_metrics demo_consumer @ [Metric PaymentsRetryCount, Nacked]"
  have run: "consumer_handle demo_consumer demo_payment_message demo_db = (Inr (), ?ef, demo_db)"
    using demo_aggregate
    by (simp add: consumer_handle_def route_def demo_payment_message_def rejected_count_def dict_get_def demo_consumer_def
        default_settings_def consume_process_def demo_message_body_def)
  from consumer_settles_once [OF _ _ run] have "settlements ?ef \<in> {[Acked], [Nacked]}"
    by (simp add: demo_consumer_def)
  with run show ?thesis by auto
qed

section \<open>Retries\<close>

text \<open>
  The deliveries of one message: a rejected one comes back as \<open>redeliver\<close> makes it (the broker
  dead-letters it to the retry queue and from there back), at most \<open>fuel\<close> times.
\<close>

fun deliveries :: "consumer_env \<Rightarrow> (message \<Rightarrow> message) \<Rightarrow> nat \<Rightarrow> message \<Rightarrow> db \<Rightarrow> effect list list \<times> db" where
  "deliveries env redeliver 0 msg d = ([], d)"
| "deliveries env redeliver (Suc fuel) msg d =
     (let (_, ef, d') = consumer_handle env msg d in
      if Nacked \<in> set ef
      then let (efs, d'') = deliveries env redeliver fuel (redeliver msg) d' in (ef # efs, d'')
      else ([ef], d'))"

definition deaths :: "message \<Rightarrow> exn + int" where
  "deaths msg = rejected_count (dict_get ''x-death'' (msg_headers msg))"

text \<open>A message of the retry loop: its body is the payment \<open>body\<close>, and it was rejected \<open>n\<close> times.\<close>

definition failing :: "consumer_env \<Rightarrow> bool" where
  "failing env \<longleftrightarrow> (\<forall>i c d. \<exists>e. ce_handler env i c d = (Inl e, d) \<and> is_Exception e) \<and>
     ce_publish env = Inr () \<and> ce_ack env = Inr () \<and> ce_nack env = Inr ()"

lemma failing_retried:
  assumes "failing env" "msg_decode msg = Inr (VDict body)"
    "dict_get ''event_type'' body = Some (VStr ''PaymentCreated'')" "aggregate_uuid body = Inr i"
    "deaths msg = Inr n" "n < RABBITMQ_MAX_RETRIES (ce_settings env)"
  shows "consumer_handle env msg d =
    (Inr (), process_metrics env @ [Metric PaymentsRetryCount, Nacked], d)"
proof -
  let ?c = "body_correlation body"
  obtain e where "ce_handler env i ?c d = (Inl e, d)" "is_Exception e"
    using assms(1) unfolding failing_def by blast
  then have "consume_process env body d = (Inl e, process_metrics env, d)"
    using assms(4) by (simp add: consume_process_def Let_def)
  with assms(2,3,5,6) have "route env msg d = (Inl e, process_metrics env, d)"
    by (simp add: route_def deaths_def)
  with \<open>is_Exception e\<close> assms(1) show ?thesis by (simp add: consumer_handle_def failing_def)
qed

lemma exhausted_to_dlq:
  assumes "failing env" "msg_decode msg = Inr (VDict body)"
    "dict_get ''event_type'' body = Some (VStr ''PaymentCreated'')"
    "deaths msg = Inr n" "RABBITMQ_MAX_RETRIES (ce_settings env) \<le> n"
  shows "\<exists>q. consumer_handle env msg d = (Inr (), [ToDlq q, Acked], d) \<and>
    dlq_queue q = RABBITMQ_DLQ_QUEUE (ce_settings env) \<and> dlq_body q = msg_body msg"
  using assms by (simp add: consumer_handle_def route_def send_to_dlq_def failing_def deaths_def)

text \<open>
  Property C13. A payment message that can never be processed is tried exactly
  \<open>RABBITMQ_MAX_RETRIES\<close> times and then parked: if the broker, as documented, counts each rejection
  in \<open>x-death\<close> and redelivers the message otherwise unchanged, then its first
  \<open>RABBITMQ_MAX_RETRIES\<close> deliveries each call the handler once and are rejected, and the next one
  goes to the DLQ without calling it and is acknowledged; there is no further delivery, and the
  tables are as before.
\<close>

theorem consumer_retries_exactly:
  assumes "failing env" and "RABBITMQ_MAX_RETRIES (ce_settings env) = int n"
    and body: "msg_decode msg = Inr (VDict body)" "dict_get ''event_type'' body = Some (VStr ''PaymentCreated'')"
    "aggregate_uuid body = Inr i"
    and fresh: "deaths msg = Inr 0"
    and broker: "\<And>x k. deaths x = Inr k \<Longrightarrow> deaths (redeliver x) = Inr (k + 1)"
    "\<And>x. msg_decode (redeliver x) = msg_decode x" "\<And>x. msg_body (redeliver x) = msg_body x"
    and fuel: "n < fuel"
  shows "\<exists>q. deliveries env redeliver fuel msg d =
      (replicate n (process_metrics env @ [Metric PaymentsRetryCount, Nacked]) @
       [[ToDlq q, Acked]], d) \<and>
    dlq_queue q = RABBITMQ_DLQ_QUEUE (ce_settings env) \<and> dlq_body q = msg_body msg"
proof -
  have "\<exists>q. deliveries env redeliver fuel x d =
      (replicate m (process_metrics env @ [Metric PaymentsRetryCount, Nacked]) @
       [[ToDlq q, Acked]], d) \<and>
      dlq_queue q = RABBITMQ_DLQ_QUEUE (ce_settings env) \<and> dlq_body q = msg_body msg"
    if "msg_decode x = msg_decode msg" "msg_body x = msg_body msg" "deaths x = Inr (int n - int m)" "m < fuel" for m x fuel
    using that
  proof (induction m arbitrary: x fuel)
    case 0
    from 0 obtain k where k: "fuel = Suc k" by (cases fuel) auto
    from exhausted_to_dlq [OF assms(1) 0(1) [unfolded body(1)] body(2) 0(3), of d] assms(2) 0(2) k
    show ?case by auto
  next
    case (Suc m)
    from Suc.prems obtain k where k: "fuel = Suc k" "m < k" by (cases fuel) auto
    have step: "consumer_handle env x d =
        (Inr (), process_metrics env @ [Metric PaymentsRetryCount, Nacked], d)"
      using failing_retried [OF assms(1) Suc.prems(1) [unfolded body(1)] body(2,3) Suc.prems(3)] assms(2) by simp
    have "deaths (redeliver x) = Inr (int n - int m)" using broker(1) [OF Suc.prems(3)] by simp
    from Suc.IH [OF _ _ this k(2)] Suc.prems(1,2) broker(2,3) step show ?case by (auto simp: k(1))
  qed
  from this [of msg n fuel] fresh fuel show ?thesis by simp
qed

definition count_death :: "message \<Rightarrow> message" where
  "count_death msg =
     (case deaths msg of
        Inr k \<Rightarrow> msg\<lparr>msg_headers :=
          [(''x-death'', VList [VDict [(''reason'', VStr ''rejected''), (''count'', VInt (k + 1))],
                              VDict [(''reason'', VStr ''expired''), (''count'', VInt (k + 1))]])]\<rparr>
      | Inl _ \<Rightarrow> msg)"

theorem consumer_retries_exactly_witness:
  "\<exists>q. deliveries demo_consumer count_death 9 demo_payment_message demo_db =
      (replicate 3 (process_metrics demo_consumer @ [Metric PaymentsRetryCount, Nacked]) @
       [[ToDlq q, Acked]], demo_db) \<and> dlq_queue q = ''payments.dlq''"
proof -
  have "failing demo_consumer" by (simp add: failing_def demo_consumer_def)
  moreover have "RABBITMQ_MAX_RETRIES (ce_settings demo_consumer) = int 3"
    by (simp add: demo_consumer_def default_settings_def)
  moreover have "msg_decode demo_payment_message = Inr (VDict demo_message_body)" by (simp add: demo_payment_message_def)
  moreover have "dict_get ''event_type'' demo_message_body = Some (VStr ''PaymentCreated'')"
    by (simp add: dict_get_def demo_message_body_def)
  moreover note demo_aggregate
  moreover have "deaths demo_payment_message = Inr 0"
    by (simp add: deaths_def rejected_count_def demo_payment_message_def dict_get_def)
  moreover have "deaths (count_death x) = Inr (k + 1)" if "deaths x = Inr k" for x k
    using that by (simp add: count_death_def) (simp add: deaths_def rejected_count_def dict_get_def rejected_entry_def List.map_filter_def)
  moreover have "msg_decode (count_death x) = msg_decode x" "msg_body (count_death x) = msg_body x" for x
    by (simp_all add: count_death_def split: sum.split)
  moreover have "3 < (9::nat)" by simp
  ultimately have "\<exists>q. deliveries demo_consumer count_death 9 demo_payment_message demo_db =
      (replicate 3 (process_metrics demo_consumer @ [Metric PaymentsRetryCount, Nacked]) @
       [[ToDlq q, Acked]], demo_db) \<and>
      dlq_queue q = RABBITMQ_DLQ_QUEUE (ce_settings demo_consumer) \<and> dlq_body q = msg_body demo_payment_message"
    by (rule consumer_retries_exactly)
  then show ?thesis by (auto simp: demo_consumer_def default_settings_def)
qed

end
