(* ===== verification/FakeGateway.thy ===== *)
theory FakeGateway
  imports ProcessPayment
begin

text \<open>
  \<open>infrastructure/gateway/fake_gateway.py\<close>: the gateway of the program, and what the process handler
  does with it. The random generator, the sleep (which a cancellation may end), the clock and
  \<open>uuid4\<close> are what one call draws.
\<close>

record fake_gateway =
  fg_min_delay :: rat
  fg_max_delay :: rat
  fg_failure_rate :: rat

definition mk_fake_gateway :: "rat \<Rightarrow> rat \<Rightarrow> rat \<Rightarrow> exn + fake_gateway" where
  "mk_fake_gateway min_delay max_delay failure_rate =
     (if min_delay < 0 \<or> max_delay < min_delay then Inl (ValueError ''Invalid gateway delay bounds'')
      else if \<not> (0 \<le> failure_rate \<and> failure_rate \<le> 1) then Inl (ValueError ''failure_rate must be in [0, 1]'')
      else Inr \<lparr>fg_min_delay = min_delay, fg_max_delay = max_delay, fg_failure_rate = failure_rate\<rparr>)"

text \<open>\<open>uniform(a, b)\<close> is \<open>a + (b - a) * random()\<close>.\<close>

record charge_draw =
  cd_random1 :: rat
  cd_sleep :: "rat \<Rightarrow> exn + unit"
  cd_random2 :: rat
  cd_now :: datetime
  cd_uuid4 :: uuid

definition charge_raw :: "uuid \<Rightarrow> money \<Rightarrow> string \<Rightarrow> string \<Rightarrow> datetime \<Rightarrow> pydict" where
  "charge_raw i m key time_key now =
     [(''provider'', VStr ''fake''), (''payment_id'', VStr (uuid_str i)), (''idempotency_key'', VStr key),
      (''amount'', VStr (dec_str (money_amount m))), (''currency'', VStr (currency_value (money_currency m))),
      (time_key, VStr (isoformat now))]"

definition fake_charge :: "fake_gateway \<Rightarrow> charge_draw \<Rightarrow> gateway" where
  "fake_charge g dr i m key =
     bind_res (cd_sleep dr (fg_min_delay g + (fg_max_delay g - fg_min_delay g) * cd_random1 dr)) (\<lambda>_.
       if cd_random2 dr < fg_failure_rate g then
         Inr \<lparr>gr_success = False, gr_gateway_id = None, gr_error = Some ''Gateway declined the transaction'',
              gr_raw = Some (charge_raw i m key ''declined_at'' (cd_now dr))\<rparr>
       else
         Inr \<lparr>gr_success = True, gr_gateway_id = Some (uuid_str (cd_uuid4 dr)), gr_error = None,
              gr_raw = Some (charge_raw i m key ''charged_at'' (cd_now dr))\<rparr>)"

lemma charge_raw_json: "json_dict (charge_raw i m key k now)"
  by (simp add: charge_raw_def json_dict_def)

lemma charge_raw_text: "text_ok key \<Longrightarrow> text_ok k \<Longrightarrow> json_text (VDict (charge_raw i m key k now))"
  by (simp add: charge_raw_def)

text \<open>What the gateway answers to a key the service accepts can be stored.\<close>

lemma fake_charge_storable:
  "fake_charge g dr i m key = Inr r \<Longrightarrow> text_ok key \<Longrightarrow> params_check (gr_raw r) [gr_error r] = Inr ()"
  by (auto simp: fake_charge_def res_simps charge_raw_json charge_raw_text simp del: json_text.simps split: if_splits)

lemma fake_charge_Inr:
  assumes "cd_sleep dr (fg_min_delay g + (fg_max_delay g - fg_min_delay g) * cd_random1 dr) = Inr u"
  obtains r where "fake_charge g dr i m key = Inr r" "gr_success r \<longleftrightarrow> fg_failure_rate g \<le> cd_random2 dr"
    "gr_success r \<longleftrightarrow> gr_gateway_id r \<noteq> None" "gr_success r \<longleftrightarrow> gr_error r = None"
    "\<exists>raw. gr_raw r = Some raw \<and> json_dict raw"
  using assms by (cases "cd_random2 dr < fg_failure_rate g") (auto simp: fake_charge_def charge_raw_json)

text \<open>
  The fake gateway keeps the contract of the port: a constructed gateway waits between
  its two bounds, and a call whose wait is not interrupted returns a result and never raises; it
  is a success exactly when the second draw reaches the failure rate, so always at rate 0 and
  never at rate 1; a success has a gateway id and no error, a decline an error and no id; and the
  raw response can be stored.
\<close>

theorem fake_gateway_contract:
  assumes "mk_fake_gateway lo hi rate = Inr g"
    and "0 \<le> cd_random1 dr" "cd_random1 dr < 1" "0 \<le> cd_random2 dr" "cd_random2 dr < 1"
    and "\<forall>s. lo \<le> s \<and> s \<le> hi \<longrightarrow> cd_sleep dr s = Inr ()"
  shows "\<exists>r. fake_charge g dr i m key = Inr r \<and> (gr_success r \<longleftrightarrow> rate \<le> cd_random2 dr) \<and>
    (rate = 0 \<longrightarrow> gr_success r) \<and> (rate = 1 \<longrightarrow> \<not> gr_success r) \<and>
    (gr_success r \<longleftrightarrow> gr_gateway_id r \<noteq> None) \<and> (gr_success r \<longleftrightarrow> gr_error r = None) \<and>
    (\<exists>raw. gr_raw r = Some raw \<and> json_dict raw)"
proof -
  from assms(1) have g: "g = \<lparr>fg_min_delay = lo, fg_max_delay = hi, fg_failure_rate = rate\<rparr>" "lo \<le> hi"
    by (auto simp: mk_fake_gateway_def split: if_splits)
  have "(hi - lo) * cd_random1 dr \<le> (hi - lo) * 1" using g(2) assms(3) by (intro mult_left_mono) simp_all
  moreover have "0 \<le> (hi - lo) * cd_random1 dr" using g(2) assms(2) by simp
  ultimately have "cd_sleep dr (fg_min_delay g + (fg_max_delay g - fg_min_delay g) * cd_random1 dr) = Inr ()"
    using assms(6) by (simp add: g)
  then obtain r where "fake_charge g dr i m key = Inr r" "gr_success r \<longleftrightarrow> rate \<le> cd_random2 dr"
    "gr_success r \<longleftrightarrow> gr_gateway_id r \<noteq> None" "gr_success r \<longleftrightarrow> gr_error r = None"
    "\<exists>raw. gr_raw r = Some raw \<and> json_dict raw"
    by (rule fake_charge_Inr) (simp add: g)
  with assms(4,5) show ?thesis by auto
qed

definition demo_draw :: charge_draw where
  "demo_draw = \<lparr>cd_random1 = 1/2, cd_sleep = (\<lambda>_. Inr ()), cd_random2 = 1/20, cd_now = 0, cd_uuid4 = 77\<rparr>"

theorem fake_gateway_contract_witness:
  "\<exists>g r. mk_fake_gateway 2 5 (1/10) = Inr g \<and> fake_charge g demo_draw 1 (Money (Finite 1000 (-2)) USD) ''order-1'' = Inr r \<and>
     \<not> gr_success r"
proof -
  have mk: "mk_fake_gateway 2 5 (1/10) = Inr \<lparr>fg_min_delay = 2, fg_max_delay = 5, fg_failure_rate = 1/10\<rparr>"
    by (simp add: mk_fake_gateway_def)
  from fake_gateway_contract [OF mk, of demo_draw 1 "Money (Finite 1000 (-2)) USD" "''order-1''"] mk show ?thesis by (auto simp: demo_draw_def)
qed

text \<open>
  A payment message with a fresh payment gets its result: when the call's first read
  and its update both find the payment pending, in the same version and without an attempt, the
  new ids are unused and the correlation id fits its column, then one call with the fake gateway
  finishes: it returns the outcome the gateway decided, and the payment is stored as succeeded or
  failed.
\<close>

theorem process_payment_completes:
  assumes "ids_unique d" and row: "row_by pr_id (pc_payment_id c) (payments seen) = Some r"
    "payment_to_domain r = Inr p" "p_status p = Pending"
    and state: "payment_state (pc_payment_id c) d = Some (''pending'', p_version p)"
    and fresh: "attempts_of (pc_payment_id c) d = []" "row_by ar_id (pe_attempt_id env) (payment_attempts d) = None"
    "row_by wr_id (pe_delivery_id env) (webhook_deliveries d) = None"
    and "varchar_opt 64 (pc_correlation_id c)" "text_opt (pc_correlation_id c)" and "cd_sleep dr delay = Inr ()"
    and "delay = fg_min_delay g + (fg_max_delay g - fg_min_delay g) * cd_random1 dr"
  shows "\<exists>d' res st. process_payment env (fake_charge g dr) seen c d = (Inr res, d') \<and>
    pres_outcome res = (if cd_random2 dr < fg_failure_rate g then OFailed else OSucceeded) \<and>
    st = (if cd_random2 dr < fg_failure_rate g then ''failed'' else ''succeeded'') \<and>
    payment_state (pc_payment_id c) d' = Some (st, p_version p + 2)"
proof -
  let ?i = "pc_payment_id c"
  from assms(11,12) obtain q where q: "fake_charge g dr ?i (p_money p) (key_value (p_idempotency_key p)) = Inr q"
    "gr_success q \<longleftrightarrow> fg_failure_rate g \<le> cd_random2 dr"
    using fake_charge_Inr [of dr g "()"] by metis
  let ?a = "started_attempt env c ?i []"
  have here: "row_by pr_id ?i (payments d) \<noteq> None" using state by (auto simp: payment_state_def)
  have a: "attempt_row_check d (attempt_values ?a) = Inr ()"
    using here fresh assms(9,10) by (simp add: attempt_row_check_def attempt_values_def started_attempt_def attempt_create_def
        next_attempt_number_def int4_def varchar_def varchar_opt_def params_check_def)
  have w: "delivery_row_check d (delivery_to_model (staged_delivery env c ?i q)) = Inr ()"
    using here fresh assms(9,10) by (simp add: delivery_row_check_def delivery_to_model_def staged_delivery_def
        delivery_create_def fin_event_def int4_def varchar_def varchar_opt_def params_check_def)
  from row(2) have "text_ok (key_value (p_idempotency_key p))"
    by (auto simp: payment_to_domain_def res_simps dest: text_ok_key)
  from fake_charge_storable [OF q(1) this]
  have json: "params_check (a_gateway_response (fin_attempt q (pe_finished env) ?a)) [a_error (fin_attempt q (pe_finished env) ?a)] = Inr ()"
    by (auto simp: fin_attempt_def started_attempt_def attempt_create_def res_simps)
  have "charged env (fake_charge g dr) c p d =
      (Inr \<lparr>pres_outcome = fin_outcome q, pres_gateway_id = or_else (gr_gateway_id q) (gr_error q)\<rparr>,
       settled env c q ?a d)"
    using json by (simp add: charged_def fresh(1) q(1) a w Let_def)
  then have run: "process_payment env (fake_charge g dr) seen c d =
      (Inr \<lparr>pres_outcome = fin_outcome q, pres_gateway_id = or_else (gr_gateway_id q) (gr_error q)\<rparr>,
       settled env c q ?a d)"
    using row state by (simp add: process_payment_eq [OF assms(1)])
  have "payment_state ?i (settled env c q ?a d) = Some (payment_status_value (fin_status q), p_version p + 2)"
    using settled_state state by simp
  with run show ?thesis by (auto simp: fin_outcome_def fin_status_def q(2))
qed

theorem process_payment_completes_witness:
  "\<exists>d' res. process_payment demo_process_env (fake_charge \<lparr>fg_min_delay = 2, fg_max_delay = 5, fg_failure_rate = 1/10\<rparr> demo_draw)
     demo_db demo_process_command demo_db = (Inr res, d') \<and> payment_state 1 d' = Some (''failed'', 2)"
proof -
  let ?g = "\<lparr>fg_min_delay = 2, fg_max_delay = 5, fg_failure_rate = 1/10\<rparr> :: fake_gateway"
  have "varchar_opt 64 (pc_correlation_id demo_process_command)" "text_opt (pc_correlation_id demo_process_command)" "cd_sleep demo_draw s = Inr ()" for s
    by (simp_all add: demo_process_command_def varchar_opt_def demo_draw_def)
  note pre = this
  have "row_by pr_id (pc_payment_id demo_process_command) (payments demo_db) = Some demo_row"
    "payment_state (pc_payment_id demo_process_command) demo_db = Some (''pending'', p_version demo_payment)"
    "attempts_of (pc_payment_id demo_process_command) demo_db = []"
    "row_by ar_id (pe_attempt_id demo_process_env) (payment_attempts demo_db) = None"
    "row_by wr_id (pe_delivery_id demo_process_env) (webhook_deliveries demo_db) = None"
    using demo_process_facts by simp_all
  from process_payment_completes [OF demo_process_facts(1) this(1) demo_row_domain demo_process_facts(6) this(2-5) pre refl,
      of ?g] demo_process_facts(5,7)
  show ?thesis by (auto simp: demo_draw_def)
qed

end
