(* ===== verification/PyText.thy ===== *)
theory PyText
  imports PyBase
begin

text \<open>
  Operations of Python's \<open>str\<close> that several parts of the program use: \<open>endswith\<close>, \<open>in\<close> and
  \<open>replace\<close> with a non-empty pattern.
\<close>

definition ends_with :: "string \<Rightarrow> string \<Rightarrow> bool" where
  "ends_with suffix s \<longleftrightarrow> length suffix \<le> length s \<and> drop (length s - length suffix) s = suffix"

definition starts_with :: "string \<Rightarrow> string \<Rightarrow> bool" where
  "starts_with prefix s \<longleftrightarrow> take (length prefix) s = prefix"

text \<open>The occurrences are found from left to right and do not overlap.\<close>

fun replace_all :: "string \<Rightarrow> string \<Rightarrow> string \<Rightarrow> string" where
  "replace_all old new [] = []"
| "replace_all old new (c # s) =
     (if starts_with old (c # s) then new @ replace_all old new (drop (length old - 1) s)
      else c # replace_all old new s)"

fun contains :: "string \<Rightarrow> string \<Rightarrow> bool" where
  "contains sub [] \<longleftrightarrow> sub = []"
| "contains sub (c # s) \<longleftrightarrow> starts_with sub (c # s) \<or> contains sub s"

lemma ends_with_iff: "ends_with suffix s \<longleftrightarrow> (\<exists>p. s = p @ suffix)"
proof
  assume "ends_with suffix s"
  then have "s = take (length s - length suffix) s @ suffix"
    unfolding ends_with_def by (metis append_take_drop_id)
  then show "\<exists>p. s = p @ suffix" ..
qed (auto simp: ends_with_def)

lemma starts_with_iff: "starts_with prefix s \<longleftrightarrow> (\<exists>r. s = prefix @ r)"
  unfolding starts_with_def by (metis append_eq_conv_conj)

lemma contains_iff: "contains sub s \<longleftrightarrow> (\<exists>p r. s = p @ sub @ r)"
proof (induction s)
  case (Cons c s)
  have "(\<exists>p r. c # s = p @ sub @ r) \<longleftrightarrow> (\<exists>r. c # s = sub @ r) \<or> (\<exists>p r. s = p @ sub @ r)"
    by (metis append_Cons append_Nil neq_Nil_conv list.inject)
  with Cons show ?case by (simp add: starts_with_iff)
qed simp

lemma replace_all_absent: "\<not> contains old s \<Longrightarrow> replace_all old new s = s"
  by (induction s) auto

text \<open>One occurrence, and none that overlaps it, is replaced where it stands.\<close>

lemma replace_all_first:
  "s = p @ old @ r \<Longrightarrow> old \<noteq> [] \<Longrightarrow> (\<forall>q t. s = q @ old @ t \<longrightarrow> length p \<le> length q) \<Longrightarrow>
     replace_all old new s = p @ new @ replace_all old new r"
proof (induction p arbitrary: s)
  case Nil
  then obtain c u where "old = c # u" by (cases old) auto
  with Nil show ?case by (simp add: starts_with_def)
next
  case (Cons c p)
  have "\<not> starts_with old s"
  proof
    assume "starts_with old s"
    then obtain t where "s = [] @ old @ t" by (auto simp: starts_with_iff)
    with Cons.prems(3) show False by force
  qed
  moreover have "\<forall>q t. p @ old @ r = q @ old @ t \<longrightarrow> length p \<le> length q"
  proof (intro allI impI)
    fix q t assume "p @ old @ r = q @ old @ t"
    then have "s = (c # q) @ old @ t" using Cons.prems(1) by simp
    with Cons.prems(3) have "length (c # p) \<le> length (c # q)" by blast
    then show "length p \<le> length q" by simp
  qed
  ultimately show ?case using Cons.IH [of "p @ old @ r"] Cons.prems(1,2) by simp
qed

end
