(* ===== verification/I18n.thy ===== *)
theory I18n
  imports Config Decimals Serialization PyText
begin

text \<open>
  \<open>runtime/i18n\<close>: the locale of a request from its \<open>Accept-Language\<close> header, and the translator of
  message keys. The translator's files are read at start; their content is the argument \<open>tr_cache\<close>.
\<close>

record locale_info =
  loc_code :: string
  loc_fallback :: "string option"

definition get_locale_code :: "locale_info option \<Rightarrow> string \<Rightarrow> string" where
  "get_locale_code ctx dflt = (case ctx of None \<Rightarrow> dflt | Some l \<Rightarrow> loc_code l)"

text \<open>\<open>s.split(c)[0]\<close>\<close>

definition split_head :: "char \<Rightarrow> string \<Rightarrow> string" where
  "split_head c s = takeWhile (\<lambda>x. x \<noteq> c) s"

text \<open>The header is the empty string where it is absent.\<close>

definition request_locale :: "settings \<Rightarrow> string \<Rightarrow> locale_info" where
  "request_locale s accept_language =
     (let raw = py_strip (split_head CHR '','' accept_language);
          lang = split_head CHR ''-'' (split_head CHR '';'' raw)
      in if lang \<in> set (SUPPORTED_LOCALES s)
         then \<lparr>loc_code = lang, loc_fallback = Some (DEFAULT_LOCALE s)\<rparr>
         else \<lparr>loc_code = DEFAULT_LOCALE s, loc_fallback = None\<rparr>)"

section \<open>The translator\<close>

record translator =
  tr_cache :: "(string \<times> pyval) list"
  tr_default :: string

text \<open>\<open>s.split('.')\<close>\<close>

fun split_dots :: "string \<Rightarrow> string list" where
  "split_dots [] = [[]]"
| "split_dots (c # s) =
     (if c = CHR ''.'' then [] # split_dots s
      else case split_dots s of [] \<Rightarrow> [[c]] | w # ws \<Rightarrow> (c # w) # ws)"

text \<open>Walking down the nested dictionaries; \<open>None\<close> is Python's.\<close>

fun resolve_path :: "string list \<Rightarrow> pyval option \<Rightarrow> pyval option" where
  "resolve_path [] obj = obj"
| "resolve_path (p # ps) (Some (VDict d)) = resolve_path ps (dict_get p d)"
| "resolve_path (p # ps) _ = None"

definition tr_resolve :: "translator \<Rightarrow> string \<Rightarrow> string \<Rightarrow> pyval option" where
  "tr_resolve tr key loc =
     (case resolve_path (split_dots key) (dict_get loc (tr_cache tr)) of
        Some VNone \<Rightarrow> None
      | v \<Rightarrow> v)"

text \<open>The parameters are strings in every call.\<close>

definition tr_translate :: "translator \<Rightarrow> string \<Rightarrow> string \<Rightarrow> (string \<times> string) list \<Rightarrow> exn + pyval" where
  "tr_translate tr key loc params =
     (let found = (case tr_resolve tr key loc of
                     Some v \<Rightarrow> if truthy v then Some v else tr_resolve tr key (tr_default tr)
                   | None \<Rightarrow> tr_resolve tr key (tr_default tr))
      in case found of
           None \<Rightarrow> Inr (VStr key)
         | Some (VStr text) \<Rightarrow>
             Inr (VStr (fold (\<lambda>(k, v) t. replace_all (''{'' @ k @ ''}'') v t) params text))
         | Some v \<Rightarrow> if params = [] then Inr v else Inl (AttributeError ''replace''))"

section \<open>Properties\<close>

definition is_lower :: "char \<Rightarrow> bool" where
  "is_lower c \<longleftrightarrow> 97 \<le> (of_char c :: nat) \<and> (of_char c :: nat) \<le> 122"

lemma dropWhile_none: "list_all (\<lambda>c. \<not> P c) xs \<Longrightarrow> dropWhile P xs = xs"
  by (cases xs) auto

lemma py_strip_id: "list_all (\<lambda>c. \<not> py_space c) s \<Longrightarrow> py_strip s = s"
  by (simp add: py_strip_def dropWhile_none)

lemma lower_facts: "is_lower c \<Longrightarrow> \<not> py_space c \<and> c \<noteq> CHR '','' \<and> c \<noteq> CHR '';'' \<and> c \<noteq> CHR ''-''"
  by (auto simp: is_lower_def py_space_def Let_def)

lemma takeWhile_all: "list_all P xs \<Longrightarrow> \<not> P y \<Longrightarrow> takeWhile P (xs @ y # ys) = xs"
  by (induction xs) auto

lemma request_locale_code:
  assumes "list_all is_lower lang" "list_all (\<lambda>c. is_lower c \<or> c = CHR ''-'') region" "lang \<in> set (SUPPORTED_LOCALES s)"
  shows "loc_code (request_locale s (lang @ ''-'' @ region @ '','' @ rest)) = lang"
    and "loc_code (request_locale s lang) = lang"
proof -
  let ?tag = "lang @ ''-'' @ region"
  have low: "list_all (\<lambda>c. \<not> py_space c \<and> c \<noteq> CHR '','' \<and> c \<noteq> CHR '';'' \<and> c \<noteq> CHR ''-'') lang"
    using assms(1) by (rule list.pred_mono_strong) (use lower_facts in blast)
  have char: "\<not> py_space c \<and> c \<noteq> CHR '','' \<and> c \<noteq> CHR '';''" if "is_lower c \<or> c = CHR ''-''" for c
    using that by (auto dest: lower_facts simp: py_space_def)
  have "list_all (\<lambda>c. is_lower c \<or> c = CHR ''-'') lang"
    using assms(1) by (rule list.pred_mono_strong) simp
  with assms(2) have "list_all (\<lambda>c. is_lower c \<or> c = CHR ''-'') ?tag" by simp
  then have all: "list_all (\<lambda>c. \<not> py_space c \<and> c \<noteq> CHR '','' \<and> c \<noteq> CHR '';'') ?tag"
    by (rule list.pred_mono_strong) (rule char)
  have "list_all (\<lambda>c. c \<noteq> CHR '','') ?tag" using all by (simp add: list_all_iff)
  then have "split_head CHR '','' (?tag @ '','' @ rest) = ?tag"
    unfolding split_head_def using takeWhile_all [of "\<lambda>c. c \<noteq> CHR '',''" ?tag "CHR '',''" rest] by simp
  moreover have "py_strip ?tag = ?tag" using all by (intro py_strip_id) (simp add: list_all_iff)
  moreover have "split_head CHR '';'' ?tag = ?tag"
    unfolding split_head_def using all by (auto simp: takeWhile_eq_all_conv list_all_iff)
  moreover have "split_head CHR ''-'' ?tag = lang"
    unfolding split_head_def using low takeWhile_all [of "\<lambda>c. c \<noteq> CHR ''-''" lang "CHR ''-''" region]
    by (auto simp: list_all_iff)
  ultimately show "loc_code (request_locale s (lang @ ''-'' @ region @ '','' @ rest)) = lang"
    using assms(3) by (simp add: request_locale_def Let_def)
  have "split_head c lang = lang" if "c \<in> {CHR '','', CHR '';'', CHR ''-''}" for c
    unfolding split_head_def using that low by (auto simp: takeWhile_eq_all_conv list_all_iff)
  moreover have "py_strip lang = lang" using low by (intro py_strip_id) (simp add: list_all_iff)
  ultimately show "loc_code (request_locale s lang) = lang"
    using assms(3) by (simp add: request_locale_def Let_def)
qed

text \<open>
  Every request gets a usable locale: whatever the header contains, the code is one of
  the supported locales or the default; and a header that asks first for a supported language,
  with or without a region, gets that language.
\<close>

theorem request_locale_supported:
  assumes "list_all is_lower lang" and "list_all (\<lambda>c. is_lower c \<or> c = CHR ''-'') region"
    and "lang \<in> set (SUPPORTED_LOCALES s)"
  shows "loc_code (request_locale s h) \<in> insert (DEFAULT_LOCALE s) (set (SUPPORTED_LOCALES s)) \<and>
    loc_code (request_locale s (lang @ ''-'' @ region @ '','' @ rest)) = lang \<and>
    loc_code (request_locale s lang) = lang"
  using request_locale_code [OF assms] by (simp add: request_locale_def Let_def)

theorem request_locale_supported_witness:
  "loc_code (request_locale (default_settings ''u'' ''p'' ''d'') ''ru-ru,en'') = ''ru''"
proof -
  have "list_all is_lower ''ru''" by (simp add: is_lower_def)
  moreover have "list_all (\<lambda>c. is_lower c \<or> c = CHR ''-'') ''ru''" by (simp add: is_lower_def)
  moreover have "''ru'' \<in> set (SUPPORTED_LOCALES (default_settings ''u'' ''p'' ''d''))"
    by (simp add: default_settings_def)
  ultimately show ?thesis using request_locale_supported [of "''ru''" "''ru''" _ _ "''en''"] by fastforce
qed

text \<open>
  The translator always answers with something readable: if the leaves of every
  locale file are nonempty texts, a key that a file of the requested or the default locale
  resolves to a text gives that text with its parameters filled in, and a key no file knows comes
  back as it is.
\<close>

theorem translate_fallback:
  assumes "tr_resolve tr key loc = None \<or> (\<exists>c s. tr_resolve tr key loc = Some (VStr (c # s)))"
    and "tr_resolve tr key (tr_default tr) = None \<or> (\<exists>c s. tr_resolve tr key (tr_default tr) = Some (VStr (c # s)))"
  shows "tr_translate tr key loc params =
    Inr (VStr (case tr_resolve tr key loc of
       Some (VStr t) \<Rightarrow> fold (\<lambda>(k, v). replace_all (''{'' @ k @ ''}'') v) params t
     | _ \<Rightarrow> (case tr_resolve tr key (tr_default tr) of
               Some (VStr t) \<Rightarrow> fold (\<lambda>(k, v). replace_all (''{'' @ k @ ''}'') v) params t
             | _ \<Rightarrow> key)))"
  using assms by (auto simp: tr_translate_def Let_def)

definition demo_translator :: translator where
  "demo_translator =
     \<lparr>tr_cache = [(''en'', VDict [(''error'', VDict [(''NOT_FOUND'', VStr ''No {id}'')])])], tr_default = ''en''\<rparr>"

theorem translate_fallback_witness:
  "tr_translate demo_translator ''error.NOT_FOUND'' ''ru'' [(''id'', ''7'')] = Inr (VStr ''No 7'')"
proof -
  have r: "tr_resolve demo_translator ''error.NOT_FOUND'' ''ru'' = None"
    "tr_resolve demo_translator ''error.NOT_FOUND'' (tr_default demo_translator) = Some (VStr ''No {id}'')"
    by (simp_all add: tr_resolve_def demo_translator_def dict_get_def)
  from translate_fallback [of demo_translator "''error.NOT_FOUND''" "''ru''" "[(''id'', ''7'')]"] r
  show ?thesis by (simp add: starts_with_def)
qed

end
