(* ===== verification/Http.thy ===== *)
theory Http
  imports GetPayment I18n
begin

text \<open>
  The HTTP layer: \<open>presentation/api/v1/payments\<close> (routes, the API key dependency), \<open>presentation/schemas\<close>
  and \<open>mappers\<close>, \<open>runtime/http/handlers.py\<close> (exceptions to responses) and the request-id and locale
  middleware around them (\<open>runtime/logging/logger.py\<close>, \<open>runtime/bootstrap/app_factory.py\<close>).

  FastAPI, Starlette and pydantic are outside the repository. Reading the types and the defaults of
  a decoded request body is the parameter \<open>parse\<close>; the constraints the schema declares are definitions.
  FastAPI decodes the JSON body of a route that has one before it runs the route's dependencies. An
  exception handler for \<open>Exception\<close> runs outside all middleware, the other handlers inside, as
  Starlette documents. The CORS middleware is left out.
\<close>

section \<open>Schemas\<close>

record create_request =
  cr_amount :: decimal
  cr_currency :: string
  cr_description :: "string option"
  cr_metadata :: pydict
  cr_webhook_url :: string

definition validate_webhook_url :: "string \<Rightarrow> exn + string" where
  "validate_webhook_url v =
     (if take 7 v = ''http://'' \<or> take 8 v = ''https://'' then Inr v
      else Inl (ValueError ''webhook_url must start with http(s)://''))"

text \<open>\<open>gt=0\<close>, \<open>decimal_places=2\<close> (pydantic rejects infinities and NaN), the literal and \<open>max_length\<close>.\<close>

fun amount_constraints :: "decimal \<Rightarrow> bool" where
  "amount_constraints (Finite c e) \<longleftrightarrow> 0 < c \<and> whole_cents c e"
| "amount_constraints _ \<longleftrightarrow> False"

definition schema_ok :: "create_request \<Rightarrow> bool" where
  "schema_ok r \<longleftrightarrow> amount_constraints (cr_amount r) \<and> cr_currency r \<in> {''RUB'', ''USD'', ''EUR''} \<and>
     (case cr_description r of None \<Rightarrow> True | Some s \<Rightarrow> length s \<le> 1024) \<and>
     is_ok (validate_webhook_url (cr_webhook_url r))"

record created_response =
  crs_payment_id :: uuid
  crs_status :: string
  crs_created_at :: datetime

record attempt_response =
  ars_attempt_number :: int
  ars_status :: string
  ars_error :: "string option"
  ars_gateway_response :: "pydict option"
  ars_created_at :: datetime

record payment_response =
  prs_payment_id :: uuid
  prs_status :: string
  prs_amount :: decimal
  prs_currency :: string
  prs_description :: "string option"
  prs_metadata :: pydict
  prs_idempotency_key :: string
  prs_webhook_url :: string
  prs_created_at :: datetime
  prs_processed_at :: "datetime option"
  prs_attempts :: "attempt_response list option"

definition to_attempt_response :: "attempt_dto \<Rightarrow> attempt_response" where
  "to_attempt_response a =
     \<lparr>ars_attempt_number = ad_attempt_number a, ars_status = ad_status a, ars_error = ad_error a,
      ars_gateway_response = ad_gateway_response a, ars_created_at = ad_created_at a\<rparr>"

definition to_payment_response :: "payment_dto \<Rightarrow> payment_response" where
  "to_payment_response p =
     \<lparr>prs_payment_id = pd_payment_id p, prs_status = pd_status p, prs_amount = pd_amount p,
      prs_currency = pd_currency p, prs_description = pd_description p, prs_metadata = pd_metadata p,
      prs_idempotency_key = pd_idempotency_key p, prs_webhook_url = pd_webhook_url p,
      prs_created_at = pd_created_at p, prs_processed_at = pd_processed_at p,
      prs_attempts = map_option (map to_attempt_response) (pd_attempts p)\<rparr>"

section \<open>Requests, responses and errors\<close>

text \<open>
  A body as FastAPI finds it: decoded JSON, or bytes that are no JSON, with the errors it reports of
  them, or a body it cannot read.
\<close>

datatype request_body = Decoded pyval | Malformed pyval | Unreadable

record http_req =
  hq_api_key :: "string option"
  hq_idempotency_key :: "string option"
  hq_request_id :: "string option"
  hq_correlation_id :: "string option"
  hq_accept_language :: string
  hq_body :: request_body

datatype response_body =
    ErrorBody pydict
  | CreatedBody created_response
  | PaymentBody payment_response

record http_resp =
  rs_status :: int
  rs_body :: response_body
  rs_headers :: "(string \<times> string) list"

datatype api_error = Raised exn | HttpException int string | RequestInvalid pyval

definition response :: "int \<Rightarrow> response_body \<Rightarrow> http_resp" where
  "response st b = \<lparr>rs_status = st, rs_body = b, rs_headers = []\<rparr>"

section \<open>The routes\<close>

text \<open>The settings of \<open>app.state\<close>, otherwise the cached ones: \<open>cache\<close> and \<open>raw\<close> are those of \<open>get_settings\<close>.\<close>

definition require_api_key ::
    "settings option \<Rightarrow> settings option \<Rightarrow> exn + settings \<Rightarrow> string option \<Rightarrow> api_error + unit" where
  "require_api_key app_settings cache raw key =
     (case (case app_settings of Some s \<Rightarrow> Inr s | None \<Rightarrow> fst (get_settings cache raw)) of
        Inl e \<Rightarrow> Inl (Raised e)
      | Inr s \<Rightarrow>
          (case key of
             Some k \<Rightarrow> if k = [] \<or> k \<notin> set (PAYMENTS_API_KEYS s) then Inl (HttpException 401 ''Invalid API key'')
                       else Inr ()
           | None \<Rightarrow> Inl (HttpException 401 ''Invalid API key'')))"

definition command_of :: "create_request \<Rightarrow> string \<Rightarrow> string option \<Rightarrow> create_command" where
  "command_of r key cid =
     \<lparr>cc_idempotency_key = key, cc_amount = cr_amount r, cc_currency = cr_currency r,
      cc_description = cr_description r, cc_metadata = cr_metadata r, cc_webhook_url = cr_webhook_url r,
      cc_correlation_id = cid\<rparr>"

text \<open>\<open>POST /payments\<close>, after its dependency; \<open>cid\<close> is \<open>request.state.correlation_id\<close>.\<close>

definition validate_request ::
    "(pyval \<Rightarrow> create_request option) \<Rightarrow> http_req \<Rightarrow> pyval \<Rightarrow> api_error + create_request \<times> string" where
  "validate_request parse req body =
     (case (parse body, hq_idempotency_key req) of
        (Some r, Some key) \<Rightarrow> if schema_ok r then Inr (r, key) else Inl (RequestInvalid body)
      | _ \<Rightarrow> Inl (RequestInvalid body))"

definition post_payment ::
    "create_env \<Rightarrow> create_request \<Rightarrow> string \<Rightarrow> string option \<Rightarrow> db \<Rightarrow> (api_error + http_resp) \<times> db" where
  "post_payment env r key cid d =
     (case create_payment env (command_of r key cid) d of
        (Inl e, d') \<Rightarrow> (Inl (Raised e), d')
      | (Inr dto, d') \<Rightarrow>
          (Inr (response 202 (CreatedBody
             \<lparr>crs_payment_id = pd_payment_id dto, crs_status = pd_status dto, crs_created_at = pd_created_at dto\<rparr>)), d'))"

text \<open>What FastAPI does with the body, before the dependencies.\<close>

fun decode_body :: "request_body \<Rightarrow> api_error + pyval" where
  "decode_body (Decoded v) = Inr v"
| "decode_body (Malformed errors) = Inl (RequestInvalid errors)"
| "decode_body Unreadable = Inl (HttpException 400 ''There was an error parsing the body'')"

definition create_route ::
    "(api_error + unit) \<Rightarrow> (pyval \<Rightarrow> create_request option) \<Rightarrow> create_env \<Rightarrow> http_req \<Rightarrow> string option \<Rightarrow> db \<Rightarrow>
     (api_error + http_resp) \<times> db" where
  "create_route guard parse env req cid d =
     (case decode_body (hq_body req) of
        Inl e \<Rightarrow> (Inl e, d)
      | Inr body \<Rightarrow>
          (case guard of
             Inl e \<Rightarrow> (Inl e, d)
           | Inr _ \<Rightarrow>
               (case validate_request parse req body of
                  Inl e \<Rightarrow> (Inl e, d)
                | Inr (r, key) \<Rightarrow> post_payment env r key cid d)))"

text \<open>\<open>GET /payments/{payment_id}\<close>; \<open>None\<close> stands for a path that is no UUID.\<close>

definition get_route ::
    "(api_error + unit) \<Rightarrow> uuid option \<Rightarrow> db \<Rightarrow> (api_error + http_resp) \<times> db" where
  "get_route guard path_id d =
     (case guard of
        Inl e \<Rightarrow> (Inl e, d)
      | Inr _ \<Rightarrow>
          (case path_id of
             None \<Rightarrow> (Inl (RequestInvalid VNone), d)
           | Some i \<Rightarrow>
               (case get_payment_handle i d of
                  (Inl e, d') \<Rightarrow> (Inl (Raised e), d')
                | (Inr dto, d') \<Rightarrow> (Inr (response 200 (PaymentBody (to_payment_response dto))), d'))))"

section \<open>Exception handlers\<close>

definition domain_http_status :: "string \<Rightarrow> int" where
  "domain_http_status code =
     (case map_of [(''NOT_FOUND'', 404), (''ALREADY_EXISTS'', 409), (''IDEMPOTENCY_CONFLICT'', 409),
                   (''INVALID_STATE_TRANSITION'', 409), (''VALIDATION_ERROR'', 422)] code of
        None \<Rightarrow> 500 | Some n \<Rightarrow> n)"

fun exn_details :: "exn \<Rightarrow> (string \<times> string) list" where
  "exn_details (InvalidStateTransition cur target) = [(''current'', cur), (''target'', target)]"
| "exn_details (InvalidPaymentData m) = [(''message'', m)]"
| "exn_details (PaymentNotFound i) = [(''payment_id'', uuid_str i)]"
| "exn_details (IdempotencyConflict k) = [(''idempotency_key'', k)]"
| "exn_details _ = []"

definition handle_domain :: "translator \<Rightarrow> locale_info option \<Rightarrow> exn \<Rightarrow> string \<Rightarrow> exn + http_resp" where
  "handle_domain tr ctx e code =
     map_res (\<lambda>message.
       response (domain_http_status code)
         (ErrorBody [(''code'', VStr code), (''message'', message),
                     (''details'', VDict (map (\<lambda>(k, v). (k, VStr v)) (exn_details e)))]))
     (tr_translate tr (''error.codes.'' @ code) (get_locale_code ctx (tr_default tr)) (exn_details e))"

definition handle_validation :: "translator \<Rightarrow> locale_info option \<Rightarrow> pyval \<Rightarrow> exn + http_resp" where
  "handle_validation tr ctx errors =
     map_res (\<lambda>message.
       response 422
         (ErrorBody [(''code'', VStr ''VALIDATION_ERROR''), (''message'', message), (''details'', errors)]))
     (tr_translate tr ''error.codes.VALIDATION_ERROR'' (get_locale_code ctx (tr_default tr)) [])"

definition handle_unhandled :: "string \<Rightarrow> http_resp" where
  "handle_unhandled request_id =
     response 500
       (ErrorBody [(''code'', VStr ''INTERNAL_ERROR''), (''message'', VStr ''Internal server error''),
                   (''request_id'', VStr request_id)])"

text \<open>The handlers inside the middleware; FastAPI's own handler answers an \<open>HTTPException\<close>.\<close>

definition exception_middleware ::
    "translator \<Rightarrow> locale_info option \<Rightarrow> api_error + http_resp \<Rightarrow> exn + http_resp" where
  "exception_middleware tr ctx r =
     (case r of
        Inr resp \<Rightarrow> Inr resp
      | Inl (HttpException st detail) \<Rightarrow> Inr (response st (ErrorBody [(''detail'', VStr detail)]))
      | Inl (RequestInvalid errors) \<Rightarrow> handle_validation tr ctx errors
      | Inl (Raised e) \<Rightarrow> (case exn_code e of Some code \<Rightarrow> handle_domain tr ctx e code | None \<Rightarrow> Inl e))"

section \<open>The application\<close>

text \<open>\<open>RequestIDMiddleware\<close>: the ids from the headers, \<open>fresh\<close> (a new UUID) where they are absent.\<close>

definition request_ids :: "string \<Rightarrow> http_req \<Rightarrow> string \<times> string" where
  "request_ids fresh req =
     (let rid = (case hq_request_id req of None \<Rightarrow> fresh | Some i \<Rightarrow> i)
      in (rid, case hq_correlation_id req of None \<Rightarrow> rid | Some c \<Rightarrow> c))"

text \<open>
  The context variable of the request id: the token of \<open>set\<close> restores the value before the request,
  also when the call inside raises. The outermost handler reads it after that.
\<close>

definition with_request_id :: "string \<Rightarrow> http_req \<Rightarrow> string \<Rightarrow> (string \<times> string \<Rightarrow> exn + http_resp) \<Rightarrow> (exn + http_resp) \<times> string" where
  "with_request_id fresh req outer_id call_next =
     (let (rid, cid) = request_ids fresh req in
      (map_res (\<lambda>resp. resp\<lparr>rs_headers := rs_headers resp @ [(''X-Request-ID'', rid), (''X-Correlation-ID'', cid)]\<rparr>)
         (call_next (rid, cid)), outer_id))"

definition serve ::
    "translator \<Rightarrow> settings \<Rightarrow> string \<Rightarrow> http_req \<Rightarrow> (string option \<Rightarrow> db \<Rightarrow> (api_error + http_resp) \<times> db) \<Rightarrow> db \<Rightarrow>
     (exn + http_resp) \<times> db" where
  "serve tr s fresh req route_fn d =
     (let (_, cid) = request_ids fresh req;
          ctx = Some (request_locale s (hq_accept_language req));
          (r, d') = route_fn (Some cid) d;
          (resp, ctx_id) = with_request_id fresh req ''none'' (\<lambda>_. exception_middleware tr ctx r)
      in (case resp of
            Inr x \<Rightarrow> Inr x
          | Inl e \<Rightarrow> if is_Exception e then Inr (handle_unhandled ctx_id) else Inl e, d'))"

section \<open>Properties\<close>

lemma serve_status:
  "serve tr s fresh req route_fn d = (Inr resp, d') \<Longrightarrow>
     (case route_fn (Some (snd (request_ids fresh req))) d of
        (Inr x, d1) \<Rightarrow> d' = d1 \<and> rs_status resp = rs_status x \<and> rs_body resp = rs_body x
      | (Inl e, d1) \<Rightarrow> d' = d1 \<and>
          (case e of
             HttpException st _ \<Rightarrow> rs_status resp = st
           | RequestInvalid _ \<Rightarrow> rs_status resp \<in> {422, 500}
           | Raised x \<Rightarrow> rs_status resp =  500 \<or>
               (\<exists>code. exn_code x = Some code \<and> rs_status resp = domain_http_status code)))"
  by (auto simp: serve_def with_request_id_def Let_def exception_middleware_def handle_validation_def
      handle_domain_def handle_unhandled_def response_def res_simps
      split: prod.splits sum.splits if_splits api_error.splits option.splits)

lemma require_api_key_Inr:
  "require_api_key (Some st) cache raw key = Inr u \<longleftrightarrow>
     (\<exists>k. key = Some k \<and> k \<noteq> [] \<and> k \<in> set (PAYMENTS_API_KEYS st))"
  by (auto simp: require_api_key_def split: option.split)

lemma require_api_key_Inl:
  "(\<And>k. key = Some k \<Longrightarrow> k = [] \<or> k \<notin> set (PAYMENTS_API_KEYS st)) \<Longrightarrow>
     require_api_key (Some st) cache raw key = Inl (HttpException 401 ''Invalid API key'')"
  by (auto simp: require_api_key_def split: option.split)

definition demo_request :: http_req where
  "demo_request =
     \<lparr>hq_api_key = Some ''dev-key'', hq_idempotency_key = Some ''order-1'', hq_request_id = Some ''req-1'',
      hq_correlation_id = None, hq_accept_language = [], hq_body = Decoded (VDict [])\<rparr>"

abbreviation demo_settings :: settings where
  "demo_settings \<equiv> default_settings ''u'' ''p'' ''d''"

lemma same_dto_fields:
  "same_dto (from_payment p None) dto \<Longrightarrow>
     pd_payment_id dto = p_id p \<and> pd_status dto = payment_status_value (p_status p) \<and>
     pd_created_at dto = p_created_at p"
  by (cases dto) (simp add: same_dto_def from_payment_def)

lemma post_payment_cases:
  assumes run: "serve tr st fresh req (create_route guard parse env req) d = (Inr resp, d')"
    and guard: "guard = require_api_key (Some st) cache raw (hq_api_key req)"
  obtains (stored) k body key dto v where "hq_api_key req = Some k" "k \<in> set (PAYMENTS_API_KEYS st)"
      "hq_body req = Decoded v \<and> parse v = Some body" "schema_ok body" "hq_idempotency_key req = Some key"
      "create_payment env (command_of body key (Some (snd (request_ids fresh req)))) d = (Inr dto, d')"
      "rs_status resp = 202" "rs_body resp = CreatedBody
         \<lparr>crs_payment_id = pd_payment_id dto, crs_status = pd_status dto, crs_created_at = pd_created_at dto\<rparr>"
  | (refused) "rs_status resp \<noteq> 202" "d' = d"
proof (cases "\<exists>v. hq_body req = Decoded v")
  case False
  with serve_status [OF run] refused show thesis by (cases "hq_body req") (auto simp: create_route_def)
next
  case True
  then obtain j where j: "hq_body req = Decoded j" by blast
  show thesis
  proof (cases guard)
    case (Inl e)
    with run serve_status [OF run] guard refused j show thesis
      by (auto simp: create_route_def require_api_key_def domain_http_status_def split: option.splits if_splits)
  next
    case g: (Inr u)
    then obtain k where k: "hq_api_key req = Some k" "k \<in> set (PAYMENTS_API_KEYS st)"
      using guard by (auto simp: require_api_key_Inr)
    show thesis
    proof (cases "validate_request parse req j")
      case (Inl e)
      then have "\<exists>v. e = RequestInvalid v" by (auto simp: validate_request_def split: option.splits if_splits)
      with serve_status [OF run] g Inl refused j show thesis by (auto simp: create_route_def)
    next
      case (Inr rk)
      obtain body key where rk: "rk = (body, key)" by (cases rk)
      with Inr have v: "parse j = Some body" "schema_ok body" "hq_idempotency_key req = Some key"
        by (auto simp: validate_request_def split: option.splits if_splits)
      let ?c = "command_of body key (Some (snd (request_ids fresh req)))"
      obtain res d1 where cp: "create_payment env ?c d = (res, d1)" by (cases "create_payment env ?c d")
      show thesis
      proof (cases res)
        case (Inl e)
        have "d1 = d" using cp Inl by (auto simp: create_payment_def dest: transactional_error)
        moreover have "domain_http_status code \<noteq> 202" for code
          by (simp add: domain_http_status_def split: option.split)
        ultimately show thesis using serve_status [OF run] g Inr rk cp Inl refused j
          by (auto simp: create_route_def post_payment_def)
      next
        case dto: (Inr dto)
        from serve_status [OF run] g Inr rk cp dto j have "d' = d1 \<and> rs_status resp = 202 \<and> rs_body resp = CreatedBody
            \<lparr>crs_payment_id = pd_payment_id dto, crs_status = pd_status dto, crs_created_at = pd_created_at dto\<rparr>"
          by (simp add: create_route_def post_payment_def response_def)
        with cp dto k v j stored show thesis by auto
      qed
    qed
  qed
qed

text \<open>
  Property C25. What a client learns from \<open>POST /payments\<close>: the answer is 202 only if the request
  carried an accepted API key and an idempotency key and passed the schema; then the payment stored
  under that key is the one the answer names, with its id, status and creation time. With any other
  status nothing is stored.
\<close>

theorem post_payment_outcome:
  assumes run: "serve tr st fresh req (create_route guard parse env req) d = (Inr resp, d')"
    and guard: "guard = require_api_key (Some st) cache raw (hq_api_key req)"
  shows "if rs_status resp = 202 then
      (\<exists>k. hq_api_key req = Some k \<and> k \<in> set (PAYMENTS_API_KEYS st)) \<and>
      (\<exists>v body. hq_body req = Decoded v \<and> parse v = Some body \<and> schema_ok body) \<and>
      (\<exists>key r p b. hq_idempotency_key req = Some key \<and>
         row_by pr_idempotency_key key (payments d') = Some r \<and> payment_to_domain r = Inr p \<and>
         rs_body resp = CreatedBody b \<and> crs_payment_id b = p_id p \<and>
         crs_status b = payment_status_value (p_status p) \<and> crs_created_at b = p_created_at p)
    else d' = d"
  using run guard
proof (cases rule: post_payment_cases)
  case (stored k body key dto v)
  from create_payment_stored [OF stored(6)] obtain r p where
    r: "row_by pr_idempotency_key key (payments d') = Some r" "payment_to_domain r = Inr p" "same_dto (from_payment p None) dto"
    by (auto simp: command_of_def)
  with stored same_dto_fields [OF r(3)] show ?thesis by auto
qed simp

definition demo_parse :: "pyval \<Rightarrow> create_request option" where
  "demo_parse _ = Some \<lparr>cr_amount = Finite 10 0, cr_currency = ''USD'', cr_description = None,
     cr_metadata = [], cr_webhook_url = ''https://m.example/hook''\<rparr>"

lemma demo_post:
  "\<exists>resp. serve demo_translator demo_settings ''f'' demo_request
     (create_route (require_api_key (Some demo_settings) None (Inl CancelledError) (hq_api_key demo_request))
        demo_parse (demo_env\<lparr>ce_payment_id := 2\<rparr>) demo_request) demo_db = (Inr resp, demo_db) \<and> rs_status resp = 202 \<and>
     (\<exists>b. rs_body resp = CreatedBody b \<and> crs_payment_id b = 1)"
proof -
  let ?env = "demo_env\<lparr>ce_payment_id := 2\<rparr>" and ?c = "command_of (the (demo_parse (VDict []))) ''order-1'' (Some ''req-1'')"
  have vals: "command_values ?c = Inr (IdempotencyKey ''order-1'', Money (Finite 10 0) USD)"
    by (simp add: command_values_Inr command_of_def demo_parse_def mk_money_decimal mk_idempotency_key_def
        key_re_match_def key_max_length_def printable_def ndigits_def nat_str_step whole_cents_def)
  obtain r where chk: "payment_row_check (payment_values (new_payment ?env ?c (IdempotencyKey ''order-1'') (Money (Finite 10 0) USD))) = Inr r"
    by (simp add: payment_row_check_def payment_values_def new_payment_def payment_create_def add_event_def
        command_of_def demo_parse_def json_dict_def int4_def varchar_def varchar_opt_def params_check_def cents_def http_url_def)
  have key: "cc_idempotency_key ?c = ''order-1''" by (simp add: command_of_def)
  have "row_by pr_idempotency_key ''order-1'' (payments demo_db) = Some demo_row" by (simp add: demo_row_def)
  then have "create_payment ?env ?c demo_db = (Inr (from_payment demo_payment None), demo_db)"
    by (simp add: create_payment_checked [OF vals refl] chk key demo_row_domain)
  moreover have "validate_request demo_parse demo_request (VDict []) = Inr (the (demo_parse (VDict [])), ''order-1'')"
    by (simp add: validate_request_def demo_request_def demo_parse_def schema_ok_def whole_cents_def
        validate_webhook_url_def)
  moreover have "require_api_key (Some demo_settings) None (Inl CancelledError) (hq_api_key demo_request) = Inr ()"
    by (simp add: require_api_key_Inr demo_request_def default_settings_def)
  moreover have "hq_body demo_request = Decoded (VDict [])" by (simp add: demo_request_def)
  moreover have "request_ids ''f'' demo_request = (''req-1'', ''req-1'')"
    by (simp add: request_ids_def demo_request_def Let_def)
  ultimately show ?thesis
    by (simp add: serve_def create_route_def post_payment_def Let_def with_request_id_def
        exception_middleware_def response_def from_payment_def demo_payment_def)
qed

theorem post_payment_outcome_witness:
  "\<exists>resp b. serve demo_translator demo_settings ''f'' demo_request
     (create_route (require_api_key (Some demo_settings) None (Inl CancelledError) (hq_api_key demo_request))
        demo_parse (demo_env\<lparr>ce_payment_id := 2\<rparr>) demo_request) demo_db = (Inr resp, demo_db) \<and>
     rs_status resp = 202 \<and> rs_body resp = CreatedBody b \<and> crs_payment_id b = 1"
proof -
  obtain resp where run: "serve demo_translator demo_settings ''f'' demo_request
     (create_route (require_api_key (Some demo_settings) None (Inl CancelledError) (hq_api_key demo_request))
        demo_parse (demo_env\<lparr>ce_payment_id := 2\<rparr>) demo_request) demo_db = (Inr resp, demo_db)" "rs_status resp = 202"
    using demo_post by blast
  from post_payment_outcome [OF run(1) refl] run(2) obtain key r p b where
    "hq_idempotency_key demo_request = Some key" "row_by pr_idempotency_key key (payments demo_db) = Some r"
    "payment_to_domain r = Inr p" "rs_body resp = CreatedBody b" "crs_payment_id b = p_id p" by auto
  moreover from this(1,2) have "r = demo_row" by (auto simp: demo_request_def split: if_splits)
  ultimately show ?thesis using run demo_row_domain by (auto simp: demo_payment_def)
qed

text \<open>Translating without parameters never raises, and with parameters only where the text is no string.\<close>

lemma tr_translate_raises:
  "tr_translate tr key loc params = Inl e \<Longrightarrow> params \<noteq> [] \<and> e = AttributeError ''replace''"
  by (auto simp: tr_translate_def Let_def split: option.splits pyval.splits if_splits)

text \<open>
  Property C26. What a client learns of an error. An exception of the domain is answered with the
  status of its code, the code, its message, translated into the language of the request with the
  exception's details filled in, the details, and the id of the request in the headers. Any other
  exception, and one of the domain whose message the locale files hold as something that is no text,
  is answered 500, but then the id is lost: the handler runs outside the middleware that holds it,
  so the answer names the request \<open>none\<close>, whatever id the client sent, and carries no id header.
\<close>

theorem error_responses:
  assumes "route_fn (Some (snd (request_ids fresh req))) d = (Inl (Raised e), d1)" and "is_Exception e"
  shows "let unforeseen = response 500 (ErrorBody [(''code'', VStr ''INTERNAL_ERROR''),
        (''message'', VStr ''Internal server error''), (''request_id'', VStr ''none'')]);
      lang = loc_code (request_locale s (hq_accept_language req))
    in case exn_code e of
      None \<Rightarrow> serve tr s fresh req route_fn d = (Inr unforeseen, d1)
    | Some code \<Rightarrow>
       (case tr_translate tr (''error.codes.'' @ code) lang (exn_details e) of
          Inl _ \<Rightarrow> serve tr s fresh req route_fn d = (Inr unforeseen, d1)
        | Inr message \<Rightarrow> serve tr s fresh req route_fn d =
            (Inr \<lparr>rs_status = domain_http_status code,
                  rs_body = ErrorBody [(''code'', VStr code), (''message'', message),
                    (''details'', VDict (map (\<lambda>(k, v). (k, VStr v)) (exn_details e)))],
                  rs_headers = [(''X-Request-ID'', fst (request_ids fresh req)),
                    (''X-Correlation-ID'', snd (request_ids fresh req))]\<rparr>, d1))"
proof -
  obtain rid cid where ids: "request_ids fresh req = (rid, cid)" by (metis surj_pair)
  with assms(1) have fn: "route_fn (Some cid) d = (Inl (Raised e), d1)" by simp
  note serving = serve_def with_request_id_def Let_def exception_middleware_def ids fn response_def
  let ?lang = "loc_code (request_locale s (hq_accept_language req))"
  show ?thesis
  proof (cases "exn_code e")
    case None
    with assms(2) show ?thesis by (simp add: serving handle_unhandled_def)
  next
    case (Some code)
    show ?thesis
    proof (cases "tr_translate tr (''error.codes.'' @ code) ?lang (exn_details e)")
      case (Inl x)
      moreover from tr_translate_raises [OF this] have "is_Exception x" by simp
      ultimately show ?thesis using Some
        by (simp add: serving handle_domain_def get_locale_code_def handle_unhandled_def)
    next
      case (Inr message)
      with Some show ?thesis by (simp add: serving handle_domain_def get_locale_code_def)
    qed
  qed
qed

definition not_found_translator :: translator where
  "not_found_translator = \<lparr>tr_cache = [(''en'', VDict [(''error'', VDict [(''codes'', VDict
     [(''NOT_FOUND'', VStr ''Payment {payment_id} not found'')])])])], tr_default = ''en''\<rparr>"

lemma not_found_message:
  "tr_translate not_found_translator ''error.codes.NOT_FOUND'' ''en'' [(''payment_id'', uuid_str 7)] =
     Inr (VStr ''Payment 00000000-0000-0000-0000-000000000007 not found'')"
  by code_simp

theorem error_responses_witness:
  "\<exists>resp. serve not_found_translator (demo_settings\<lparr>DEFAULT_LOCALE := ''en''\<rparr>) ''f'' demo_request
       (\<lambda>_ d. (Inl (Raised (PaymentNotFound 7)), d)) demo_db = (Inr resp, demo_db) \<and> rs_status resp = 404 \<and>
     (\<exists>det. rs_body resp = ErrorBody [(''code'', VStr ''NOT_FOUND''),
        (''message'', VStr ''Payment 00000000-0000-0000-0000-000000000007 not found''), (''details'', det)]) \<and>
     (''X-Request-ID'', ''req-1'') \<in> set (rs_headers resp)"
proof -
  let ?s = "demo_settings\<lparr>DEFAULT_LOCALE := ''en''\<rparr>"
  have "loc_code (request_locale ?s (hq_accept_language demo_request)) = ''en''"
    by (simp add: request_locale_def demo_request_def Let_def split_head_def py_strip_def default_settings_def)
  moreover have "fst (request_ids ''f'' demo_request) = ''req-1''" by (simp add: request_ids_def demo_request_def Let_def)
  ultimately show ?thesis
    using error_responses [of "\<lambda>_ d. (Inl (Raised (PaymentNotFound 7)), d)" "''f''" demo_request demo_db
        "PaymentNotFound 7" demo_db ?s not_found_translator] not_found_message
    by (simp add: Let_def domain_http_status_def)
qed

end
