(* ===== verification/EndToEnd.thy ===== *)
theory EndToEnd
  imports System Consumer FakeGateway Http
begin

text \<open>
  The path of a payment through the service: the message its creation left in the outbox, published
  by the worker and delivered by the broker, is processed by the consumer with the gateway of the
  repository. The broker's part is a hypothesis: the message decodes to the payload that was
  published, with a retry counter below the limit.
\<close>

lemma processed_state:
  assumes ok: "system_ok m d" and state: "payment_state i d \<noteq> None" and "varchar_opt 64 co" "text_opt co"
    and fresh: "row_by ar_id (pe_attempt_id env) (payment_attempts d) = None"
      "row_by wr_id (pe_delivery_id env) (webhook_deliveries d) = None"
    and sleep: "\<And>s. cd_sleep dr s = Inr ()"
  shows "\<exists>res d'. process_payment env (fake_charge g dr) d \<lparr>pc_payment_id = i, pc_correlation_id = co\<rparr> d = (Inr res, d') \<and>
    payment_state i d' \<in> {Some (''succeeded'', 2), Some (''failed'', 2)}"
proof -
  let ?c = "\<lparr>pc_payment_id = i, pc_correlation_id = co\<rparr>"
  obtain r where r: "row_by pr_id i (payments d) = Some r" using state by (auto simp: payment_state_def)
  then have "r \<in> set (payments d)" and id: "pr_id r = i" by (auto dest: row_by_SomeD)
  with ok have story: "payment_story d r" by (simp add: system_ok_def)
  then obtain p where p: "payment_to_domain r = Inr p" by (auto simp: payment_story_def is_ok_iff)
  note fields = payment_to_domain_fields [OF p]
  show ?thesis
  proof (cases "pr_status r = ''pending''")
    case True
    with story id have v: "pr_version r = 0" and "attempt_links i d = []" by (simp_all add: payment_story_def)
    then have none: "attempts_of (pc_payment_id ?c) d = []" by (simp add: attempts_of_def attempt_links_def)
    have "p_status p = Pending" using True fields by (cases "p_status p") auto
    moreover have "payment_state (pc_payment_id ?c) d = Some (''pending'', p_version p)"
      using r True fields by (simp add: payment_state_def)
    ultimately obtain d' res st where
      "process_payment env (fake_charge g dr) d ?c d = (Inr res, d')" "st \<in> {''succeeded'', ''failed''}"
      "payment_state i d' = Some (st, p_version p + 2)"
      using process_payment_completes [OF system_ids [OF ok], where seen = d and c = ?c and r = r and p = p
          and env = env and dr = dr and g = g, OF _ p _ _ none fresh _ _ sleep refl] r assms(3,4)
      by (auto split: if_splits)
    with v fields show ?thesis by auto
  next
    case False
    with story have st: "pr_status r \<in> {''succeeded'', ''failed''}" "pr_version r = 2"
      by (simp_all add: payment_story_def)
    then have "p_status p \<in> {Succeeded, Failed}" using fields by (cases "p_status p") auto
    then have "process_payment env (fake_charge g dr) d ?c d = (Inr (result_of OAlreadyTerminal), d)"
      using r p by (simp add: process_payment_eq [OF system_ids [OF ok]])
    with r st show ?thesis by (auto simp: payment_state_def)
  qed
qed

text \<open>
  Every payment gets its result. Take a message of the outbox in any reachable state,
  and any later reachable state in which the broker delivers it, whatever else has happened in
  between: other payments, redeliveries of this message, other consumers, the retention sweep. If
  the retry counter is below the limit and the identifiers of the attempt and the delivery are new,
  the consumer acknowledges the message and afterwards its payment is succeeded or failed, in a
  state that is reachable again.
\<close>

theorem payment_end_to_end:
  assumes "0 < m" and "service_run m purges empty_db d0" and "x \<in> set (outbox_messages d0)"
    and "service_run m purges d0 d"
    and body: "msg_decode msg = Inr (VDict (ob_payload x))"
    and retries: "deaths msg = Inr n" "n < RABBITMQ_MAX_RETRIES (ce_settings cenv)"
    and ack: "ce_ack cenv = Inr ()"
    and handler: "\<And>i co. ce_handler cenv i (opt_str co) d =
      process_payment env (fake_charge g dr) d \<lparr>pc_payment_id = i, pc_correlation_id = co\<rparr> d"
    and fresh: "row_by ar_id (pe_attempt_id env) (payment_attempts d) = None"
      "row_by wr_id (pe_delivery_id env) (webhook_deliveries d) = None"
    and sleep: "\<And>s. cd_sleep dr s = Inr ()"
  shows "\<exists>ef d'. consumer_handle cenv msg d = (Inr (), ef @ [Acked], d') \<and> service_run m purges empty_db d' \<and>
    payment_state (ob_aggregate_id x) d' \<in> {Some (''succeeded'', 2), Some (''failed'', 2)}"
proof -
  let ?i = "ob_aggregate_id x" and ?co = "ob_correlation_id x"
  have ok0: "system_ok m d0" using service_run_ok [OF assms(2)] system_ok_empty [OF assms(1)] by simp
  then have ok: "system_ok m d" using service_run_ok [OF assms(4)] by simp
  have "message_key x \<in> set (message_keys d0)" using assms(3) by (simp add: message_keys_def)
  with ok0 have "fst (message_key x) \<in> pr_id ` set (payments d0)" "message_ok (message_key x)"
    unfolding system_ok_def by blast+
  then have known: "?i \<in> pr_id ` set (payments d0)" and key: "message_ok (?i, ob_event_type x, ob_payload x, ?co)"
    by (simp_all add: message_key_def)
  from known have "payment_state ?i d0 \<noteq> None" by (auto simp: payment_state_def row_by_None_iff)
  from payment_stays [OF assms(4) ok0 this] have state: "payment_state ?i d \<noteq> None" .
  from key have id: "aggregate_uuid (ob_payload x) = Inr ?i" by (simp add: aggregate_uuid_def)
  from processed_state [OF ok state _ _ fresh sleep, of ?co g] key obtain res d' where
    run: "process_payment env (fake_charge g dr) d \<lparr>pc_payment_id = ?i, pc_correlation_id = ?co\<rparr> d = (Inr res, d')"
    and st: "payment_state ?i d' \<in> {Some (''succeeded'', 2), Some (''failed'', 2)}" by auto
  have "service_run m purges empty_db d'"
    using assms(2,4) service_step.process [OF run] by (meson rtranclp.rtrancl_into_rtrancl rtranclp_trans)
  moreover have "consumer_handle cenv msg d = (Inr (), (process_metrics cenv @
      outcome_metrics (pres_outcome res)) @ [Acked], d')"
    using key retries ack run
    by (simp add: consumer_handle_def route_def body deaths_def consume_process_def body_correlation_def id handler)
  ultimately show ?thesis using st by blast
qed

text \<open>The consumer as the service wires it, on the outbox message of the demonstration payment.\<close>

definition demo_pipeline :: consumer_env where
  "demo_pipeline = demo_consumer\<lparr>ce_handler := (\<lambda>i v d.
     process_payment demo_process_env (fake_charge \<lparr>fg_min_delay = 2, fg_max_delay = 5, fg_failure_rate = 1/10\<rparr> demo_draw)
       d \<lparr>pc_payment_id = i, pc_correlation_id = (case v of VStr s \<Rightarrow> Some s | _ \<Rightarrow> None)\<rparr> d)\<rparr>"

theorem payment_end_to_end_witness:
  "\<exists>x ef d'. outbox_messages demo_db = [x] \<and>
     consumer_handle demo_pipeline (demo_payment_message\<lparr>msg_decode := Inr (VDict (ob_payload x))\<rparr>) demo_db =
       (Inr (), ef @ [Acked], d') \<and>
     payment_state 1 d' \<in> {Some (''succeeded'', 2), Some (''failed'', 2)}"
proof -
  obtain x where x: "outbox_messages demo_db = [x]" "ob_aggregate_id x = 1"
    using demo_outbox_check by (simp add: demo_db_def create_payment_checked [OF demo_values refl] demo_row_check)
  let ?msg = "demo_payment_message\<lparr>msg_decode := Inr (VDict (ob_payload x))\<rparr>"
  have handler: "ce_handler demo_pipeline i (opt_str co) demo_db = process_payment demo_process_env
      (fake_charge \<lparr>fg_min_delay = 2, fg_max_delay = 5, fg_failure_rate = 1/10\<rparr> demo_draw) demo_db
      \<lparr>pc_payment_id = i, pc_correlation_id = co\<rparr> demo_db" for i co
    by (cases co) (simp_all add: demo_pipeline_def opt_str_def)
  have "deaths ?msg = Inr 0" "0 < RABBITMQ_MAX_RETRIES (ce_settings demo_pipeline)" "ce_ack demo_pipeline = Inr ()"
    by (simp_all add: deaths_def rejected_count_def demo_payment_message_def dict_get_def demo_pipeline_def
        demo_consumer_def default_settings_def)
  moreover have "cd_sleep demo_draw s = Inr ()" for s by (simp add: demo_draw_def)
  ultimately show ?thesis
    using payment_end_to_end [OF _ demo_runs(1) [of 5 True] _ rtranclp.rtrancl_refl _ _ _ _ handler,
        where x = x and msg = ?msg and n = 0] x by fastforce
qed

section \<open>The two routes\<close>

lemma created_values:
  assumes "command_values c = Inr (k, mo)"
  shows "money_amount mo = cc_amount c" "currency_value (money_currency mo) = cc_currency c"
  using assms by (simp_all add: command_values_Inr mk_money_decimal) (metis money.sel(1))

lemma stored_readable:
  assumes ok: "system_ok m d" and r: "row_by pr_idempotency_key key (payments d) = Some r" "payment_to_domain r = Inr p"
  obtains as where "get_payment_handle (p_id p) d = (Inr (from_payment p (Some as)), d)"
    "p_status p = Pending \<Longrightarrow> as = []"
proof -
  from row_by_SomeD [OF r(1)] have mem: "r \<in> set (payments d)" by simp
  have id: "p_id p = pr_id r" "pr_status r = payment_status_value (p_status p)" using payment_to_domain_fields [OF r(2)] by simp_all
  have "row_by pr_id (pr_id r) (payments d) = Some r" using ok row_by_unique mem by (auto simp: system_ok_def)
  moreover obtain as where as: "mapM_res attempt_to_domain (attempts_of (pr_id r) d) = Inr as"
    using get_by_payment_id_ok [of "open_session d" "pr_id r"] ok by (auto simp: mapM_res_Inr system_ok_def)
  ultimately have "get_payment_handle (p_id p) d = (Inr (from_payment p (Some as)), d)"
    by (simp add: get_payment_handle_eq id r(2))
  moreover have "as = []" if "p_status p = Pending"
  proof -
    have "attempt_links (pr_id r) d = []" using ok mem id that by (simp add: system_ok_def payment_story_def)
    then have "attempts_of (pr_id r) d = []" by (simp add: attempt_links_def attempts_of_def)
    with as show ?thesis by simp
  qed
  ultimately show thesis by (rule that)
qed

text \<open>
  Property C24. What was accepted can be read back. In every reachable state, after a \<open>POST\<close> that was
  answered 202, an authorised \<open>GET\<close> for the identifier in the answer is answered 200 with the payment of that
  identifier and of the request's idempotency key; if the key was new, that payment is pending,
  without attempts, and has the amount, numerically, the currency, the description, the metadata and
  the webhook URL of the request.
\<close>

theorem post_then_get:
  assumes "0 < m" and "service_run m purges empty_db d"
    and post: "serve tr st fresh req (create_route guard parse env req) d = (Inr resp, d')" "rs_status resp = 202"
      "guard = require_api_key (Some st) cache raw (hq_api_key req)"
    and "rs_body resp = CreatedBody b"
  shows "\<exists>resp' q v body key. serve tr st fresh' req' (\<lambda>_. get_route (Inr ()) (Some (crs_payment_id b))) d' = (Inr resp', d') \<and>
    rs_status resp' = 200 \<and> rs_body resp' = PaymentBody q \<and> prs_payment_id q = crs_payment_id b \<and>
    hq_body req = Decoded v \<and> parse v = Some body \<and> hq_idempotency_key req = Some key \<and> prs_idempotency_key q = key \<and>
    (row_by pr_idempotency_key key (payments d) = None \<longrightarrow>
       prs_status q = ''pending'' \<and> prs_attempts q = Some [] \<and> dec_eq (prs_amount q) (cr_amount body) \<and>
       prs_currency q = cr_currency body \<and> prs_description q = cr_description body \<and>
       prs_metadata q = cr_metadata body \<and> prs_webhook_url q = cr_webhook_url body)"
  using post(1,3)
proof (cases rule: post_payment_cases)
  case (stored k body key dto v)
  let ?c = "command_of body key (Some (snd (request_ids fresh req)))"
  have key: "cc_idempotency_key ?c = key" by (simp add: command_of_def)
  have "system_ok m d" using service_run_ok [OF assms(2)] system_ok_empty [OF assms(1)] by simp
  then have ok: "system_ok m d'" by (rule system_ok_create [OF _ stored(6)])
  from create_payment_stored [OF stored(6)] obtain r p where
    r: "row_by pr_idempotency_key key (payments d') = Some r" "payment_to_domain r = Inr p"
    and same: "same_dto (from_payment p None) dto" by (auto simp: key)
  obtain as where get: "get_payment_handle (p_id p) d' = (Inr (from_payment p (Some as)), d')"
    and none: "p_status p = Pending \<Longrightarrow> as = []" by (rule stored_readable [OF ok r]) blast
  have b: "crs_payment_id b = p_id p" using stored(8) assms(6) same_dto_fields [OF same] by simp
  have "key_value (p_idempotency_key p) = key"
    using payment_to_domain_fields [OF r(2)] row_by_SomeD [OF r(1)] by simp
  moreover have "p_status p = Pending \<and> dec_eq (money_amount (p_money p)) (cr_amount body) \<and>
      currency_value (money_currency (p_money p)) = cr_currency body \<and> p_description p = cr_description body \<and>
      p_metadata p = cr_metadata body \<and> p_webhook_url p = cr_webhook_url body"
    if new: "row_by pr_idempotency_key key (payments d) = None"
    using stored(6)
  proof (cases rule: create_payment_cases)
    case replayed
    with r(1) new show ?thesis by simp
  next
    case (created k mo x)
    have "pd_status dto = ''pending''" "pd_amount dto = cr_amount body" "pd_currency dto = cr_currency body"
      "pd_description dto = cr_description body" "pd_metadata dto = cr_metadata body" "pd_webhook_url dto = cr_webhook_url body"
      using created_values [OF created(1)]
      by (simp_all add: created(2) from_payment_def new_payment_def payment_create_def add_event_def command_of_def)
    with same show ?thesis by (cases dto; cases "p_status p") (auto simp: same_dto_def from_payment_def)
  qed
  ultimately show ?thesis using get b stored(3,5) none
    by (auto simp: serve_def get_route_def with_request_id_def Let_def exception_middleware_def response_def
        to_payment_response_def from_payment_def split: prod.split)
qed (use post(2) in simp)

theorem post_then_get_witness:
  "\<exists>resp' q. serve demo_translator demo_settings ''g'' demo_request (\<lambda>_. get_route (Inr ()) (Some 1)) demo_db = (Inr resp', demo_db) \<and>
     rs_status resp' = 200 \<and> rs_body resp' = PaymentBody q \<and> prs_payment_id q = 1 \<and> prs_idempotency_key q = ''order-1''"
proof -
  obtain resp b where run: "serve demo_translator demo_settings ''f'' demo_request
     (create_route (require_api_key (Some demo_settings) None (Inl CancelledError) (hq_api_key demo_request))
        demo_parse (demo_env\<lparr>ce_payment_id := 2\<rparr>) demo_request) demo_db = (Inr resp, demo_db)" "rs_status resp = 202"
    and b: "rs_body resp = CreatedBody b" "crs_payment_id b = 1"
    using demo_post by blast
  have key: "hq_idempotency_key demo_request = Some ''order-1''" by (simp add: demo_request_def)
  from post_then_get [OF _ demo_runs(1) run refl b(1), of 5 "''g''" demo_request] b(2) key show ?thesis
    by (simp only: option.inject) auto
qed

end
