(* ===== verification/OutboxWorker.thy ===== *)
theory OutboxWorker
  imports OutboxRepo Config
begin

text \<open>
  \<open>infrastructure/outbox/worker.py\<close>: one cycle of the worker that publishes the outbox. The
  publication of one message is a parameter that raises or returns (with the timeout of
  \<open>asyncio.wait_for\<close> among what it may raise); the model takes the messages of a batch in order,
  each independent of the others. Between the two transactions of a batch other workers commit:
  \<open>others\<close> is what they do to the tables. \<open>we_exchange_type\<close> is faststream's \<open>ExchangeType\<close>, which may
  reject the configured name. A concurrency of zero would block the batch for ever; the properties
  assume a positive one. \<open>we_elapsed\<close> is the difference of the two \<open>perf_counter\<close> readings of a
  publication, in seconds. Logging is left out, and so are the metrics of a transaction or a batch that raises.
\<close>

record worker_env =
  we_settings :: settings
  we_worker_id :: uuid
  we_now :: datetime
  we_exchange_type :: "string \<Rightarrow> exn + unit"
  we_publish :: "outbox_message \<Rightarrow> exn + unit"
  we_locked :: "uuid \<Rightarrow> bool"
  we_others :: "db \<Rightarrow> db"
  we_uniform :: "uuid \<Rightarrow> rat"
  we_ts1 :: datetime
  we_ts2 :: datetime
  we_elapsed :: "outbox_message \<Rightarrow> rat"

text \<open>\<open>u\<close> is what \<open>random.uniform(1.0, 1.0 + jitter)\<close> returns.\<close>

definition retry_delay :: "settings \<Rightarrow> rat \<Rightarrow> int \<Rightarrow> rat" where
  "retry_delay s u attempts =
     (let delay = min (OUTBOX_RETRY_BASE_DELAY s * 2 powi (attempts - 1)) (OUTBOX_RETRY_MAX_DELAY s)
      in if OUTBOX_RETRY_JITTER s \<noteq> 0 then delay * u else delay)"

definition worker_next_retry_at :: "settings \<Rightarrow> rat \<Rightarrow> int \<Rightarrow> datetime \<Rightarrow> datetime option" where
  "worker_next_retry_at s u attempts now =
     (if OUTBOX_MAX_ATTEMPTS s \<le> attempts then None
      else Some (now + timedelta (retry_delay s u attempts)))"

definition publish_one :: "worker_env \<Rightarrow> outbox_message \<Rightarrow> exn + outbox_message option \<times> metric list" where
  "publish_one env m =
     (case we_publish env m of
        Inr _ \<Rightarrow> Inr (None, [OutboxMessages ''published'', PublishDuration (we_elapsed env m)])
      | Inl e \<Rightarrow> if is_Exception e then Inr (Some m, [OutboxMessages ''failed'', PublishDuration (we_elapsed env m)]) else Inl e)"

text \<open>The loop over the failed messages; the metric counts those that are not retried.\<close>

fun mark_failures :: "worker_env \<Rightarrow> outbox_message list \<Rightarrow> uow \<Rightarrow> exn + metric list \<times> uow" where
  "mark_failures env [] = return_act []"
| "mark_failures env (m # ms) =
     (let s = we_settings env;
          due = worker_next_retry_at s (we_uniform env (om_id m)) (om_attempts m) (we_now env)
      in bind_act (repo (mark_publish_failure (we_ts2 env) (om_id m) (we_worker_id env)
                           (OUTBOX_MAX_ATTEMPTS s) due)) (\<lambda>_.
         bind_act (mark_failures env ms) (\<lambda>em.
           return_act ((if due = None then [OutboxMessages ''dead''] else []) @ em))))"

fun mark_published :: "worker_env \<Rightarrow> uuid list \<Rightarrow> uow \<Rightarrow> exn + unit \<times> uow" where
  "mark_published env [] = return_act ()"
| "mark_published env (i # ids) =
     bind_act (repo (mark_processed (we_ts2 env) i (we_worker_id env))) (\<lambda>_. mark_published env ids)"

text \<open>Step 1: release the expired leases and claim a batch.\<close>

definition claim_body :: "worker_env \<Rightarrow> uow \<Rightarrow> exn + (metric list \<times> outbox_message list) \<times> uow" where
  "claim_body env =
     (let s = we_settings env in
      bind_act (repo (release_expired_claims (we_ts1 env) (we_now env) (OUTBOX_CLAIM_TIMEOUT s)
                        (OUTBOX_MAX_ATTEMPTS s))) (\<lambda>(dead, pending).
      bind_act (repo (claim_batch (we_locked env) (OUTBOX_BATCH_SIZE s) (we_now env) (we_worker_id env)
                        (OUTBOX_MAX_ATTEMPTS s))) (\<lambda>ms.
        return_act
          ((if dead \<noteq> 0 then [OutboxClaimsReleased ''dead'' dead] else []) @
           (if pending \<noteq> 0 then [OutboxClaimsReleased ''pending'' pending] else []), ms))))"

text \<open>Step 3: record the results.\<close>

definition mark_body :: "worker_env \<Rightarrow> uuid list \<Rightarrow> outbox_message list \<Rightarrow> uow \<Rightarrow> exn + metric list \<times> uow" where
  "mark_body env published failed =
     bind_act (mark_published env published) (\<lambda>_. mark_failures env failed)"

definition oldest :: "outbox_message list \<Rightarrow> datetime" where
  "oldest ms = fold min (map om_created_at (tl ms)) (om_created_at (hd ms))"

text \<open>Between the two transactions: the exchange and the semaphore are created, then the messages are published.\<close>

definition publish_all ::
    "worker_env \<Rightarrow> outbox_message list \<Rightarrow> exn + (outbox_message option \<times> metric list) list" where
  "publish_all env ms =
     (case we_exchange_type env (RABBITMQ_EXCHANGE_TYPE (we_settings env)) of
        Inl e \<Rightarrow> Inl e
      | Inr _ \<Rightarrow>
          if OUTBOX_PUBLISH_CONCURRENCY (we_settings env) < 0
          then Inl (ValueError ''Semaphore initial value must be >= 0'')
          else mapM_res (publish_one env) ms)"

definition publish_batch :: "worker_env \<Rightarrow> db \<Rightarrow> (exn + unit) \<times> metric list \<times> db" where
  "publish_batch env d =
     (case transactional True (claim_body env) d of
        (Inl e, d1) \<Rightarrow> (Inl e, [], d1)
      | (Inr (em, ms), d1) \<Rightarrow>
          if ms = [] then (Inr (), em, d1)
          else
            let em1 = em @ [OutboxLag (of_int (we_now env - oldest ms) / 1000000)]; d2 = we_others env d1
            in case publish_all env ms of
                 Inl e \<Rightarrow> (Inl e, em1, d2)
               | Inr results \<Rightarrow>
                   let failed = List.map_filter fst results;
                       published = map om_id (filter (\<lambda>m. om_id m \<notin> om_id ` set failed) ms);
                       em2 = em1 @ concat (map snd results)
                   in case transactional True (mark_body env published failed) d2 of
                        (Inl e, d3) \<Rightarrow> (Inl e, em2, d3)
                      | (Inr em3, d3) \<Rightarrow> (Inr (), em2 @ em3, d3))"

text \<open>Retention.\<close>

definition purge_body :: "worker_env \<Rightarrow> datetime \<Rightarrow> uow \<Rightarrow> exn + unit \<times> uow" where
  "purge_body env now =
     (let s = we_settings env; cutoff = now - timedelta (of_int (OUTBOX_RETENTION_SECONDS s)) in
      bind_act (repo (reap_exhausted (we_ts2 env) (OUTBOX_MAX_ATTEMPTS s))) (\<lambda>_.
        repo (purge_processed cutoff)))"

definition worker_purge :: "worker_env \<Rightarrow> datetime \<Rightarrow> db \<Rightarrow> (exn + unit) \<times> db" where
  "worker_purge env now = transactional True (purge_body env now)"

text \<open>
  One turn of the loop of \<open>run\<close>: the cycle counter and the tables after it. Exceptions of a batch
  or a purge are logged; cancellation, and the division by an interval of zero, end the loop.
\<close>

definition swallow :: "exn + unit \<Rightarrow> exn + unit" where
  "swallow r = (case r of Inl e \<Rightarrow> if is_Exception e then Inr () else Inl e | Inr _ \<Rightarrow> Inr ())"

definition outbox_cycle :: "worker_env \<Rightarrow> datetime \<Rightarrow> int \<times> db \<Rightarrow> (exn + unit) \<times> metric list \<times> int \<times> db" where
  "outbox_cycle env purge_now st =
     (let (cycles, d) = st; (r, em, d1) = publish_batch env d; em1 = WorkerCycles ''outbox'' # em in
      case swallow r of
        Inl e \<Rightarrow> (Inl e, em1, cycles, d1)
      | Inr _ \<Rightarrow>
          let cycles' = cycles + 1; every = OUTBOX_PURGE_INTERVAL (we_settings env)
          in if every = 0 then (Inl (External ''ZeroDivisionError''), em1, cycles', d1)
             else if cycles' mod every = 0 then
               let (r2, d2) = worker_purge env purge_now d1 in (swallow r2, em1, cycles', d2)
             else (Inr (), em1, cycles', d1))"

section \<open>What a batch does\<close>

lemma claim_phase:
  "transactional True (claim_body env) d = (Inr (em, ms), d1) \<Longrightarrow>
     claim_batch_db (we_locked env) (OUTBOX_BATCH_SIZE (we_settings env)) (we_now env) (we_worker_id env)
       (OUTBOX_MAX_ATTEMPTS (we_settings env))
       (snd (release_expired_db (we_ts1 env) (we_now env) (OUTBOX_CLAIM_TIMEOUT (we_settings env))
          (OUTBOX_MAX_ATTEMPTS (we_settings env)) d)) = Inr (ms, d1)"
  by (auto simp: transactional_Inr claim_body_def Let_def res_simps release_expired_claims_def claim_batch_def
      split: prod.splits)

definition mark_failure :: "worker_env \<Rightarrow> outbox_message \<Rightarrow> db \<Rightarrow> db" where
  "mark_failure env m =
     mark_publish_failure_db (we_ts2 env) (om_id m) (we_worker_id env) (OUTBOX_MAX_ATTEMPTS (we_settings env))
       (worker_next_retry_at (we_settings env) (we_uniform env (om_id m)) (om_attempts m) (we_now env))"

lemma mark_published_on:
  "mark_published env ids (on (open_session d)) =
     Inr ((), on (open_session (fold (\<lambda>i. mark_processed_db (we_ts2 env) i (we_worker_id env)) ids d)))"
  by (induction ids arbitrary: d) (simp_all add: return_act_def bind_act_def repo_on mark_processed_def)

lemma mark_failures_on:
  "\<exists>em. mark_failures env ms (on (open_session d)) = Inr (em, on (open_session (fold (mark_failure env) ms d)))"
proof (induction ms arbitrary: d)
  case Nil
  then show ?case by (simp add: return_act_def)
next
  case (Cons m ms)
  from Cons.IH [of "mark_failure env m d"] obtain em where
    "mark_failures env ms (on (open_session (mark_failure env m d))) =
      Inr (em, on (open_session (fold (mark_failure env) ms (mark_failure env m d))))" by blast
  then show ?case
    by (simp add: Let_def bind_act_def repo_on mark_publish_failure_def return_act_def flip: mark_failure_def)
qed

lemma mark_phase:
  "\<exists>em. transactional True (mark_body env published failed) d =
     (Inr em, fold (mark_failure env) failed
        (fold (\<lambda>i. mark_processed_db (we_ts2 env) i (we_worker_id env)) published d))"
proof -
  let ?d = "fold (\<lambda>i. mark_processed_db (we_ts2 env) i (we_worker_id env)) published d"
  obtain em where "mark_failures env failed (on (open_session ?d)) =
      Inr (em, on (open_session (fold (mark_failure env) failed ?d)))" using mark_failures_on by blast
  then show ?thesis
    by (simp add: transactional_commit mark_body_def bind_act_def mark_published_on)
qed

text \<open>A mark touches its own message only, and only while the worker owns it.\<close>

lemma owned_update_view:
  assumes "\<And>r. ob_id (f r) = ob_id r"
  shows "j \<noteq> i \<Longrightarrow> outbox_view j (update_outbox (owned i w) f d) = outbox_view j d"
  using row_by_SomeD [of ob_id j "outbox_messages d"]
  by (cases "row_by ob_id j (outbox_messages d)")
    (auto simp: outbox_view_def update_outbox_def row_by_update_where assms owned_def)

lemma mark_processed_other: "j \<noteq> i \<Longrightarrow> outbox_view j (mark_processed_db ts i w d) = outbox_view j d"
  unfolding mark_processed_db_def by (rule owned_update_view) (simp_all add: to_processed_def)

lemma mark_failure_other: "j \<noteq> om_id m \<Longrightarrow> outbox_view j (mark_failure env m d) = outbox_view j d"
  unfolding mark_failure_def mark_publish_failure_db_def
  by (rule owned_update_view) (simp_all add: after_failure_def Let_def)

lemma leased_row:
  assumes "outbox_ok m d" "outbox_view i d = Some (Leased w n)"
  obtains r where "row_by ob_id i (outbox_messages d) = Some r" "owned i w r" "ob_attempts r = n"
    "ob_status r = ''processing''" "ob_claimed_by r = Some w" "ob_id r = i"
proof -
  from assms(2) obtain r where r: "row_by ob_id i (outbox_messages d) = Some r" "lease_of r = Leased w n"
    by (auto simp: outbox_view_def)
  from row_by_SomeD [OF r(1)] assms(1) have "outbox_row_ok m r" "ob_id r = i" by (auto simp: outbox_ok_def)
  with r that show thesis
    by (auto simp: lease_of_def outbox_row_ok_def owned_def split: if_splits option.splits)
qed

lemma mark_processed_own:
  assumes "outbox_ok m d" "outbox_view i d = Some (Leased w n)"
  shows "outbox_view i (mark_processed_db ts i w d) = Some Published"
  by (rule leased_row [OF assms]) (simp add: outbox_view_def mark_processed_db_def update_outbox_def row_by_update_where
      to_processed_def lease_of_def)

lemma mark_failure_own:
  assumes "outbox_ok m d" "outbox_view (om_id x) d = Some (Leased (we_worker_id env) n)"
    and "m = OUTBOX_MAX_ATTEMPTS (we_settings env)"
  shows "outbox_view (om_id x) (mark_failure env x d) = Some (if m \<le> n then Dead else Waiting n)"
  by (rule leased_row [OF assms(1,2)]) (simp add: outbox_view_def mark_failure_def mark_publish_failure_db_def update_outbox_def
      row_by_update_where after_failure_def Let_def lease_of_def assms(3))

lemma mark_processed_ok: "outbox_ok m d \<Longrightarrow> outbox_ok m (mark_processed_db ts i w d)"
  using outbox_op_refines [of "mark_processed_db ts i w" m "Ack w" d] by auto

lemma mark_failure_ok:
  "outbox_ok m d \<Longrightarrow> m = OUTBOX_MAX_ATTEMPTS (we_settings env) \<Longrightarrow> outbox_ok m (mark_failure env x d)"
  using outbox_op_refines [of "mark_failure env x" m "Nack (we_worker_id env)" d]
  by (auto simp: mark_failure_def)

lemma fold_published_view:
  assumes "outbox_ok m d" "distinct ids"
  shows "outbox_ok m (fold (\<lambda>i. mark_processed_db ts i w) ids d) \<and>
    (\<forall>j. j \<notin> set ids \<longrightarrow> outbox_view j (fold (\<lambda>i. mark_processed_db ts i w) ids d) = outbox_view j d) \<and>
    (\<forall>j \<in> set ids. \<forall>n. outbox_view j d = Some (Leased w n) \<longrightarrow>
       outbox_view j (fold (\<lambda>i. mark_processed_db ts i w) ids d) = Some Published)"
  using assms
proof (induction ids arbitrary: d)
  case Nil
  then show ?case by simp
next
  case (Cons i ids)
  let ?d = "mark_processed_db ts i w d"
  have ok: "outbox_ok m ?d" by (rule mark_processed_ok [OF Cons.prems(1)])
  from Cons.IH [OF ok] Cons.prems(2) have IH:
    "outbox_ok m (fold (\<lambda>i. mark_processed_db ts i w) ids ?d)"
    "\<And>j. j \<notin> set ids \<Longrightarrow> outbox_view j (fold (\<lambda>i. mark_processed_db ts i w) ids ?d) = outbox_view j ?d"
    "\<And>j n. j \<in> set ids \<Longrightarrow> outbox_view j ?d = Some (Leased w n) \<Longrightarrow>
       outbox_view j (fold (\<lambda>i. mark_processed_db ts i w) ids ?d) = Some Published" by auto
  have i: "i \<notin> set ids" using Cons.prems(2) by simp
  show ?case
  proof (intro conjI allI ballI impI)
    show "outbox_view j (fold (\<lambda>i. mark_processed_db ts i w) (i # ids) d) = Some Published"
      if "j \<in> set (i # ids)" "outbox_view j d = Some (Leased w n)" for j n
    proof (cases "j = i")
      case True
      with IH(2) [OF i] mark_processed_own [OF Cons.prems(1) that(2)] show ?thesis by simp
    next
      case False
      with that IH(3) [of j n] show ?thesis by (simp add: mark_processed_other)
    qed
  qed (use IH in \<open>simp_all add: mark_processed_other\<close>)
qed

lemma fold_failed_view:
  assumes "outbox_ok m d" "distinct (map om_id xs)" "m = OUTBOX_MAX_ATTEMPTS (we_settings env)"
  shows "outbox_ok m (fold (mark_failure env) xs d) \<and>
    (\<forall>j. j \<notin> om_id ` set xs \<longrightarrow> outbox_view j (fold (mark_failure env) xs d) = outbox_view j d) \<and>
    (\<forall>x \<in> set xs. \<forall>n. outbox_view (om_id x) d = Some (Leased (we_worker_id env) n) \<longrightarrow>
       outbox_view (om_id x) (fold (mark_failure env) xs d) = Some (if m \<le> n then Dead else Waiting n))"
  using assms
proof (induction xs arbitrary: d)
  case Nil
  then show ?case by simp
next
  case (Cons x xs)
  let ?d = "mark_failure env x d"
  have ok: "outbox_ok m ?d" by (rule mark_failure_ok [OF Cons.prems(1,3)])
  from Cons.IH [OF ok] Cons.prems have IH:
    "outbox_ok m (fold (mark_failure env) xs ?d)"
    "\<And>j. j \<notin> om_id ` set xs \<Longrightarrow> outbox_view j (fold (mark_failure env) xs ?d) = outbox_view j ?d"
    "\<And>y n. y \<in> set xs \<Longrightarrow> outbox_view (om_id y) ?d = Some (Leased (we_worker_id env) n) \<Longrightarrow>
       outbox_view (om_id y) (fold (mark_failure env) xs ?d) = Some (if m \<le> n then Dead else Waiting n)" by auto
  have other: "om_id y \<noteq> om_id x" if "y \<in> set xs" for y using that Cons.prems(2) by (auto simp: image_iff)
  show ?case
  proof (intro conjI allI ballI impI)
    show "outbox_ok m (fold (mark_failure env) (x # xs) d)" using IH(1) by simp
    show "outbox_view j (fold (mark_failure env) (x # xs) d) = outbox_view j d" if "j \<notin> om_id ` set (x # xs)" for j
      using that IH(2) [of j] by (simp add: mark_failure_other)
    show "outbox_view (om_id y) (fold (mark_failure env) (x # xs) d) = Some (if m \<le> n then Dead else Waiting n)"
      if "y \<in> set (x # xs)" "outbox_view (om_id y) d = Some (Leased (we_worker_id env) n)" for y n
    proof (cases "y \<in> set xs")
      case True
      with IH(3) [OF True, of n] that(2) other [OF True] show ?thesis by (simp add: mark_failure_other)
    next
      case False
      with that have y: "y = x" by simp
      have "om_id x \<notin> om_id ` set xs" using Cons.prems(2) by simp
      from IH(2) [OF this] mark_failure_own [OF Cons.prems(1) that(2) [unfolded y] Cons.prems(3)]
      show ?thesis by (simp add: y)
    qed
  qed
qed

lemma publish_results:
  assumes "\<And>x. x \<in> set ms \<Longrightarrow> we_publish env x \<noteq> Inl CancelledError"
  shows "\<exists>rs. mapM_res (publish_one env) ms = Inr rs \<and>
    List.map_filter fst rs = filter (\<lambda>x. \<not> is_ok (we_publish env x)) ms"
  using assms
proof (induction ms)
  case Nil
  then show ?case by (simp add: List.map_filter_def)
next
  case (Cons x ms)
  then obtain rs where rs: "mapM_res (publish_one env) ms = Inr rs"
    "List.map_filter fst rs = filter (\<lambda>x. \<not> is_ok (we_publish env x)) ms" by auto
  show ?case
  proof (cases "we_publish env x")
    case (Inl e)
    then have "is_Exception e" using Cons.prems [of x] by (cases e) auto
    with Inl have "publish_one env x = Inr (Some x, [OutboxMessages ''failed'', PublishDuration (we_elapsed env x)])" by (simp add: publish_one_def)
    with rs Inl show ?thesis by (simp add: List.map_filter_def)
  next
    case (Inr u)
    then have "publish_one env x = Inr (None, [OutboxMessages ''published'', PublishDuration (we_elapsed env x)])" by (simp add: publish_one_def)
    with rs Inr show ?thesis by (simp add: List.map_filter_def)
  qed
qed

lemma publish_all_results:
  assumes "\<And>x. x \<in> set ms \<Longrightarrow> we_publish env x \<noteq> Inl CancelledError"
    and "we_exchange_type env (RABBITMQ_EXCHANGE_TYPE (we_settings env)) = Inr u"
    and "0 < OUTBOX_PUBLISH_CONCURRENCY (we_settings env)"
  obtains rs where "publish_all env ms = Inr rs" "List.map_filter fst rs = filter (\<lambda>x. \<not> is_ok (we_publish env x)) ms"
  using publish_results [OF assms(1)] assms(2,3) by (force simp: publish_all_def)

lemma release_expired_ok:
  assumes "outbox_ok m d" shows "outbox_ok m (snd (release_expired_db ts now timeout m d))"
proof -
  have "(\<lambda>d. snd (release_expired_db ts now timeout m d)) \<in> outbox_ops m Expire" by auto
  from outbox_op_refines [OF this assms] show ?thesis by simp
qed

lemma batch_recorded:
  assumes claim: "transactional True (claim_body env) d = (Inr (em, ms), d1)"
    and ok: "outbox_ok (OUTBOX_MAX_ATTEMPTS (we_settings env)) d"
    and others: "we_others env = fold (\<lambda>(a, f). f) h"
    and h: "\<forall>(a, f) \<in> set h. f \<in> outbox_ops (OUTBOX_MAX_ATTEMPTS (we_settings env)) a \<and>
      a \<noteq> Ack (we_worker_id env) \<and> a \<noteq> Nack (we_worker_id env) \<and> a \<noteq> Expire"
    and ready: "we_exchange_type env (RABBITMQ_EXCHANGE_TYPE (we_settings env)) = Inr ()"
      "0 < OUTBOX_PUBLISH_CONCURRENCY (we_settings env)"
    and cancelled: "\<forall>x \<in> set ms. we_publish env x \<noteq> Inl CancelledError"
    and run: "publish_batch env d = (res, em', d3)" and "ms \<noteq> []"
  shows "res = Inr () \<and>
    (\<forall>x \<in> set ms. outbox_view (om_id x) d3 =
       Some (if is_ok (we_publish env x) then Published
             else if OUTBOX_MAX_ATTEMPTS (we_settings env) \<le> om_attempts x then Dead
             else Waiting (om_attempts x))) \<and>
    (\<forall>i. i \<notin> om_id ` set ms \<longrightarrow> outbox_view i d3 = outbox_view i (fold (\<lambda>(a, f). f) h d1))"
proof -
  let ?m = "OUTBOX_MAX_ATTEMPTS (we_settings env)"
  let ?failed = "filter (\<lambda>x. \<not> is_ok (we_publish env x)) ms"
  let ?published = "map om_id (filter (\<lambda>x. om_id x \<notin> om_id ` set ?failed) ms)"
  define d2 where "d2 = fold (\<lambda>(a, f). f) h d1"
  note claimed = claim_batch_view [OF release_expired_ok [OF ok] claim_phase [OF claim]]
  have hist: "\<forall>(a, f) \<in> set h. f \<in> outbox_ops ?m a"
    "\<forall>(a, f) \<in> set h. a \<noteq> Ack (we_worker_id env) \<and> a \<noteq> Nack (we_worker_id env) \<and> a \<noteq> Expire" using h by auto
  have ok2: "outbox_ok ?m d2" unfolding d2_def by (rule ob.history_ok [OF hist(1) claimed(1)])
  have held: "outbox_view (om_id x) d2 = Some (Leased (we_worker_id env) (om_attempts x))" if "x \<in> set ms" for x
    unfolding d2_def by (rule ob.lease_kept [OF hist(1) claimed(1) claimed(3) [OF that] hist(2)])
  let ?d2' = "fold (\<lambda>i. mark_processed_db (we_ts2 env) i (we_worker_id env)) ?published d2"
  obtain rs where rs: "publish_all env ms = Inr rs" "List.map_filter fst rs = ?failed"
    using publish_all_results [of ms env "()"] cancelled ready by blast
  obtain em2 where "transactional True (mark_body env ?published ?failed) d2 =
      (Inr em2, fold (mark_failure env) ?failed ?d2')" using mark_phase by blast
  with run claim rs others \<open>ms \<noteq> []\<close> have res: "res = Inr ()" and d3: "d3 = fold (mark_failure env) ?failed ?d2'"
    by (simp_all add: publish_batch_def Let_def flip: d2_def)
  have same: "x = y" if "x \<in> set ms" "y \<in> set ms" "om_id x = om_id y" for x y
    using claimed(2) that by (auto simp: distinct_map dest: inj_onD)
  have pub: "om_id x \<in> set ?published \<longleftrightarrow> is_ok (we_publish env x)" if "x \<in> set ms" for x
    using that same by (auto simp: image_iff)
  have "distinct ?published" "distinct (map om_id ?failed)"
    using claimed(2) by (simp_all add: distinct_map_filter)
  note P = fold_published_view [OF ok2 this(1), of "we_ts2 env" "we_worker_id env"]
  note F = fold_failed_view [OF P [THEN conjunct1] \<open>distinct (map om_id ?failed)\<close> refl]
  have P2: "outbox_view j ?d2' = outbox_view j d2" if "j \<notin> set ?published" for j using P that by blast
  have P3: "outbox_view j ?d2' = Some Published" if "j \<in> set ?published" "outbox_view j d2 = Some (Leased (we_worker_id env) n)"
    for j n using P that by blast
  have F2: "outbox_view j d3 = outbox_view j ?d2'" if "j \<notin> om_id ` set ?failed" for j
    using F that unfolding d3 by blast
  have F3: "outbox_view (om_id x) d3 = Some (if ?m \<le> n then Dead else Waiting n)"
    if "x \<in> set ?failed" "outbox_view (om_id x) ?d2' = Some (Leased (we_worker_id env) n)" for x n
    using F that unfolding d3 by blast
  have "outbox_view (om_id x) d3 = Some (if is_ok (we_publish env x) then Published
      else if ?m \<le> om_attempts x then Dead else Waiting (om_attempts x))" if x: "x \<in> set ms" for x
  proof (cases "is_ok (we_publish env x)")
    case True
    then have "om_id x \<notin> om_id ` set ?failed" using x same by auto
    from F2 [OF this] P3 [OF pub [OF x, THEN iffD2, OF True] held [OF x]] True show ?thesis by simp
  next
    case False
    then have "om_id x \<notin> set ?published" using pub [OF x] by blast
    from P2 [OF this] held [OF x] have "outbox_view (om_id x) ?d2' = Some (Leased (we_worker_id env) (om_attempts x))"
      by simp
    from F3 [OF _ this] False x show ?thesis by simp
  qed
  moreover have "outbox_view i d3 = outbox_view i d2" if "i \<notin> om_id ` set ms" for i
  proof -
    from that have "i \<notin> set ?published" "i \<notin> om_id ` set ?failed" by auto
    from F2 [OF this(2)] P2 [OF this(1)] show ?thesis by (rule trans)
  qed
  ultimately show ?thesis using res unfolding d2_def by blast
qed

text \<open>
  Property C12. The results of a batch are recorded: when the worker has claimed a batch and, while
  it publishes, other workers do whatever they like except letting its leases expire, then every
  message of the batch that the broker accepted ends as published; every other one waits for its
  retry, or is dead when this was its last attempt; and no other message is touched. A failing
  publication of one message disturbs none of the others.
\<close>

theorem publish_batch_records:
  assumes claim: "transactional True (claim_body env) d = (Inr (em, ms), d1)"
    and ok: "outbox_ok (OUTBOX_MAX_ATTEMPTS (we_settings env)) d"
    and others: "we_others env = fold (\<lambda>(a, f). f) h"
    and h: "\<forall>(a, f) \<in> set h. f \<in> outbox_ops (OUTBOX_MAX_ATTEMPTS (we_settings env)) a \<and>
      a \<noteq> Ack (we_worker_id env) \<and> a \<noteq> Nack (we_worker_id env) \<and> a \<noteq> Expire"
    and ready: "we_exchange_type env (RABBITMQ_EXCHANGE_TYPE (we_settings env)) = Inr ()"
      "0 < OUTBOX_PUBLISH_CONCURRENCY (we_settings env)"
    and cancelled: "\<forall>x \<in> set ms. we_publish env x \<noteq> Inl CancelledError"
    and run: "publish_batch env d = (res, em', d3)" and "ms \<noteq> []"
  shows "res = Inr () \<and>
    (\<forall>x \<in> set ms. outbox_view (om_id x) d3 =
       Some (if is_ok (we_publish env x) then Published
             else if OUTBOX_MAX_ATTEMPTS (we_settings env) \<le> om_attempts x then Dead
             else Waiting (om_attempts x))) \<and>
    (\<forall>i. i \<notin> om_id ` set ms \<longrightarrow> outbox_view i d3 = outbox_view i (fold (\<lambda>(a, f). f) h d1))"
  by (rule batch_recorded [OF assms])

definition demo_worker :: worker_env where
  "demo_worker =
     \<lparr>we_settings = default_settings ''u'' ''p'' ''d'', we_worker_id = 7, we_now = 500000000,
      we_exchange_type = (\<lambda>_. Inr ()), we_publish = (\<lambda>_. Inl (External ''ConnectionError'')),
      we_locked = (\<lambda>_. False), we_others = id, we_uniform = (\<lambda>_. 1), we_ts1 = 500000000,
      we_ts2 = 500000000, we_elapsed = (\<lambda>_. 1/100)\<rparr>"

lemma demo_worker_claim:
  "\<exists>em x d1. transactional True (claim_body demo_worker) demo_outbox_db = (Inr (em, [x]), d1) \<and>
     om_id x = 10 \<and> om_attempts x = 1"
proof -
  have rel: "release_expired_db 500000000 500000000 300 5 demo_outbox_db = ((0, 0), demo_outbox_db)"
    by (simp add: release_expired_db_def Let_def demo_outbox_db_def demo_message_def update_outbox_def expired_def
        rowcount_def)
  have ids: "claim_ids (\<lambda>_. False) 50 500000000 5 demo_outbox_db = [10]"
    by (simp add: claim_ids_def demo_outbox_db_def demo_message_def claimable_def)
  obtain x d1 where x: "claim_batch_db (\<lambda>_. False) 50 500000000 7 5 demo_outbox_db = Inr ([x], d1)"
    "om_id x = 10" "om_attempts x = 1"
    by (simp add: claim_batch_db_def Let_def ids)
      (simp add: demo_outbox_db_def update_outbox_def demo_message_def to_claimed_def outbox_to_domain_def)
  then show ?thesis
    by (auto simp: transactional_commit claim_body_def demo_worker_def default_settings_def Let_def bind_act_def
        repo_on release_expired_claims_def claim_batch_def rel return_act_def)
qed

theorem publish_batch_records_witness:
  "\<exists>em d3. publish_batch demo_worker demo_outbox_db = (Inr (), em, d3) \<and> outbox_view 10 d3 = Some (Waiting 1)"
proof -
  obtain em x d1 where claim: "transactional True (claim_body demo_worker) demo_outbox_db = (Inr (em, [x]), d1)"
    and x: "om_id x = 10" "om_attempts x = 1" using demo_worker_claim by blast
  obtain res em' d3 where run: "publish_batch demo_worker demo_outbox_db = (res, em', d3)" by (metis prod_cases3)
  from publish_batch_records [OF claim _ _ _ _ _ _ run, of "[]"] x
  have "res = Inr () \<and> outbox_view 10 d3 = Some (Waiting 1)"
    by (auto simp: demo_worker_def default_settings_def demo_outbox_ok)
  with run show ?thesis by blast
qed

section \<open>Backoff and the loop\<close>

text \<open>
  Property C20. The outbox's backoff: a failed message is retried exactly when it has attempts left;
  the retry is never in the past and at most \<open>max_delay * (1 + jitter)\<close> later; without jitter the
  delay starts at the base delay, doubles with each attempt up to the cap, and never shrinks.
\<close>

theorem outbox_backoff:
  assumes "0 \<le> OUTBOX_RETRY_BASE_DELAY s" "0 \<le> OUTBOX_RETRY_MAX_DELAY s" "0 \<le> OUTBOX_RETRY_JITTER s"
    and "1 \<le> u" "u \<le> 1 + OUTBOX_RETRY_JITTER s" and "1 \<le> n"
  shows "(worker_next_retry_at s u n now = None \<longleftrightarrow> OUTBOX_MAX_ATTEMPTS s \<le> n) \<and>
    (\<forall>t. worker_next_retry_at s u n now = Some t \<longrightarrow>
       now \<le> t \<and> t \<le> now + timedelta (OUTBOX_RETRY_MAX_DELAY s * (1 + OUTBOX_RETRY_JITTER s))) \<and>
    (OUTBOX_RETRY_JITTER s = 0 \<longrightarrow>
       retry_delay s u 1 = min (OUTBOX_RETRY_BASE_DELAY s) (OUTBOX_RETRY_MAX_DELAY s) \<and>
       retry_delay s u (n + 1) = min (2 * retry_delay s u n) (OUTBOX_RETRY_MAX_DELAY s) \<and>
       retry_delay s u n \<le> retry_delay s u (n + 1))"
proof -
  let ?b = "OUTBOX_RETRY_BASE_DELAY s" and ?c = "OUTBOX_RETRY_MAX_DELAY s" and ?j = "OUTBOX_RETRY_JITTER s"
  let ?p = "(2::rat) powi (n - 1)"
  let ?d = "min (?b * ?p) ?c"
  have p: "0 < ?p" by (rule zero_less_power_int) simp
  then have d: "0 \<le> ?d" "?d \<le> ?c" using assms(1,2) by simp_all
  have delay: "retry_delay s u n = (if ?j \<noteq> 0 then ?d * u else ?d)"
    by (simp add: retry_delay_def Let_def)
  have "0 \<le> retry_delay s u n \<and> retry_delay s u n \<le> ?c * (1 + ?j)"
  proof (cases "?j = 0")
    case True
    with d delay show ?thesis by simp
  next
    case False
    have "?d * u \<le> ?c * (1 + ?j)" using d assms by (intro mult_mono) simp_all
    with False d delay assms(4) show ?thesis by simp
  qed
  then have "0 \<le> timedelta (retry_delay s u n)" "timedelta (retry_delay s u n) \<le> timedelta (?c * (1 + ?j))"
    by (simp_all add: timedelta_nonneg timedelta_mono)
  then have due: "\<forall>t. worker_next_retry_at s u n now = Some t \<longrightarrow> now \<le> t \<and> t \<le> now + timedelta (?c * (1 + ?j))"
    by (auto simp: worker_next_retry_at_def)
  have "(2::rat) powi n = 2 * ?p" using power_int_add_1' [of "2::rat" "n - 1"] by simp
  then have next_delay: "retry_delay s u (n + 1) = min (2 * ?d) ?c" if "?j = 0"
    using that assms(1,2) p by (auto simp: retry_delay_def Let_def min_def mult_ac)
  have "?j = 0 \<longrightarrow> retry_delay s u 1 = min ?b ?c \<and>
      retry_delay s u (n + 1) = min (2 * retry_delay s u n) ?c \<and> retry_delay s u n \<le> retry_delay s u (n + 1)"
    using d delay next_delay by (simp add: retry_delay_def [of s u 1])
  moreover have "worker_next_retry_at s u n now = None \<longleftrightarrow> OUTBOX_MAX_ATTEMPTS s \<le> n"
    by (simp add: worker_next_retry_at_def)
  ultimately show ?thesis using due by blast
qed

theorem outbox_backoff_witness:
  "worker_next_retry_at (default_settings ''u'' ''p'' ''d'') 1 4 0 = Some (timedelta 8) \<and>
   retry_delay (default_settings ''u'' ''p'' ''d'') 1 (4 + 1) = 16"
proof -
  let ?s = "default_settings ''u'' ''p'' ''d''"
  have "OUTBOX_RETRY_JITTER ?s = 0 \<longrightarrow> retry_delay ?s 1 (4 + 1) = min (2 * retry_delay ?s 1 4) (OUTBOX_RETRY_MAX_DELAY ?s)"
    using outbox_backoff [of ?s 1 4 0] by (simp add: default_settings_def)
  moreover have "retry_delay ?s 1 4 = 8" by (simp add: retry_delay_def default_settings_def power_int_def)
  ultimately show ?thesis by (simp add: worker_next_retry_at_def default_settings_def)
qed

text \<open>
  The loop survives: a turn in which the batch or the purge raises, whatever the
  exception short of cancellation, ends normally with the counter advanced, and the retention runs
  in every \<open>OUTBOX_PURGE_INTERVAL\<close>-th turn and in no other; but an interval of zero, which the
  settings accept, ends the loop in its first turn with a \<open>ZeroDivisionError\<close>.
\<close>

theorem outbox_cycle_survives:
  assumes batch: "publish_batch env d = (r, em, d1)" and "r \<noteq> Inl CancelledError"
    and purge: "worker_purge env now d1 = (r2, d2)" and "r2 \<noteq> Inl CancelledError"
    and every: "every = OUTBOX_PURGE_INTERVAL (we_settings env)"
  shows "outbox_cycle env now (c, d) =
    (if every = 0 then Inl (External ''ZeroDivisionError'') else Inr (), WorkerCycles ''outbox'' # em, c + 1,
     if every \<noteq> 0 \<and> every dvd c + 1 then d2 else d1)"
proof -
  have swallow: "swallow r = Inr ()" if "r \<noteq> Inl CancelledError" for r
  proof (cases r)
    case (Inl e)
    then have "is_Exception e" using that by (cases e) auto
    with Inl show ?thesis by (simp add: swallow_def)
  qed (simp add: swallow_def)
  show ?thesis
    by (simp add: outbox_cycle_def batch purge swallow assms(2,4) every Let_def dvd_eq_mod_eq_0)
qed

lemma worker_purge_ok: "\<exists>d2. worker_purge env now d = (Inr (), d2)"
  by (simp add: worker_purge_def purge_body_def Let_def transactional_commit bind_act_def repo_on reap_exhausted_def
      purge_processed_def)

theorem outbox_cycle_survives_witness:
  "\<exists>em d1. outbox_cycle (demo_worker\<lparr>we_exchange_type := \<lambda>_. Inl (ValueError ''type'')\<rparr>) 0 (0, demo_outbox_db) =
     (Inr (), WorkerCycles ''outbox'' # em, 1, d1)"
proof -
  let ?env = "demo_worker\<lparr>we_exchange_type := \<lambda>_. Inl (ValueError ''type'')\<rparr>"
  obtain em x d1 where "transactional True (claim_body demo_worker) demo_outbox_db = (Inr (em, [x]), d1)"
    using demo_worker_claim by blast
  moreover have "claim_body ?env = claim_body demo_worker" by (simp add: claim_body_def)
  ultimately obtain em' d1' where run: "publish_batch ?env demo_outbox_db = (Inl (ValueError ''type''), em', d1')"
    by (simp add: publish_batch_def publish_all_def Let_def)
  obtain d2 where purge: "worker_purge ?env 0 d1' = (Inr (), d2)" using worker_purge_ok by blast
  have "OUTBOX_PURGE_INTERVAL (we_settings ?env) = 300" by (simp add: demo_worker_def default_settings_def)
  with outbox_cycle_survives [OF run _ purge _ refl, of 0] show ?thesis by simp
qed

end
