(* ===== verification/OutboxProgress.thy ===== *)
theory OutboxProgress
  imports OutboxWorker System
begin

text \<open>
  The outbox worker makes progress (\<open>infrastructure/outbox/worker.py\<close>, \<open>run\<close>). The leases that the
  messages of the table still have are a measure on the abstract queue: no operation but an
  insertion raises it, a claim and an expiry lower it. So the worker publishes a bounded number of
  times, and settles every message after finitely many turns, whatever other workers do meanwhile.
\<close>

section \<open>Measures on the abstract queue\<close>

inductive_simps lease_step_from_None: "lease_step m a None l"

text \<open>A queue that holds finitely many messages.\<close>

locale finite_queue = message_queue +
  fixes ids :: "'a \<Rightarrow> uuid set"
  assumes finite_ids: "finite (ids d)"
    and ids_view: "i \<in> ids d \<longleftrightarrow> view i d \<noteq> None"
begin

abbreviation total :: "(lease \<Rightarrow> nat) \<Rightarrow> 'a \<Rightarrow> nat" where
  "total weight d \<equiv> (\<Sum>i \<in> ids d. weight (the (view i d)))"

lemma total_step:
  assumes f: "f \<in> ops a" "ok d" and "a \<noteq> Insert"
    and drop: "\<And>l l'. lease_step m a (Some l) l' \<Longrightarrow> (case l' of None \<Rightarrow> 0 | Some x \<Rightarrow> weight x) + k \<le> weight l"
  shows "total weight (f d) + k * card {i \<in> ids d. view i (f d) \<noteq> view i d} \<le> total weight d"
proof -
  let ?w = "\<lambda>l. case l of None \<Rightarrow> 0 | Some x \<Rightarrow> weight x"
  note step = refines [OF f]
  have "view i (f d) = None" if "view i d = None" for i
    using step [of i] assms(3) by (auto simp: that lease_step_from_None)
  then have sub: "ids (f d) \<subseteq> ids d" using ids_view by blast
  have "total weight (f d) = (\<Sum>i \<in> ids d. ?w (view i (f d)))"
    using sub by (intro sum.mono_neutral_cong_left) (auto simp: finite_ids ids_view)
  moreover have "k * card {i \<in> ids d. view i (f d) \<noteq> view i d} =
      (\<Sum>i \<in> ids d. if view i (f d) \<noteq> view i d then k else 0)"
    by (simp add: sum.If_cases finite_ids Int_def mult.commute)
  moreover have "?w (view i (f d)) + (if view i (f d) \<noteq> view i d then k else 0) \<le> weight (the (view i d))"
    if i: "i \<in> ids d" for i
  proof -
    obtain l where l: "view i d = Some l" using i ids_view by blast
    show ?thesis using step [of i] drop [of l "view i (f d)"] by (auto simp: l)
  qed
  then have "(\<Sum>i \<in> ids d. ?w (view i (f d)) + (if view i (f d) \<noteq> view i d then k else 0)) \<le> total weight d"
    by (rule sum_mono)
  ultimately show ?thesis by (simp add: sum.distrib)
qed

lemma total_history:
  assumes "history h" "ok d" "\<forall>(a, f) \<in> set h. a \<noteq> Insert"
    and drop: "\<And>a l l'. lease_step m a (Some l) l' \<Longrightarrow> (case l' of None \<Rightarrow> 0 | Some x \<Rightarrow> weight x) \<le> weight l"
  shows "total weight (after h d) \<le> total weight d"
  using assms(1-3)
proof (induction h arbitrary: d)
  case Nil
  then show ?case by simp
next
  case (Cons af h)
  obtain a f where af: "af = (a, f)" by (cases af)
  with Cons.prems have f: "f \<in> ops a" "a \<noteq> Insert" by auto
  have "total weight (f d) \<le> total weight d"
    using total_step [OF f(1) Cons.prems(2) f(2), of weight 0] drop by simp
  with Cons af keeps_ok [OF f(1) Cons.prems(2)] show ?case by fastforce
qed

end

text \<open>The leases a message can still see, and the steps it can still take.\<close>

fun leases_left :: "int \<Rightarrow> lease \<Rightarrow> nat" where
  "leases_left m (Waiting n) = nat (m - n)"
| "leases_left m (Leased w n) = nat (m - n)"
| "leases_left m Published = 0"
| "leases_left m Dead = 0"

fun steps_left :: "int \<Rightarrow> lease \<Rightarrow> nat" where
  "steps_left m (Waiting n) = Suc (2 * nat (m - n))"
| "steps_left m (Leased w n) = Suc (Suc (2 * nat (m - n)))"
| "steps_left m Published = 0"
| "steps_left m Dead = 0"

lemma leases_left_step:
  "lease_step m a (Some l) l' \<Longrightarrow>
     (case l' of None \<Rightarrow> 0 | Some x \<Rightarrow> leases_left m x) + (if \<exists>w. a = Claim w then 1 else 0) \<le> leases_left m l"
  by (auto elim!: lease_step.cases)

lemma steps_left_step:
  "lease_step m a (Some l) l' \<Longrightarrow>
     (case l' of None \<Rightarrow> 0 | Some x \<Rightarrow> steps_left m x) + (if a \<noteq> Purge then 1 else 0) \<le> steps_left m l"
  by (auto elim!: lease_step.cases)

definition outbox_total :: "(lease \<Rightarrow> nat) \<Rightarrow> db \<Rightarrow> nat" where
  "outbox_total weight d = (\<Sum>r \<leftarrow> outbox_messages d. weight (lease_of r))"

abbreviation outbox_ids :: "db \<Rightarrow> uuid set" where
  "outbox_ids d \<equiv> ob_id ` set (outbox_messages d)"

interpretation fq: finite_queue outbox_view "outbox_ok m" "outbox_ops m" m outbox_ids for m
  by unfold_locales (auto simp: outbox_view_def row_by_None_iff)

lemma outbox_total_view:
  assumes "outbox_ok m d"
  shows "outbox_total weight d = (\<Sum>i \<in> outbox_ids d. weight (the (outbox_view i d)))"
proof -
  have uniq: "unique_key ob_id (outbox_messages d)" using assms by (simp add: outbox_ok_def)
  then have "inj_on ob_id (set (outbox_messages d))" "distinct (outbox_messages d)"
    by (auto simp: unique_key_def distinct_map)
  then show ?thesis
    by (simp add: outbox_total_def sum.reindex sum_list_distinct_conv_sum_set outbox_view_def row_by_unique [OF uniq])
qed

text \<open>A message is unsettled while it waits or is leased.\<close>

definition some_unsettled :: "db \<Rightarrow> bool" where
  "some_unsettled d \<longleftrightarrow> list_ex (\<lambda>r. ob_status r \<in> {''pending'', ''processing''}) (outbox_messages d)"

lemma row_settled:
  "outbox_row_ok m r \<Longrightarrow> steps_left m (lease_of r) = 0 \<longleftrightarrow> ob_status r \<notin> {''pending'', ''processing''}"
  by (cases "ob_claimed_by r") (auto simp: outbox_row_ok_def lease_of_def)

lemma steps_left_0:
  assumes "outbox_ok m d" shows "outbox_total (steps_left m) d = 0 \<longleftrightarrow> \<not> some_unsettled d"
proof -
  have "steps_left m (lease_of r) = 0 \<longleftrightarrow> ob_status r \<notin> {''pending'', ''processing''}"
    if "r \<in> set (outbox_messages d)" for r
    using row_settled assms that unfolding outbox_ok_def by blast
  then show ?thesis by (simp add: outbox_total_def some_unsettled_def list_ex_iff sum_list_eq_0_iff)
qed

section \<open>The loop\<close>

text \<open>\<open>while True\<close>, cut off after a number of turns: one environment and one clock reading for the sweep per turn.\<close>

fun outbox_loop :: "(worker_env \<times> datetime) list \<Rightarrow> int \<times> db \<Rightarrow> (exn + unit) \<times> metric list \<times> int \<times> db" where
  "outbox_loop [] st = (Inr (), [], st)"
| "outbox_loop ((env, now) # envs) st =
     (case outbox_cycle env now st of
        (Inl e, em, st') \<Rightarrow> (Inl e, em, st')
      | (Inr _, em, st') \<Rightarrow> (let (r, em', st'') = outbox_loop envs st' in (r, em @ em', st'')))"

text \<open>The publications that the metrics count, successful or not.\<close>

definition publications :: "metric list \<Rightarrow> nat" where
  "publications em = length (filter (\<lambda>x. x \<in> {OutboxMessages ''published'', OutboxMessages ''failed''}) em)"

lemma publications_simps [simp]:
  "publications [] = 0"
  "publications (x # em) = (if x \<in> {OutboxMessages ''published'', OutboxMessages ''failed''} then 1 else 0) + publications em"
  "publications (em @ em') = publications em + publications em'"
  by (simp_all add: publications_def)

text \<open>Settings under which a turn works, a broker that answers, and other workers that add no messages.\<close>

definition good_worker :: "int \<Rightarrow> worker_env \<Rightarrow> bool" where
  "good_worker m env \<longleftrightarrow> OUTBOX_MAX_ATTEMPTS (we_settings env) = m \<and> 0 < OUTBOX_BATCH_SIZE (we_settings env) \<and>
     0 < OUTBOX_PUBLISH_CONCURRENCY (we_settings env) \<and> OUTBOX_PURGE_INTERVAL (we_settings env) \<noteq> 0 \<and>
     is_ok (we_exchange_type env (RABBITMQ_EXCHANGE_TYPE (we_settings env))) \<and>
     (\<forall>x. we_publish env x \<noteq> Inl CancelledError)"

definition other_workers :: "int \<Rightarrow> (db \<Rightarrow> db) \<Rightarrow> bool" where
  "other_workers m g \<longleftrightarrow> (\<exists>h. g = fold (\<lambda>(a, f). f) h \<and> (\<forall>(a, f) \<in> set h. f \<in> outbox_ops m a \<and> a \<noteq> Insert))"

text \<open>A turn finds work if a lease has expired, or if, after the expired ones are released, a message is free and due.\<close>

definition finds_work :: "worker_env \<Rightarrow> db \<Rightarrow> bool" where
  "finds_work env d \<longleftrightarrow>
     (let s = we_settings env; m = OUTBOX_MAX_ATTEMPTS s in
      list_ex (expired (we_now env - timedelta (of_int (OUTBOX_CLAIM_TIMEOUT s)))) (outbox_messages d) \<or>
      claim_ids (we_locked env) (OUTBOX_BATCH_SIZE s) (we_now env) m
        (snd (release_expired_db (we_ts1 env) (we_now env) (OUTBOX_CLAIM_TIMEOUT s) m d)) \<noteq> [])"

fun always_finds_work :: "(worker_env \<times> datetime) list \<Rightarrow> int \<times> db \<Rightarrow> bool" where
  "always_finds_work [] st = True"
| "always_finds_work ((env, now) # envs) st \<longleftrightarrow>
     (some_unsettled (snd st) \<longrightarrow> finds_work env (snd st)) \<and>
     always_finds_work envs (snd (snd (outbox_cycle env now st)))"

section \<open>The parts of a turn\<close>

lemma claim_phase_runs:
  assumes "0 \<le> OUTBOX_BATCH_SIZE (we_settings env)"
  obtains em ms d1 where "transactional True (claim_body env) d = (Inr (em, ms), d1)" "publications em = 0"
proof -
  let ?s = "we_settings env"
  obtain dead freed d0 where rel: "release_expired_db (we_ts1 env) (we_now env) (OUTBOX_CLAIM_TIMEOUT ?s)
      (OUTBOX_MAX_ATTEMPTS ?s) d = ((dead, freed), d0)" by (metis surj_pair)
  obtain ms d1 where "claim_batch_db (we_locked env) (OUTBOX_BATCH_SIZE ?s) (we_now env) (we_worker_id env)
      (OUTBOX_MAX_ATTEMPTS ?s) d0 = Inr (ms, d1)"
    using assms by (simp add: claim_batch_db_def Let_def)
  then show thesis
    by (intro that [of "(if dead \<noteq> 0 then [OutboxClaimsReleased ''dead'' dead] else []) @
           (if freed \<noteq> 0 then [OutboxClaimsReleased ''pending'' freed] else [])" ms d1])
      (simp_all add: transactional_commit claim_body_def Let_def bind_act_def repo_on release_expired_claims_def
        claim_batch_def rel return_act_def)
qed

lemma mark_failures_metrics:
  "mark_failures env ms u = Inr (em, u') \<Longrightarrow> publications em = 0"
  by (induction ms arbitrary: u em u') (auto simp: Let_def res_simps split: if_splits)

lemma mark_phase_runs:
  obtains em where "transactional True (mark_body env published failed) d =
     (Inr em, fold (mark_failure env) failed
        (fold (\<lambda>i. mark_processed_db (we_ts2 env) i (we_worker_id env)) published d))" "publications em = 0"
proof -
  obtain em where run: "transactional True (mark_body env published failed) d =
     (Inr em, fold (mark_failure env) failed
        (fold (\<lambda>i. mark_processed_db (we_ts2 env) i (we_worker_id env)) published d))"
    using mark_phase by blast
  then have "publications em = 0"
    by (auto simp: transactional_Inr mark_body_def res_simps dest: mark_failures_metrics)
  with run show thesis by (rule that)
qed

lemma publish_metrics:
  assumes "mapM_res (publish_one env) ms = Inr rs"
  shows "publications (concat (map snd rs)) = length ms"
  using assms
proof (induction ms arbitrary: rs)
  case Nil
  then show ?case by simp
next
  case (Cons x ms)
  then obtain r rs' where r: "publish_one env x = Inr r" and rs: "mapM_res (publish_one env) ms = Inr rs'" "rs = r # rs'"
    by (auto simp: res_simps)
  from r have "publications (snd r) = 1" by (auto simp: publish_one_def split: sum.splits if_splits)
  with Cons.IH [OF rs(1)] rs(2) show ?case by simp
qed

text \<open>The marks and the sweep, as a history of the queue.\<close>

lemma marks_history:
  assumes m: "m = OUTBOX_MAX_ATTEMPTS (we_settings env)"
  shows "\<exists>h. fold (mark_failure env) failed (fold (\<lambda>i. mark_processed_db ts i (we_worker_id env)) published d) =
      fold (\<lambda>(a, f). f) h d \<and> (\<forall>(a, f) \<in> set h. f \<in> outbox_ops m a \<and> a \<noteq> Insert)"
proof (intro exI conjI)
  let ?h = "map (\<lambda>i. (Ack (we_worker_id env), mark_processed_db ts i (we_worker_id env))) published @
    map (\<lambda>x. (Nack (we_worker_id env), mark_failure env x)) failed"
  show "fold (mark_failure env) failed (fold (\<lambda>i. mark_processed_db ts i (we_worker_id env)) published d) =
      fold (\<lambda>(a, f). f) ?h d" by (simp add: fold_map comp_def)
  show "\<forall>(a, f) \<in> set ?h. f \<in> outbox_ops m a \<and> a \<noteq> Insert" 
    unfolding m by (auto simp: mark_failure_def) blast+
qed

lemma sweep_history:
  assumes m: "m = OUTBOX_MAX_ATTEMPTS (we_settings env)"
  shows "\<exists>h d2. worker_purge env now d = (Inr (), d2) \<and> d2 = fold (\<lambda>(a, f). f) h d \<and>
      (\<forall>(a, f) \<in> set h. f \<in> outbox_ops m a \<and> a \<noteq> Insert)"
proof -
  let ?h = "[(Reap, reap_exhausted_db (we_ts2 env) m),
    (Purge, purge_processed_db (now - timedelta (of_int (OUTBOX_RETENTION_SECONDS (we_settings env)))))]"
  have "worker_purge env now d = (Inr (), fold (\<lambda>(a, f). f) ?h d)"
    by (simp add: worker_purge_def purge_body_def Let_def transactional_commit bind_act_def repo_on reap_exhausted_def
        purge_processed_def m)
  moreover have "\<forall>(a, f) \<in> set ?h. f \<in> outbox_ops m a \<and> a \<noteq> Insert" by auto
  ultimately show ?thesis by blast
qed

text \<open>The totals along a step and a history of the table.\<close>

lemma leases_left_history:
  assumes "outbox_ok m d" "\<forall>(a, f) \<in> set h. f \<in> outbox_ops m a \<and> a \<noteq> Insert"
  shows "outbox_ok m (fold (\<lambda>(a, f). f) h d)"
    and "outbox_total (leases_left m) (fold (\<lambda>(a, f). f) h d) \<le> outbox_total (leases_left m) d"
    and "outbox_total (steps_left m) (fold (\<lambda>(a, f). f) h d) \<le> outbox_total (steps_left m) d"
proof -
  have h: "\<forall>(a, f) \<in> set h. f \<in> outbox_ops m a" "\<forall>(a, f) \<in> set h. a \<noteq> Insert" using assms(2) by auto
  show ok: "outbox_ok m (fold (\<lambda>(a, f). f) h d)" by (rule ob.history_ok [OF h(1) assms(1)])
  show "outbox_total (leases_left m) (fold (\<lambda>(a, f). f) h d) \<le> outbox_total (leases_left m) d"
    unfolding outbox_total_view [OF ok] outbox_total_view [OF assms(1)]
    by (rule fq.total_history [OF h(1) assms(1) h(2)]) (auto dest: leases_left_step)
  show "outbox_total (steps_left m) (fold (\<lambda>(a, f). f) h d) \<le> outbox_total (steps_left m) d"
    unfolding outbox_total_view [OF ok] outbox_total_view [OF assms(1)]
    by (rule fq.total_history [OF h(1) assms(1) h(2)]) (auto dest: steps_left_step)
qed

lemma moved_step:
  assumes f: "f \<in> outbox_ops m a" "outbox_ok m d" and a: "a \<noteq> Insert" "a \<noteq> Purge"
    and moved: "\<forall>i \<in> I. outbox_view i d \<noteq> None \<and> outbox_view i (f d) \<noteq> outbox_view i d"
  shows "outbox_total (steps_left m) (f d) + card I \<le> outbox_total (steps_left m) d"
    and "(\<exists>w. a = Claim w) \<Longrightarrow> outbox_total (leases_left m) (f d) + card I \<le> outbox_total (leases_left m) d"
proof -
  let ?M = "{i \<in> outbox_ids d. outbox_view i (f d) \<noteq> outbox_view i d}"
  have ok: "outbox_ok m (f d)" by (rule ob.keeps_ok [OF f])
  have "I \<subseteq> ?M" using moved by (auto simp: fq.ids_view)
  then have card: "card I \<le> card ?M" by (rule card_mono [rotated]) simp
  have "outbox_total (steps_left m) (f d) + 1 * card ?M \<le> outbox_total (steps_left m) d"
    unfolding outbox_total_view [OF ok] outbox_total_view [OF f(2)]
    by (rule fq.total_step [OF f a(1)]) (use steps_left_step a(2) in fastforce)
  with card show "outbox_total (steps_left m) (f d) + card I \<le> outbox_total (steps_left m) d" by linarith
  assume claim: "\<exists>w. a = Claim w"
  have "outbox_total (leases_left m) (f d) + 1 * card ?M \<le> outbox_total (leases_left m) d"
    unfolding outbox_total_view [OF ok] outbox_total_view [OF f(2)]
    by (rule fq.total_step [OF f a(1)]) (use leases_left_step claim in fastforce)
  with card show "outbox_total (leases_left m) (f d) + card I \<le> outbox_total (leases_left m) d" by linarith
qed

section \<open>The first transaction lowers the measures\<close>

lemma release_lowers:
  assumes ok: "outbox_ok m d" and d0: "d0 = snd (release_expired_db ts now timeout m d)"
  shows "outbox_ok m d0" and "outbox_total (leases_left m) d0 \<le> outbox_total (leases_left m) d"
    and "outbox_total (steps_left m) d0 +
      (if list_ex (expired (now - timedelta (of_int timeout))) (outbox_messages d) then 1 else 0) \<le> outbox_total (steps_left m) d"
proof -
  let ?f = "\<lambda>d. snd (release_expired_db ts now timeout m d)"
  let ?cut = "now - timedelta (of_int timeout)"
  have f: "?f \<in> outbox_ops m Expire" by auto
  show "outbox_ok m d0" unfolding d0 by (rule release_expired_ok [OF ok])
  show "outbox_total (leases_left m) d0 \<le> outbox_total (leases_left m) d"
    using leases_left_history(2) [OF ok, of "[(Expire, ?f)]"] f by (simp add: d0)
  show "outbox_total (steps_left m) d0 + (if list_ex (expired ?cut) (outbox_messages d) then 1 else 0)
      \<le> outbox_total (steps_left m) d"
  proof (cases "list_ex (expired ?cut) (outbox_messages d)")
    case False
    then show ?thesis using leases_left_history(3) [OF ok, of "[(Expire, ?f)]"] f by (simp add: d0)
  next
    case True
    then obtain r where r: "r \<in> set (outbox_messages d)" "expired ?cut r" by (auto simp: list_ex_iff)
    have row: "row_by ob_id (ob_id r) (outbox_messages d) = Some r"
      using ok by (intro row_by_unique [OF _ r(1)]) (simp add: outbox_ok_def)
    from ok r(1) have "outbox_row_ok m r" by (simp add: outbox_ok_def)
    with r(2) row have "outbox_view (ob_id r) d \<noteq> None \<and> outbox_view (ob_id r) (?f d) \<noteq> outbox_view (ob_id r) d"
      by (auto simp: release_expired_eq outbox_view_def update_outbox_def row_by_update_where to_dead_def to_pending_def
          lease_of_def outbox_row_ok_def expired_def split: option.splits)
    from moved_step(1) [OF f ok, of "{ob_id r}"] this True show ?thesis by (simp add: d0)
  qed
qed

lemma claim_lowers:
  assumes ok: "outbox_ok m d" and run: "claim_batch_db locked limit now w m d = Inr (ms, d')"
  shows "outbox_ok m d'" and "outbox_total (leases_left m) d' + length ms \<le> outbox_total (leases_left m) d"
    and "outbox_total (steps_left m) d' + length ms \<le> outbox_total (steps_left m) d"
    and "claim_ids locked limit now m d \<noteq> [] \<Longrightarrow> ms \<noteq> []"
proof -
  note A = claim_batch_Inr [OF assms] and V = claim_batch_view [OF assms]
  show "outbox_ok m d'" by (rule V(1))
  let ?f = "claim_op locked limit now w m"
  have f: "?f \<in> outbox_ops m (Claim w)" by auto
  have moved: "\<forall>i \<in> om_id ` set ms. outbox_view i d \<noteq> None \<and> outbox_view i (?f d) \<noteq> outbox_view i d"
  proof
    fix i assume "i \<in> om_id ` set ms"
    then obtain x where x: "x \<in> set ms" "i = om_id x" by blast
    from A(3) [OF x(1)] obtain r where r: "r \<in> set (outbox_messages d)" "claimable now m r"
      "x = outbox_to_domain (to_claimed now w r)" by blast
    then have "i = ob_id r" by (simp add: x(2) outbox_to_domain_def to_claimed_def)
    moreover have "row_by ob_id (ob_id r) (outbox_messages d) = Some r"
      using ok by (intro row_by_unique [OF _ r(1)]) (simp add: outbox_ok_def)
    moreover have "outbox_row_ok m r" using ok r(1) by (simp add: outbox_ok_def)
    ultimately have "outbox_view i d = Some (Waiting (ob_attempts r))"
      using r(2) by (auto simp: outbox_view_def lease_of_def claimable_def outbox_row_ok_def split: option.splits)
    with V(3) [OF x(1)] show "outbox_view i d \<noteq> None \<and> outbox_view i (?f d) \<noteq> outbox_view i d"
      by (simp add: x(2) A(2))
  qed
  have card: "card (om_id ` set ms) = length ms" using V(2) by (metis distinct_card length_map list.set_map)
  show "outbox_total (leases_left m) d' + length ms \<le> outbox_total (leases_left m) d"
    "outbox_total (steps_left m) d' + length ms \<le> outbox_total (steps_left m) d"
    using moved_step [OF f ok _ _ moved] by (simp_all add: card A(2))
  show "ms \<noteq> []" if free: "claim_ids locked limit now m d \<noteq> []"
  proof -
    have i: "hd (claim_ids locked limit now m d) \<in> set (claim_ids locked limit now m d)" (is "?i \<in> _")
      using free by simp
    then have "?i \<in> ob_id ` set (outbox_messages d)"
      unfolding claim_ids_def by (auto dest!: in_set_takeD)
    then obtain r where r: "r \<in> set (outbox_messages d)" "ob_id r \<in> set (claim_ids locked limit now m d)"
      using i by (elim imageE) simp
    then have "to_claimed now w r \<in> set (outbox_messages d')"
      using A(1) by (auto simp: A(2) claim_op_eq update_outbox_def set_update_where)
    moreover have "ob_id (to_claimed now w r) = ob_id r" by (simp add: to_claimed_def)
    moreover have "ms = map outbox_to_domain
        (filter (\<lambda>r. ob_id r \<in> set (claim_ids locked limit now m d)) (outbox_messages d'))"
      using run A(1) by (auto simp: claim_batch_db_def Let_def)
    ultimately show ?thesis using r(2) by (simp add: filter_empty_conv) metis
  qed
qed

section \<open>A turn lowers the measures\<close>

lemma publish_batch_progress:
  assumes ok: "outbox_ok m d" and good: "good_worker m env" and others: "other_workers m (we_others env)"
  obtains em d' where "publish_batch env d = (Inr (), em, d')" "outbox_ok m d'"
    "outbox_total (leases_left m) d' + publications em \<le> outbox_total (leases_left m) d"
    "outbox_total (steps_left m) d' + (if finds_work env d then 1 else 0) \<le> outbox_total (steps_left m) d"
proof -
  let ?s = "we_settings env"
  from good have m: "OUTBOX_MAX_ATTEMPTS ?s = m" and batch: "0 \<le> OUTBOX_BATCH_SIZE ?s" by (simp_all add: good_worker_def)
  obtain em0 ms d1 where claim: "transactional True (claim_body env) d = (Inr (em0, ms), d1)" "publications em0 = 0"
    by (rule claim_phase_runs [OF batch])
  define d0 where "d0 = snd (release_expired_db (we_ts1 env) (we_now env) (OUTBOX_CLAIM_TIMEOUT ?s) m d)"
  note R = release_lowers [OF ok d0_def]
  have "claim_batch_db (we_locked env) (OUTBOX_BATCH_SIZE ?s) (we_now env) (we_worker_id env) m d0 = Inr (ms, d1)"
    using claim_phase [OF claim(1)] by (simp add: m d0_def)
  note C = claim_lowers [OF R(1) this]
  have work: "outbox_total (steps_left m) d1 + (if finds_work env d then 1 else 0) \<le> outbox_total (steps_left m) d"
    using R(3) C(3,4) by (auto simp: finds_work_def Let_def m simp flip: d0_def split: if_splits) (cases ms; simp)+
  show thesis
  proof (cases "ms = []")
    case True
    with claim R(2) C(1,2) work show thesis by (intro that [of em0 d1]) (simp_all add: publish_batch_def)
  next
    case False
    from others obtain h where h: "we_others env = fold (\<lambda>(a, f). f) h"
      "\<forall>(a, f) \<in> set h. f \<in> outbox_ops m a \<and> a \<noteq> Insert" by (auto simp: other_workers_def)
    note O = leases_left_history [OF C(1) h(2)]
    have "\<And>x. x \<in> set ms \<Longrightarrow> we_publish env x \<noteq> Inl CancelledError" using good by (simp add: good_worker_def)
    then obtain rs where rs: "publish_all env ms = Inr rs"
      using publish_all_results [of ms env "()"] good by (force simp: good_worker_def is_ok_iff)
    have "publications (concat (map snd rs)) = length ms"
      using rs by (intro publish_metrics [of env ms]) (auto simp: publish_all_def split: sum.splits if_splits)
    moreover define failed where "failed = List.map_filter fst rs"
    moreover define published where "published = map om_id (filter (\<lambda>m. om_id m \<notin> om_id ` set failed) ms)"
    moreover define d2 where "d2 = we_others env d1"
    moreover obtain em3 where mark: "transactional True (mark_body env published failed) d2 =
        (Inr em3, fold (mark_failure env) failed
          (fold (\<lambda>i. mark_processed_db (we_ts2 env) i (we_worker_id env)) published d2))" "publications em3 = 0"
      by (rule mark_phase_runs)
    moreover obtain h' where h': "fold (mark_failure env) failed
          (fold (\<lambda>i. mark_processed_db (we_ts2 env) i (we_worker_id env)) published d2) = fold (\<lambda>(a, f). f) h' d2"
        "\<forall>(a, f) \<in> set h'. f \<in> outbox_ops m a \<and> a \<noteq> Insert" using marks_history [OF m [symmetric]] by blast
    ultimately have run: "publish_batch env d = (Inr (), (em0 @ [OutboxLag (of_int (we_now env - oldest ms) / 1000000)] @
        concat (map snd rs)) @ em3, fold (\<lambda>(a, f). f) h' d2)" (is "_ = (_, ?em, ?d3)")
      and n: "publications (concat (map snd rs)) = length ms"
      using claim(1) False rs by (simp_all add: publish_batch_def Let_def)
    have "outbox_ok m d2" using O(1) by (simp add: d2_def h(1))
    note F = leases_left_history [OF this h'(2)]
    show thesis
    proof (rule that [OF run F(1)])
      show "outbox_total (leases_left m) ?d3 + publications ?em \<le> outbox_total (leases_left m) d"
        using F(2) O(2) C(2) R(2) by (simp add: n claim(2) mark(2) d2_def h(1))
      show "outbox_total (steps_left m) ?d3 + (if finds_work env d then 1 else 0) \<le> outbox_total (steps_left m) d"
        using F(3) O(3) work by (simp add: d2_def h(1))
    qed
  qed
qed

lemma outbox_cycle_progress:
  assumes ok: "outbox_ok m d" and good: "good_worker m env" and others: "other_workers m (we_others env)"
  obtains em d' where "outbox_cycle env now (c, d) = (Inr (), em, c + 1, d')" "outbox_ok m d'"
    "outbox_total (leases_left m) d' + publications em \<le> outbox_total (leases_left m) d"
    "outbox_total (steps_left m) d' + (if finds_work env d then 1 else 0) \<le> outbox_total (steps_left m) d"
proof -
  obtain em d1 where run: "publish_batch env d = (Inr (), em, d1)" "outbox_ok m d1"
    "outbox_total (leases_left m) d1 + publications em \<le> outbox_total (leases_left m) d"
    "outbox_total (steps_left m) d1 + (if finds_work env d then 1 else 0) \<le> outbox_total (steps_left m) d"
    by (rule publish_batch_progress [OF assms])
  from good have m: "m = OUTBOX_MAX_ATTEMPTS (we_settings env)" and every: "OUTBOX_PURGE_INTERVAL (we_settings env) \<noteq> 0"
    by (simp_all add: good_worker_def)
  from sweep_history [OF m] obtain h d2 where sweep: "worker_purge env now d1 = (Inr (), d2)"
    "d2 = fold (\<lambda>(a, f). f) h d1" "\<forall>(a, f) \<in> set h. f \<in> outbox_ops m a \<and> a \<noteq> Insert" by blast
  note S = leases_left_history [OF run(2) sweep(3), folded sweep(2)]
  let ?em = "WorkerCycles ''outbox'' # em"
  show thesis
  proof (cases "(c + 1) mod OUTBOX_PURGE_INTERVAL (we_settings env) = 0")
    case True
    show thesis
      by (rule that [of ?em d2]) (use True run S every in \<open>simp_all add: outbox_cycle_def swallow_def Let_def sweep(1)\<close>)
  next
    case False
    show thesis
      by (rule that [of ?em d1]) (use False run every in \<open>simp_all add: outbox_cycle_def swallow_def Let_def\<close>)
  qed
qed

lemma outbox_loop_settles:
  assumes "outbox_ok m d" and "\<forall>(env, now) \<in> set envs. good_worker m env \<and> other_workers m (we_others env)"
  shows "\<exists>em d'. outbox_loop envs (c, d) = (Inr (), em, c + int (length envs), d') \<and>
    publications em \<le> outbox_total (leases_left m) d \<and>
    (always_finds_work envs (c, d) \<and> outbox_total (steps_left m) d \<le> length envs \<longrightarrow> \<not> some_unsettled d')"
  using assms
proof (induction envs arbitrary: c d)
  case Nil
  then show ?case by (simp add: steps_left_0)
next
  case (Cons x envs)
  obtain env now where x: "x = (env, now)" by (cases x)
  with Cons.prems have good: "good_worker m env" "other_workers m (we_others env)" by auto
  obtain em d1 where run: "outbox_cycle env now (c, d) = (Inr (), em, c + 1, d1)" "outbox_ok m d1"
    "outbox_total (leases_left m) d1 + publications em \<le> outbox_total (leases_left m) d"
    "outbox_total (steps_left m) d1 + (if finds_work env d then 1 else 0) \<le> outbox_total (steps_left m) d"
    by (rule outbox_cycle_progress [OF Cons.prems(1) good])
  from Cons.IH [OF run(2)] Cons.prems(2) obtain em' d2 where
    loop: "outbox_loop envs (c + 1, d1) = (Inr (), em', c + 1 + int (length envs), d2)"
    and p: "publications em' \<le> outbox_total (leases_left m) d1"
    and fin: "always_finds_work envs (c + 1, d1) \<and> outbox_total (steps_left m) d1 \<le> length envs \<longrightarrow> \<not> some_unsettled d2"
    by fastforce
  have "\<not> some_unsettled d2"
    if t: "always_finds_work (x # envs) (c, d)" "outbox_total (steps_left m) d \<le> length (x # envs)"
  proof -
    have "outbox_total (steps_left m) d1 \<le> length envs"
      using t run(4) steps_left_0 [OF Cons.prems(1)] by (cases "some_unsettled d") (auto simp: x)
    with fin t(1) show ?thesis by (simp add: x run(1))
  qed
  with p run(3) show ?case by (simp add: x run(1) loop)
qed

section \<open>A broker that accepts everything\<close>

definition accepting :: "worker_env \<Rightarrow> bool" where
  "accepting env \<longleftrightarrow> we_others env = id \<and> (\<forall>x. is_ok (we_publish env x))"

lemma accepting_others: "accepting env \<Longrightarrow> other_workers m (we_others env)"
  by (auto simp: other_workers_def accepting_def intro: exI [of _ "[]"])

text \<open>
  A message that has a lease left, or is published already: it waits, or a worker that may have
  stopped holds it, but not for the last allowed time.
\<close>

fun can_publish :: "int \<Rightarrow> lease option \<Rightarrow> bool" where
  "can_publish m (Some (Waiting n)) \<longleftrightarrow> n < m"
| "can_publish m (Some (Leased w n)) \<longleftrightarrow> n < m"
| "can_publish m (Some Published) \<longleftrightarrow> True"
| "can_publish m (Some Dead) \<longleftrightarrow> False"
| "can_publish m None \<longleftrightarrow> True"

lemma can_publish_step:
  "lease_step m a l l' \<Longrightarrow> a \<in> {Expire, Reap, Purge} \<Longrightarrow> can_publish m l \<Longrightarrow> can_publish m l'"
  by (erule lease_step.cases) auto

lemma can_publish_op:
  assumes "f \<in> outbox_ops m a" "outbox_ok m d" "a \<in> {Expire, Reap, Purge}" "can_publish m (outbox_view i d)"
  shows "can_publish m (outbox_view i (f d))"
  using ob.refines [OF assms(1,2), of i] can_publish_step [OF _ assms(3,4)] assms(4) by auto

lemma claim_others:
  assumes "outbox_ok m d" "claim_batch_db locked limit now w m d = Inr (ms, d')" and i: "i \<notin> om_id ` set ms"
  shows "outbox_view i d' = outbox_view i d"
proof -
  note A = claim_batch_Inr [OF assms(1,2)]
  let ?ids = "set (claim_ids locked limit now m d)"
  have "i \<notin> ?ids" if row: "row_by ob_id i (outbox_messages d) = Some r" for r
  proof
    assume "i \<in> ?ids"
    with row_by_SomeD [OF row] have r: "r \<in> set (outbox_messages d)" "ob_id r \<in> ?ids" "ob_id r = i" by simp_all
    then have "to_claimed now w r \<in> set (outbox_messages d')"
      using A(1) by (auto simp: A(2) claim_op_eq update_outbox_def set_update_where)
    moreover have "ob_id (to_claimed now w r) = i" using r(3) by (simp add: to_claimed_def)
    moreover have "ms = map outbox_to_domain (filter (\<lambda>r. ob_id r \<in> ?ids) (outbox_messages d'))"
      using assms(2) A(1) by (auto simp: claim_batch_db_def Let_def)
    ultimately have "i \<in> om_id ` set ms" using r by (force simp: outbox_to_domain_def)
    with i show False ..
  qed
  with A(1) show ?thesis
    by (cases "row_by ob_id i (outbox_messages d)")
      (auto simp: A(2) claim_op_eq outbox_view_def update_outbox_def row_by_update_where to_claimed_def dest: row_by_SomeD)
qed

lemma sweep_can_publish:
  assumes ok: "outbox_ok m d" and "m = OUTBOX_MAX_ATTEMPTS (we_settings env)" and can: "can_publish m (outbox_view i d)"
    and run: "worker_purge env now d = (r, d')"
  shows "can_publish m (outbox_view i d')"
proof -
  let ?cut = "now - timedelta (of_int (OUTBOX_RETENTION_SECONDS (we_settings env)))"
  have d': "d' = purge_processed_db ?cut (reap_exhausted_db (we_ts2 env) m d)"
    using run assms(2) by (simp add: worker_purge_def purge_body_def Let_def transactional_commit bind_act_def repo_on
        reap_exhausted_def purge_processed_def)
  have reap: "reap_exhausted_db (we_ts2 env) m \<in> outbox_ops m Reap" and purge: "purge_processed_db ?cut \<in> outbox_ops m Purge"
    by auto
  show ?thesis unfolding d'
    using can_publish_op [OF purge ob.keeps_ok [OF reap ok] _ can_publish_op [OF reap ok _ can]] by simp
qed

lemma publish_batch_can_publish:
  assumes ok: "outbox_ok m d" and good: "good_worker m env" and acc: "accepting env"
    and can: "can_publish m (outbox_view i d)" and run: "publish_batch env d = (r, em, d')"
  shows "can_publish m (outbox_view i d')"
proof -
  let ?s = "we_settings env"
  from good have m: "OUTBOX_MAX_ATTEMPTS ?s = m" and batch: "0 \<le> OUTBOX_BATCH_SIZE ?s"
    and ready: "we_exchange_type env (RABBITMQ_EXCHANGE_TYPE ?s) = Inr ()" "0 < OUTBOX_PUBLISH_CONCURRENCY ?s"
    by (simp_all add: good_worker_def is_ok_iff)
  from acc have others: "we_others env = fold (\<lambda>(a, f). f) []" and pub: "\<And>x. is_ok (we_publish env x)"
    by (auto simp: accepting_def)
  obtain em0 ms d1 where claim: "transactional True (claim_body env) d = (Inr (em0, ms), d1)"
    by (rule claim_phase_runs [OF batch])
  define d0 where "d0 = snd (release_expired_db (we_ts1 env) (we_now env) (OUTBOX_CLAIM_TIMEOUT ?s) m d)"
  have db: "claim_batch_db (we_locked env) (OUTBOX_BATCH_SIZE ?s) (we_now env) (we_worker_id env) m d0 = Inr (ms, d1)"
    using claim_phase [OF claim] by (simp add: m d0_def)
  have "(\<lambda>d. snd (release_expired_db (we_ts1 env) (we_now env) (OUTBOX_CLAIM_TIMEOUT ?s) m d)) \<in> outbox_ops m Expire" by auto
  from can_publish_op [OF this ok _ can] have can0: "can_publish m (outbox_view i d0)" by (simp add: d0_def)
  have ok0: "outbox_ok m d0" unfolding d0_def by (rule release_expired_ok [OF ok])
  have can1: "can_publish m (outbox_view i d1)" if "i \<notin> om_id ` set ms"
    using claim_others [OF ok0 db that] can0 by simp
  show ?thesis
  proof (cases "ms = []")
    case True
    then have "d' = d1" using run claim by (simp add: publish_batch_def)
    with True can1 show ?thesis by simp
  next
    case False
    have cancelled: "\<forall>x \<in> set ms. we_publish env x \<noteq> Inl CancelledError" using pub by (metis is_ok_iff sum.distinct(1))
    from batch_recorded [OF claim _ others _ ready cancelled run False] ok pub
    have "\<forall>x \<in> set ms. outbox_view (om_id x) d' = Some Published"
      "\<forall>i. i \<notin> om_id ` set ms \<longrightarrow> outbox_view i d' = outbox_view i d1" by (simp_all add: m)
    then show ?thesis using can1 by (cases "i \<in> om_id ` set ms") auto
  qed
qed

lemma outbox_cycle_can_publish:
  assumes ok: "outbox_ok m d" and good: "good_worker m env" "accepting env" and can: "can_publish m (outbox_view i d)"
    and run: "outbox_cycle env now (c, d) = (Inr (), em, c', d')"
  shows "can_publish m (outbox_view i d')"
proof -
  obtain em' d1 where batch: "publish_batch env d = (Inr (), em', d1)" "outbox_ok m d1"
    by (rule publish_batch_progress [OF ok good(1) accepting_others [OF good(2)]])
  note can1 = publish_batch_can_publish [OF ok good can batch(1)]
  have "d' = d1 \<or> (\<exists>r. worker_purge env now d1 = (r, d'))"
    using run by (auto simp: outbox_cycle_def batch(1) swallow_def Let_def split: if_splits prod.splits)
  with can1 sweep_can_publish [OF batch(2) _ can1] good(1) show ?thesis by (auto simp: good_worker_def)
qed

lemma outbox_loop_can_publish:
  assumes "outbox_ok m d" "can_publish m (outbox_view i d)" and "\<forall>(env, now) \<in> set envs. good_worker m env \<and> accepting env"
  shows "can_publish m (outbox_view i (snd (snd (snd (outbox_loop envs (c, d))))))"
  using assms
proof (induction envs arbitrary: c d)
  case Nil
  then show ?case by simp
next
  case (Cons x envs)
  obtain env now where x: "x = (env, now)" by (cases x)
  with Cons.prems have good: "good_worker m env" "accepting env" by auto
  obtain em d1 where run: "outbox_cycle env now (c, d) = (Inr (), em, c + 1, d1)" "outbox_ok m d1"
    by (rule outbox_cycle_progress [OF Cons.prems(1) good(1) accepting_others [OF good(2)]])
  have "can_publish m (outbox_view i d1)" by (rule outbox_cycle_can_publish [OF Cons.prems(1) good Cons.prems(2) run(1)])
  with Cons.IH [OF run(2), of "c + 1"] Cons.prems(3) show ?case by (simp add: x run(1) split_beta Let_def)
qed

lemma outbox_loop_ok:
  assumes "outbox_ok m d" and "\<forall>(env, now) \<in> set envs. good_worker m env \<and> other_workers m (we_others env)"
  shows "outbox_ok m (snd (snd (snd (outbox_loop envs (c, d)))))"
  using assms
proof (induction envs arbitrary: c d)
  case (Cons x envs)
  obtain env now where x: "x = (env, now)" by (cases x)
  with Cons.prems have good: "good_worker m env" "other_workers m (we_others env)" by auto
  obtain em d1 where "outbox_cycle env now (c, d) = (Inr (), em, c + 1, d1)" "outbox_ok m d1"
    by (rule outbox_cycle_progress [OF Cons.prems(1) good])
  with Cons.IH [of d1 "c + 1"] Cons.prems(2) show ?case by (simp add: x split_beta Let_def)
qed simp

lemma settled_published:
  assumes ok: "outbox_ok m d" and "\<not> some_unsettled d" and r: "r \<in> set (outbox_messages d)"
    and can: "can_publish m (outbox_view (ob_id r) d)"
  shows "ob_status r = ''processed''"
proof -
  have row: "row_by ob_id (ob_id r) (outbox_messages d) = Some r" "outbox_row_ok m r"
    using ok r by (auto simp: outbox_ok_def intro: row_by_unique)
  have "ob_status r \<notin> {''pending'', ''processing''}" using assms(2) r by (auto simp: some_unsettled_def list_ex_iff)
  with row can show ?thesis by (auto simp: outbox_view_def lease_of_def outbox_row_ok_def)
qed

text \<open>
  Property C22. The outbox drains. From every reachable state of the tables, while other workers do
  with the messages whatever the repository offers and the broker answers, accepting or refusing,
  the loop never fails; it publishes at most as often as the messages have leases left, however long
  it runs; and once there were as many turns as the messages have steps left, each of which found
  work while any message was unsettled, every message is published or dead. If then the broker has
  accepted everything and the worker was alone, every message still in the table that had a lease
  left when the loop began (it was waiting, or leased by a worker but not for the last allowed time)
  is published: only messages that were dead at the start, or on their last lease, can be dead.
\<close>

theorem outbox_drains:
  assumes "0 < m" and "service_run m purges empty_db d"
    and "\<forall>(env, now) \<in> set envs. good_worker m env \<and> other_workers m (we_others env)"
  shows "\<exists>em d'. outbox_loop envs (c, d) = (Inr (), em, c + int (length envs), d') \<and>
    publications em \<le> outbox_total (leases_left m) d \<and>
    (always_finds_work envs (c, d) \<and> outbox_total (steps_left m) d \<le> length envs \<longrightarrow>
       \<not> some_unsettled d' \<and>
       ((\<forall>(env, now) \<in> set envs. accepting env) \<longrightarrow>
          (\<forall>r \<in> set (outbox_messages d'). can_publish m (outbox_view (ob_id r) d) \<longrightarrow> ob_status r = ''processed'')))"
proof -
  have ok: "outbox_ok m d"
    using service_run_ok [OF assms(2)] system_ok_empty [OF assms(1)] by (simp add: system_ok_def)
  obtain em d' where run: "outbox_loop envs (c, d) = (Inr (), em, c + int (length envs), d')"
    and facts: "publications em \<le> outbox_total (leases_left m) d"
      "always_finds_work envs (c, d) \<and> outbox_total (steps_left m) d \<le> length envs \<longrightarrow> \<not> some_unsettled d'"
    using outbox_loop_settles [OF ok assms(3)] by blast
  have ok': "outbox_ok m d'" using outbox_loop_ok [OF ok assms(3), of c] run by simp
  have can: "can_publish m (outbox_view i d')" if "can_publish m (outbox_view i d)" "\<forall>(env, now) \<in> set envs. accepting env" for i
    using outbox_loop_can_publish [OF ok that(1), of envs c] that(2) assms(3) run by auto
  show ?thesis using run facts settled_published [OF ok'] can by blast
qed

definition demo_publisher :: worker_env where
  "demo_publisher = demo_worker\<lparr>we_settings := default_settings ''u'' ''p'' ''d''\<lparr>OUTBOX_MAX_ATTEMPTS := 1\<rparr>,
     we_publish := \<lambda>_. Inr ()\<rparr>"

lemma demo_publisher_good: "good_worker 1 demo_publisher" "other_workers 1 (we_others demo_publisher)" "accepting demo_publisher"
  by (auto simp: good_worker_def demo_publisher_def demo_worker_def default_settings_def accepting_def other_workers_def
      intro: exI [of _ "[]"])

lemma demo_message_waits:
  obtains x where "outbox_messages demo_db = [x]" "ob_status x = ''pending''" "ob_attempts x = 0"
    "ob_processed_at x = None" "ob_next_retry_at x = None" "ob_claimed_by x = None"
  using demo_outbox_check
  by (simp add: demo_db_def create_payment_checked [OF demo_values refl] demo_row_check)
    (simp add: created_row_def outbox_row_of_def)

definition all_can_publish :: "int \<Rightarrow> db \<Rightarrow> bool" where
  "all_can_publish m d \<longleftrightarrow> (\<forall>i. can_publish m (outbox_view i d))"

lemma few_steps_settled:
  assumes ok: "outbox_ok m d" and can: "all_can_publish m d" and "outbox_total (steps_left m) d \<le> 2"
  shows "\<not> some_unsettled d"
proof
  assume "some_unsettled d"
  then obtain r where r: "r \<in> set (outbox_messages d)" "ob_status r \<in> {''pending'', ''processing''}"
    by (auto simp: some_unsettled_def list_ex_iff)
  have "row_by ob_id (ob_id r) (outbox_messages d) = Some r" "outbox_row_ok m r"
    using ok r by (auto simp: outbox_ok_def intro: row_by_unique)
  with r(2) can [unfolded all_can_publish_def, rule_format, of "ob_id r"] have "3 \<le> steps_left m (lease_of r)"
    by (cases "ob_claimed_by r") (auto simp: outbox_row_ok_def lease_of_def outbox_view_def)
  also have "\<dots> \<le> outbox_total (steps_left m) d"
    unfolding outbox_total_def using r(1) by (intro member_le_sum_list) auto
  finally show False using assms(3) by simp
qed

lemma few_steps_find_work:
  assumes "outbox_ok m d" "all_can_publish m d" "outbox_total (steps_left m) d \<le> 2"
    and "\<forall>(env, now) \<in> set envs. good_worker m env \<and> accepting env"
  shows "always_finds_work envs (c, d)"
  using assms
proof (induction envs arbitrary: c d)
  case Nil
  then show ?case by simp
next
  case (Cons x envs)
  obtain env now where x: "x = (env, now)" by (cases x)
  with Cons.prems have good: "good_worker m env" "accepting env" by auto
  obtain em d1 where run: "outbox_cycle env now (c, d) = (Inr (), em, c + 1, d1)" "outbox_ok m d1"
    "outbox_total (steps_left m) d1 + (if finds_work env d then 1 else 0) \<le> outbox_total (steps_left m) d"
    by (rule outbox_cycle_progress [OF Cons.prems(1) good(1) accepting_others [OF good(2)]])
  have "all_can_publish m d1" using outbox_cycle_can_publish [OF Cons.prems(1) good _ run(1)] Cons.prems(2)
    by (simp add: all_can_publish_def)
  with Cons.IH [OF run(2)] Cons.prems run(3) few_steps_settled [OF Cons.prems(1-3)] show ?case
    by (simp add: x run(1))
qed

theorem outbox_drains_witness:
  "\<exists>em d'. some_unsettled demo_db \<and>
     outbox_loop (replicate 3 (demo_publisher, 500000000)) (0, demo_db) = (Inr (), em, 3, d') \<and>
     publications em \<le> 1 \<and> list_all (\<lambda>r. ob_status r = ''processed'') (outbox_messages d')"
proof -
  obtain x where x: "outbox_messages demo_db = [x]" "ob_status x = ''pending''" "ob_attempts x = 0"
    "ob_processed_at x = None" "ob_next_retry_at x = None" "ob_claimed_by x = None" by (rule demo_message_waits)
  have ok: "outbox_ok 1 demo_db"
    using service_run_ok [OF demo_runs(1)] system_ok_empty [of 1] by (simp add: system_ok_def)
  have uns: "some_unsettled demo_db" by (simp add: some_unsettled_def x)
  have can: "all_can_publish 1 demo_db" by (simp add: all_can_publish_def outbox_view_def lease_of_def x)
  have total: "outbox_total (steps_left 1) demo_db = 3" "outbox_total (leases_left 1) demo_db = 1"
    by (simp_all add: outbox_total_def lease_of_def x)
  have released: "snd (release_expired_db ts now timeout 1 demo_db) = demo_db" for ts now timeout
    by (simp add: release_expired_eq update_outbox_def update_where_def expired_def x)
  have work: "finds_work demo_publisher demo_db"
    unfolding finds_work_def Let_def
    by (simp add: released claim_ids_def claimable_def x demo_publisher_def demo_worker_def default_settings_def)
  let ?x = "(demo_publisher, 500000000 :: datetime)"
  obtain em d1 where run: "outbox_cycle demo_publisher 500000000 (0, demo_db) = (Inr (), em, 0 + 1, d1)" "outbox_ok 1 d1"
    "outbox_total (steps_left 1) d1 + (if finds_work demo_publisher demo_db then 1 else 0) \<le> outbox_total (steps_left 1) demo_db"
    by (rule outbox_cycle_progress [OF ok demo_publisher_good(1,2)])
  have "all_can_publish 1 d1" using outbox_cycle_can_publish [OF ok demo_publisher_good(1,3) _ run(1)] can
    by (simp add: all_can_publish_def)
  then have "always_finds_work [?x, ?x] (0 + 1, d1)"
    using run(2,3) work total demo_publisher_good by (intro few_steps_find_work) auto
  then have "always_finds_work (replicate 3 ?x) (0, demo_db)"
    using work run(1) by (simp add: numeral_3_eq_3)
  then show ?thesis
    using outbox_drains [OF _ demo_runs(1), of 1 "replicate 3 ?x" 0] can uns total demo_publisher_good
    by (force simp: all_can_publish_def list_all_iff)
qed

end
