(* ===== verification/Webhook.thy ===== *)
theory Webhook
  imports DeliverWebhooks OutboxWorker Serialization
begin

text \<open>
  \<open>infrastructure/webhook/payload.py\<close>, \<open>client.py\<close> and \<open>worker.py\<close>: the signed request that carries a
  webhook to the merchant, and the loop around the delivery handler.

  httpx is outside the repository: a parameter that answers, fails with an \<open>httpx.HTTPError\<close>, or
  raises anything else. HMAC-SHA256 (the hexadecimal digest of a key and a message) and the shortest
  decimal form of a float are parameters too. A string of bytes is a \<open>string\<close>.
\<close>

section \<open>JSON text\<close>

text \<open>\<open>json.dumps(..., ensure_ascii=False)\<close>: strings, then values.\<close>

definition json_escape_char :: "char \<Rightarrow> string" where
  "json_escape_char c =
     (let n = of_char c :: nat in
      if n = 34 then [CHR 0x5C, CHR 0x22]
      else if n = 92 then [CHR 0x5C, CHR 0x5C]
      else if n = 10 then CHR 0x5C # ''n''
      else if n = 13 then CHR 0x5C # ''r''
      else if n = 9 then CHR 0x5C # ''t''
      else if n = 12 then CHR 0x5C # ''f''
      else if n = 8 then CHR 0x5C # ''b''
      else if n < 32 then CHR 0x5C # ''u'' @ hexs 4 n
      else [c])"

definition json_string :: "string \<Rightarrow> string" where
  "json_string s = CHR 0x22 # concat (map json_escape_char s) @ [CHR 0x22]"

definition joined :: "string \<Rightarrow> string list \<Rightarrow> string" where
  "joined sep xs = (case xs of [] \<Rightarrow> [] | y # ys \<Rightarrow> y @ concat (map (\<lambda>z. sep @ z) ys))"

lemma mapM_res_cong [fundef_cong]:
  "xs = ys \<Longrightarrow> (\<And>x. x \<in> set ys \<Longrightarrow> f x = g x) \<Longrightarrow> mapM_res f xs = mapM_res g ys"
  by (induction xs arbitrary: ys) auto

fun json_dumps :: "(rat \<Rightarrow> string) \<Rightarrow> pyval \<Rightarrow> exn + string" where
  "json_dumps fl VNone = Inr ''null''"
| "json_dumps fl (VBool b) = Inr (if b then ''true'' else ''false'')"
| "json_dumps fl (VInt i) = Inr (int_str i)"
| "json_dumps fl (VFloat r) = Inr (fl r)"
| "json_dumps fl (VStr s) = Inr (json_string s)"
| "json_dumps fl (VList vs) = map_res (\<lambda>xs. ''['' @ joined '', '' xs @ '']'') (mapM_res (json_dumps fl) vs)"
| "json_dumps fl (VTuple vs) = map_res (\<lambda>xs. ''['' @ joined '', '' xs @ '']'') (mapM_res (json_dumps fl) vs)"
| "json_dumps fl (VDict d) =
     map_res (\<lambda>xs. ''{'' @ joined '', '' xs @ ''}'')
       (mapM_res (\<lambda>kv. map_res (\<lambda>x. json_string (fst kv) @ '': '' @ x) (json_dumps fl (snd kv))) d)"
| "json_dumps fl (VDatetime _) = Inl (TypeError ''Object of type datetime is not JSON serializable'')"
| "json_dumps fl (VUuid _) = Inl (TypeError ''Object of type UUID is not JSON serializable'')"

text \<open>\<open>encode('utf-8')\<close>\<close>

definition utf8_char :: "char \<Rightarrow> string" where
  "utf8_char c = (let n = of_char c :: nat in if n < 128 then [c] else [char_of (192 + n div 64), char_of (128 + n mod 64)])"

definition utf8 :: "string \<Rightarrow> string" where
  "utf8 s = concat (map utf8_char s)"

section \<open>The request\<close>

definition build_webhook_payload :: "payment \<Rightarrow> delivery \<Rightarrow> pydict" where
  "build_webhook_payload p d =
     [(''event'', VStr (d_event_type d)),
      (''payment_id'', VStr (uuid_str (p_id p))),
      (''status'', VStr (payment_status_value (p_status p))),
      (''amount'', VStr (dec_str (money_amount (p_money p)))),
      (''currency'', VStr (currency_value (money_currency (p_money p)))),
      (''idempotency_key'', VStr (key_value (p_idempotency_key p))),
      (''description'', opt_str (p_description p)),
      (''metadata'', VDict (p_metadata p)),
      (''created_at'', VStr (isoformat (p_created_at p))),
      (''processed_at'', opt_str (map_option isoformat (p_processed_at p))),
      (''correlation_id'', opt_str (d_correlation_id d))]"

record http_request =
  rq_url :: string
  rq_content :: string
  rq_headers :: "(string \<times> string) list"

datatype http_reply = Response int string | HttpError string | HttpRaises exn

record webhook_client =
  wc_secret :: string
  wc_post :: "http_request \<Rightarrow> http_reply"
  wc_hmac_sha256 :: "string \<Rightarrow> string \<Rightarrow> string"
  wc_float_repr :: "rat \<Rightarrow> string"

definition webhook_request :: "webhook_client \<Rightarrow> payment \<Rightarrow> delivery \<Rightarrow> exn + http_request" where
  "webhook_request client p d =
     map_res (\<lambda>text.
       let body = utf8 text; signature = wc_hmac_sha256 client (utf8 (wc_secret client)) body
       in \<lparr>rq_url = p_webhook_url p, rq_content = body,
           rq_headers =
             [(''Content-Type'', ''application/json''),
              (''X-Webhook-Signature'', ''sha256='' @ signature),
              (''X-Correlation-ID'', case d_correlation_id d of None \<Rightarrow> [] | Some c \<Rightarrow> c),
              (''X-Event-ID'', uuid_str (d_id d))]\<rparr>)
     (json_dumps (wc_float_repr client) (VDict (build_webhook_payload p d)))"

definition webhook_send :: "webhook_client \<Rightarrow> sender" where
  "webhook_send client p d =
     bind_res (webhook_request client p d) (\<lambda>rq.
       case wc_post client rq of
         HttpError s \<Rightarrow> Inr \<lparr>ws_ok = False, ws_status_code = None, ws_body = Some s\<rparr>
       | HttpRaises e \<Rightarrow> Inl e
       | Response code text \<Rightarrow>
           Inr \<lparr>ws_ok = (200 \<le> code \<and> code < 300), ws_status_code = Some code, ws_body = Some (take 2048 text)\<rparr>)"

section \<open>The worker\<close>

definition process_once :: "deliver_env \<Rightarrow> db \<Rightarrow> (exn + batch_result) \<times> metric list \<times> db" where
  "process_once env d =
     (case deliver_webhooks env d of
        (Inl e, d') \<Rightarrow> (Inl e, [], d')
      | (Inr res, d') \<Rightarrow> (Inr res, [WebhookFailures (br_failures res)], d'))"

text \<open>One turn of the loop of \<open>run\<close>.\<close>

definition webhook_cycle :: "deliver_env \<Rightarrow> db \<Rightarrow> (exn + unit) \<times> metric list \<times> db" where
  "webhook_cycle env d =
     (let (r, em, d') = process_once env d
      in (swallow (map_res (\<lambda>_. ()) r), WorkerCycles ''webhook'' # em, d'))"

section \<open>What is sent\<close>

lemma mapM_res_exists: "(\<And>x. x \<in> set xs \<Longrightarrow> \<exists>y. f x = Inr y) \<Longrightarrow> \<exists>ys. mapM_res f xs = Inr ys"
proof (induction xs)
  case (Cons x xs)
  then obtain y ys where "f x = Inr y" "mapM_res f xs = Inr ys" by (meson list.set_intros)
  then show ?case by simp
qed simp

lemma json_dumps_total: "jsonable v \<Longrightarrow> \<exists>s. json_dumps fl v = Inr s"
proof (induction fl v rule: json_dumps.induct)
  case (6 fl vs)
  then have "\<exists>xs. mapM_res (json_dumps fl) vs = Inr xs" by (intro mapM_res_exists) (auto simp: list_all_iff)
  then show ?case by auto
next
  case (7 fl vs)
  then have "\<exists>xs. mapM_res (json_dumps fl) vs = Inr xs" by (intro mapM_res_exists) (auto simp: list_all_iff)
  then show ?case by auto
next
  case (8 fl d)
  have "\<exists>y. map_res (\<lambda>x. json_string (fst kv) @ '': '' @ x) (json_dumps fl (snd kv)) = Inr y" if "kv \<in> set d" for kv
    using 8 that by (fastforce simp: list_all_iff)
  then have "\<exists>xs. mapM_res (\<lambda>kv. map_res (\<lambda>x. json_string (fst kv) @ '': '' @ x) (json_dumps fl (snd kv))) d = Inr xs"
    by (rule mapM_res_exists)
  then show ?case by auto
qed simp_all

lemma opt_str_jsonable [simp]: "jsonable (opt_str s)"
  by (simp add: opt_str_def split: option.split)

lemma payload_jsonable: "json_dict (p_metadata p) \<Longrightarrow> jsonable (VDict (build_webhook_payload p d))"
  by (simp add: build_webhook_payload_def json_dict_def)

text \<open>
  Property C32. The signed request and its answer. For every payment whose metadata came out of the
  database the request can be built; it goes to the payment's URL, its signature is the HMAC of
  exactly the bytes sent, and the event id is the delivery's. A send counts as delivered exactly
  when the merchant answers with a status from 200 to 299; an \<open>httpx.HTTPError\<close> becomes a failed
  result without status; at most 2048 characters of an answer are kept; any other exception of the
  client leaves \<open>send\<close> as an exception.
\<close>

theorem webhook_send_contract:
  assumes "json_dict (p_metadata p)"
  shows "\<exists>rq. webhook_request client p d = Inr rq \<and> rq_url rq = p_webhook_url p \<and>
    map_of (rq_headers rq) ''X-Webhook-Signature'' =
      Some (''sha256='' @ wc_hmac_sha256 client (utf8 (wc_secret client)) (rq_content rq)) \<and>
    map_of (rq_headers rq) ''X-Event-ID'' = Some (uuid_str (d_id d)) \<and>
    (case wc_post client rq of
       Response code text \<Rightarrow> (\<exists>r body. webhook_send client p d = Inr r \<and> (ws_ok r \<longleftrightarrow> code \<in> {200..299}) \<and>
         ws_status_code r = Some code \<and> ws_body r = Some body \<and> length body \<le> 2048)
     | HttpError _ \<Rightarrow> (\<exists>r. webhook_send client p d = Inr r \<and> \<not> ws_ok r \<and> ws_status_code r = None)
     | HttpRaises e \<Rightarrow> webhook_send client p d = Inl e)"
proof -
  obtain js where js: "json_dumps (wc_float_repr client) (VDict (build_webhook_payload p d)) = Inr js"
    using json_dumps_total [OF payload_jsonable [OF assms]] by blast
  then obtain rq where rq: "webhook_request client p d = Inr rq" "rq_url rq = p_webhook_url p"
    "map_of (rq_headers rq) ''X-Webhook-Signature'' =
      Some (''sha256='' @ wc_hmac_sha256 client (utf8 (wc_secret client)) (rq_content rq))"
    "map_of (rq_headers rq) ''X-Event-ID'' = Some (uuid_str (d_id d))"
    by (simp add: webhook_request_def Let_def)
  have "200 \<le> code \<and> code < 300 \<longleftrightarrow> code \<in> {200..299}" for code :: int by auto
  with rq show ?thesis by (intro exI [of _ rq]) (auto simp: webhook_send_def split: http_reply.split)
qed

definition demo_webhook_client :: webhook_client where
  "demo_webhook_client =
     \<lparr>wc_secret = ''s'', wc_post = (\<lambda>_. Response 503 ''busy''), wc_hmac_sha256 = (\<lambda>k m. k @ m),
      wc_float_repr = (\<lambda>_. ''0.5'')\<rparr>"

theorem webhook_send_contract_witness:
  "\<exists>r. webhook_send demo_webhook_client demo_payment demo_delivery = Inr r \<and> \<not> ws_ok r \<and> ws_status_code r = Some 503"
proof -
  have "json_dict (p_metadata demo_payment)" by (simp add: demo_payment_def json_dict_def)
  from webhook_send_contract [OF this, of demo_webhook_client demo_delivery]
  show ?thesis by (auto simp: demo_webhook_client_def)
qed

text \<open>
  What the merchant reads is the payment: the id and the times of the payload parse
  back to those of the payment, status, currency, key and description are its own, and the event is
  the delivery's.
\<close>

theorem webhook_payload_readable:
  assumes "valid_datetime (p_created_at p)" and "\<forall>t. p_processed_at p = Some t \<longrightarrow> valid_datetime t"
    and "payload = build_webhook_payload p d"
  shows "(\<exists>s. dict_get ''payment_id'' payload = Some (VStr s) \<and> parse_uuid s = Inr (p_id p)) \<and>
    (\<exists>s. dict_get ''created_at'' payload = Some (VStr s) \<and> fromisoformat s = Inr (p_created_at p)) \<and>
    (case p_processed_at p of
       None \<Rightarrow> dict_get ''processed_at'' payload = Some VNone
     | Some t \<Rightarrow> \<exists>s. dict_get ''processed_at'' payload = Some (VStr s) \<and> fromisoformat s = Inr t) \<and>
    (\<exists>s. dict_get ''status'' payload = Some (VStr s) \<and> mk_payment_status s = Inr (p_status p)) \<and>
    dict_get ''event'' payload = Some (VStr (d_event_type d)) \<and>
    dict_get ''metadata'' payload = Some (VDict (p_metadata p))"
  using assms by (auto simp: build_webhook_payload_def dict_get_def opt_str_def split: option.split)

theorem webhook_payload_readable_witness:
  "\<exists>s. dict_get ''payment_id'' (build_webhook_payload demo_payment demo_delivery) = Some (VStr s) \<and> parse_uuid s = Inr 1"
proof -
  have "valid_datetime (p_created_at demo_payment)" "p_processed_at demo_payment = None" "p_id demo_payment = 1"
    by (simp_all add: demo_payment_def valid_datetime_def day_us_def)
  with webhook_payload_readable [OF _ _ refl, of demo_payment demo_delivery] show ?thesis by simp
qed

section \<open>The loop\<close>

text \<open>
  The webhook loop survives every batch that is not cancelled: the turn ends normally,
  a committed batch adds its failures to the counter, and a batch that raised leaves the tables as
  they were.
\<close>

theorem webhook_cycle_survives:
  assumes "deliver_webhooks env d = (r, d')" and "r \<noteq> Inl CancelledError"
  shows "case r of
      Inr res \<Rightarrow> webhook_cycle env d = (Inr (), [WorkerCycles ''webhook'', WebhookFailures (br_failures res)], d')
    | Inl _ \<Rightarrow> webhook_cycle env d = (Inr (), [WorkerCycles ''webhook''], d)"
proof (cases r)
  case (Inl e)
  have "d' = d" using assms(1) Inl by (auto simp: deliver_webhooks_def dest: transactional_error)
  moreover have "swallow (Inl e) = Inr ()" using assms(2) Inl by (cases e) (simp_all add: swallow_def)
  ultimately show ?thesis using assms(1) Inl by (simp add: webhook_cycle_def process_once_def)
next
  case (Inr res)
  with assms(1) show ?thesis by (simp add: webhook_cycle_def process_once_def swallow_def)
qed

theorem webhook_cycle_survives_witness:
  "\<exists>d'. webhook_cycle (demo_deliver_env (\<lambda>_ _. Inr \<lparr>ws_ok = True, ws_status_code = Some 200, ws_body = None\<rparr>))
     demo_delivery_db = (Inr (), [WorkerCycles ''webhook'', WebhookFailures 0], d')"
proof -
  obtain d' where run: "deliver_webhooks
      (demo_deliver_env (\<lambda>_ _. Inr \<lparr>ws_ok = True, ws_status_code = Some 200, ws_body = None\<rparr>)) demo_delivery_db =
      (Inr \<lparr>br_processed = 1, br_failures = 0\<rparr>, d')" using demo_deliver_runs by blast
  from webhook_cycle_survives [OF run] show ?thesis by auto
qed

end
