(* ===== verification/Schema.thy ===== *)
theory Schema
  imports OutboxRepo
begin

text \<open>
  \<open>alembic/versions/\<close> and \<open>infrastructure/models/\<close>: the schema the migrations build and the schema
  the ORM models describe. A schema is its tables, with columns and constraints, and its indexes;
  the DDL operations raise the errors PostgreSQL raises for names that clash or are missing. The
  names and predicates are the texts of the sources. \<open>alembic_version\<close>, which the tool keeps itself,
  is left out, and so is the server's folding of the texts of the check constraints.
\<close>

section \<open>Schemas\<close>

datatype column_type =
  CUuid | CVarchar nat | CNumeric nat nat | CText | CJsonb | CTimestamptz | CInteger

record column =
  col_name :: string
  col_type :: column_type
  col_nullable :: bool
  col_default :: "string option"

datatype table_constraint =
    Check string string
  | PrimaryKey "string list"
  | Unique "string list"
  | ForeignKey "string list" string "string list" string

record table_def =
  t_name :: string
  t_columns :: "column list"
  t_constraints :: "table_constraint list"

record index_def =
  ix_name :: string
  ix_table :: string
  ix_columns :: "string list"
  ix_unique :: bool
  ix_where :: "string option"

record schema =
  sc_tables :: "table_def list"
  sc_indexes :: "index_def list"

definition not_null :: "string \<Rightarrow> column_type \<Rightarrow> column" where
  "not_null n t = \<lparr>col_name = n, col_type = t, col_nullable = False, col_default = None\<rparr>"

definition nullable :: "string \<Rightarrow> column_type \<Rightarrow> column" where
  "nullable n t = \<lparr>col_name = n, col_type = t, col_nullable = True, col_default = None\<rparr>"

definition plain_index :: "string \<Rightarrow> string \<Rightarrow> string list \<Rightarrow> index_def" where
  "plain_index n t cs = \<lparr>ix_name = n, ix_table = t, ix_columns = cs, ix_unique = False, ix_where = None\<rparr>"

section \<open>The operations of a migration\<close>

datatype ddl =
    CreateTable table_def
  | DropTable string
  | AddColumn string column
  | DropColumn string string
  | CreateIndex index_def
  | DropIndex string string

definition find_table :: "string \<Rightarrow> schema \<Rightarrow> table_def option" where
  "find_table n s = row_by t_name n (sc_tables s)"

text \<open>Tables and indexes share one namespace.\<close>

definition relation_names :: "schema \<Rightarrow> string list" where
  "relation_names s = map t_name (sc_tables s) @ map ix_name (sc_indexes s)"

fun constraint_ok :: "schema \<Rightarrow> table_def \<Rightarrow> table_constraint \<Rightarrow> bool" where
  "constraint_ok s t (Check n e) \<longleftrightarrow> True"
| "constraint_ok s t (PrimaryKey cs) \<longleftrightarrow> set cs \<subseteq> set (map col_name (t_columns t))"
| "constraint_ok s t (Unique cs) \<longleftrightarrow> set cs \<subseteq> set (map col_name (t_columns t))"
| "constraint_ok s t (ForeignKey cs r rs act) \<longleftrightarrow> set cs \<subseteq> set (map col_name (t_columns t)) \<and>
     (case find_table r s of None \<Rightarrow> False | Some u \<Rightarrow> set rs \<subseteq> set (map col_name (t_columns u)))"

fun refers_to :: "string \<Rightarrow> table_constraint \<Rightarrow> bool" where
  "refers_to n (ForeignKey cs r rs act) \<longleftrightarrow> r = n"
| "refers_to n _ \<longleftrightarrow> False"

fun constraint_columns :: "table_constraint \<Rightarrow> string list" where
  "constraint_columns (Check n e) = []"
| "constraint_columns (PrimaryKey cs) = cs"
| "constraint_columns (Unique cs) = cs"
| "constraint_columns (ForeignKey cs r rs act) = cs"

fun refers_to_column :: "string \<Rightarrow> string \<Rightarrow> table_constraint \<Rightarrow> bool" where
  "refers_to_column n c (ForeignKey cs r rs act) \<longleftrightarrow> r = n \<and> c \<in> set rs"
| "refers_to_column n c _ \<longleftrightarrow> False"

definition with_columns :: "(column list \<Rightarrow> column list) \<Rightarrow> string \<Rightarrow> schema \<Rightarrow> schema" where
  "with_columns f n s =
     s\<lparr>sc_tables := update_where (\<lambda>t. t_name t = n) (\<lambda>t. t\<lparr>t_columns := f (t_columns t)\<rparr>) (sc_tables s)\<rparr>"

definition without_column :: "string \<Rightarrow> string \<Rightarrow> schema \<Rightarrow> schema" where
  "without_column c n s =
     s\<lparr>sc_tables := update_where (\<lambda>t. t_name t = n)
         (\<lambda>t. t\<lparr>t_columns := filter (\<lambda>x. col_name x \<noteq> c) (t_columns t),
               t_constraints := filter (\<lambda>k. c \<notin> set (constraint_columns k)) (t_constraints t)\<rparr>) (sc_tables s)\<rparr>"

text \<open>
  Dropping a table or a column drops the indexes on it, and dropping a column the constraints of its
  table that name it (no check of the program names a column that is dropped).
\<close>

fun run_ddl :: "ddl \<Rightarrow> schema \<Rightarrow> exn + schema" where
  "run_ddl (CreateTable t) s =
     (if t_name t \<in> set (relation_names s) then Inl (DBAPIError ''DuplicateTable'')
      else if \<not> distinct (map col_name (t_columns t)) then Inl (DBAPIError ''DuplicateColumn'')
      else if \<not> list_all (constraint_ok s t) (t_constraints t) then Inl (DBAPIError ''UndefinedObject'')
      else Inr (s\<lparr>sc_tables := sc_tables s @ [t]\<rparr>))"
| "run_ddl (DropTable n) s =
     (if find_table n s = None then Inl (DBAPIError ''UndefinedTable'')
      else if list_ex (\<lambda>t. t_name t \<noteq> n \<and> list_ex (refers_to n) (t_constraints t)) (sc_tables s)
        then Inl (DBAPIError ''DependentObjectsStillExist'')
      else Inr (s\<lparr>sc_tables := filter (\<lambda>t. t_name t \<noteq> n) (sc_tables s),
                  sc_indexes := filter (\<lambda>i. ix_table i \<noteq> n) (sc_indexes s)\<rparr>))"
| "run_ddl (AddColumn n c) s =
     (case find_table n s of
        None \<Rightarrow> Inl (DBAPIError ''UndefinedTable'')
      | Some t \<Rightarrow>
          if col_name c \<in> set (map col_name (t_columns t)) then Inl (DBAPIError ''DuplicateColumn'')
          else Inr (with_columns (\<lambda>cs. cs @ [c]) n s))"
| "run_ddl (DropColumn n c) s =
     (case find_table n s of
        None \<Rightarrow> Inl (DBAPIError ''UndefinedTable'')
      | Some t \<Rightarrow>
          if c \<notin> set (map col_name (t_columns t)) then Inl (DBAPIError ''UndefinedColumn'')
          else if list_ex (\<lambda>u. t_name u \<noteq> n \<and> list_ex (refers_to_column n c) (t_constraints u)) (sc_tables s)
            then Inl (DBAPIError ''DependentObjectsStillExist'')
          else Inr ((without_column c n s)
                 \<lparr>sc_indexes := filter (\<lambda>i. \<not> (ix_table i = n \<and> c \<in> set (ix_columns i))) (sc_indexes s)\<rparr>))"
| "run_ddl (CreateIndex i) s =
     (case find_table (ix_table i) s of
        None \<Rightarrow> Inl (DBAPIError ''UndefinedTable'')
      | Some t \<Rightarrow>
          if ix_name i \<in> set (relation_names s) then Inl (DBAPIError ''DuplicateTable'')
          else if \<not> set (ix_columns i) \<subseteq> set (map col_name (t_columns t)) then Inl (DBAPIError ''UndefinedColumn'')
          else Inr (s\<lparr>sc_indexes := sc_indexes s @ [i]\<rparr>))"
| "run_ddl (DropIndex n t) s =
     (if n \<in> set (map ix_name (sc_indexes s))
      then Inr (s\<lparr>sc_indexes := filter (\<lambda>i. ix_name i \<noteq> n) (sc_indexes s)\<rparr>)
      else Inl (DBAPIError ''UndefinedObject''))"

text \<open>A migration runs in a transaction: the first error leaves the schema as it was.\<close>

fun run_ddls :: "ddl list \<Rightarrow> schema \<Rightarrow> exn + schema" where
  "run_ddls [] s = Inr s"
| "run_ddls (o1 # os) s = bind_res (run_ddl o1 s) (run_ddls os)"

section \<open>The migrations\<close>

definition baseline_upgrade :: "ddl list" where
  "baseline_upgrade = []"

definition baseline_downgrade :: "ddl list" where
  "baseline_downgrade = []"

definition payments_table_0002 :: table_def where
  "payments_table_0002 =
     \<lparr>t_name = ''payments'',
      t_columns =
        [not_null ''id'' CUuid, not_null ''idempotency_key'' (CVarchar 255),
         not_null ''amount'' (CNumeric 18 2), not_null ''currency'' (CVarchar 3),
         nullable ''description'' CText, not_null ''metadata'' CJsonb,
         not_null ''status'' (CVarchar 16), not_null ''webhook_url'' CText,
         nullable ''correlation_id'' (CVarchar 64), not_null ''created_at'' CTimestamptz,
         nullable ''processed_at'' CTimestamptz, not_null ''version'' CInteger],
      t_constraints =
        [Check ''ck_payments_amount_positive'' ''amount > 0'',
         Check ''ck_payments_currency'' ''currency IN ('RUB', 'USD', 'EUR')'',
         Check ''ck_payments_status'' ''status IN ('pending', 'processing', 'succeeded', 'failed')'',
         Check ''ck_payments_webhook_url'' (''webhook_url ~ '^https?://'' @ [CHR 0x27]),
         PrimaryKey [''id'']]\<rparr>"

definition attempts_table_0002 :: table_def where
  "attempts_table_0002 =
     \<lparr>t_name = ''payment_attempts'',
      t_columns =
        [not_null ''id'' CUuid, not_null ''payment_id'' CUuid, not_null ''attempt_number'' CInteger,
         not_null ''status'' (CVarchar 16), nullable ''error'' CText,
         nullable ''gateway_response'' CJsonb, nullable ''correlation_id'' (CVarchar 64),
         not_null ''created_at'' CTimestamptz, not_null ''updated_at'' CTimestamptz],
      t_constraints =
        [Check ''ck_attempts_number'' ''attempt_number > 0'',
         Check ''ck_attempts_status'' ''status IN ('created', 'processing', 'succeeded', 'failed')'',
         ForeignKey [''payment_id''] ''payments'' [''id''] ''CASCADE'', PrimaryKey [''id'']]\<rparr>"

definition outbox_table_0002 :: table_def where
  "outbox_table_0002 =
     \<lparr>t_name = ''outbox_messages'',
      t_columns =
        [not_null ''id'' CUuid, not_null ''event_type'' (CVarchar 64), not_null ''aggregate_id'' CUuid,
         not_null ''payload'' CJsonb, nullable ''correlation_id'' (CVarchar 64),
         not_null ''attempts'' CInteger, not_null ''created_at'' CTimestamptz,
         nullable ''processed_at'' CTimestamptz],
      t_constraints = [PrimaryKey [''id'']]\<rparr>"

definition deliveries_table_0002 :: table_def where
  "deliveries_table_0002 =
     \<lparr>t_name = ''webhook_deliveries'',
      t_columns =
        [not_null ''id'' CUuid, not_null ''payment_id'' CUuid, not_null ''event_type'' (CVarchar 64),
         not_null ''attempt'' CInteger, not_null ''status'' (CVarchar 16),
         nullable ''response_code'' CInteger, nullable ''response_body'' CText,
         nullable ''next_retry_at'' CTimestamptz, nullable ''correlation_id'' (CVarchar 64),
         not_null ''created_at'' CTimestamptz, not_null ''updated_at'' CTimestamptz],
      t_constraints =
        [Check ''ck_webhook_deliveries_status'' ''status IN ('pending', 'success', 'failed')'',
         ForeignKey [''payment_id''] ''payments'' [''id''] ''CASCADE'', PrimaryKey [''id'']]\<rparr>"

definition outbox_processed_index :: index_def where
  "outbox_processed_index =
     plain_index ''ix_outbox_processed_created'' ''outbox_messages'' [''processed_at'', ''created_at'']"

definition payments_upgrade :: "ddl list" where
  "payments_upgrade =
     [CreateTable payments_table_0002,
      CreateIndex (plain_index ''ix_payments_status'' ''payments'' [''status'']),
      CreateIndex (plain_index ''ix_payments_created_at'' ''payments'' [''created_at'']),
      CreateIndex ((plain_index ''ix_payments_idempotency_key'' ''payments'' [''idempotency_key''])\<lparr>ix_unique := True\<rparr>),
      CreateTable attempts_table_0002,
      CreateIndex (plain_index ''ix_attempts_payment_id_number'' ''payment_attempts'' [''payment_id'', ''attempt_number'']),
      CreateTable outbox_table_0002,
      CreateIndex outbox_processed_index,
      CreateTable deliveries_table_0002,
      CreateIndex (plain_index ''ix_webhook_deliveries_payment_event'' ''webhook_deliveries'' [''payment_id'', ''event_type'']),
      CreateIndex (plain_index ''ix_webhook_deliveries_next_retry_at'' ''webhook_deliveries'' [''next_retry_at''])]"

definition payments_downgrade :: "ddl list" where
  "payments_downgrade =
     [DropIndex ''ix_webhook_deliveries_next_retry_at'' ''webhook_deliveries'',
      DropIndex ''ix_webhook_deliveries_payment_event'' ''webhook_deliveries'',
      DropTable ''webhook_deliveries'',
      DropIndex ''ix_outbox_processed_created'' ''outbox_messages'',
      DropTable ''outbox_messages'',
      DropIndex ''ix_attempts_payment_id_number'' ''payment_attempts'',
      DropTable ''payment_attempts'',
      DropIndex ''ix_payments_idempotency_key'' ''payments'',
      DropIndex ''ix_payments_status'' ''payments'',
      DropIndex ''ix_payments_created_at'' ''payments'',
      DropTable ''payments'']"

definition claim_index_0003 :: index_def where
  "claim_index_0003 =
     plain_index ''ix_outbox_claim'' ''outbox_messages'' [''status'', ''next_retry_at'', ''created_at'']"

definition outbox_retry_upgrade :: "ddl list" where
  "outbox_retry_upgrade =
     [AddColumn ''outbox_messages'' ((not_null ''status'' (CVarchar 16))\<lparr>col_default := Some ''pending''\<rparr>),
      AddColumn ''outbox_messages'' (nullable ''next_retry_at'' CTimestamptz),
      DropIndex ''ix_outbox_processed_created'' ''outbox_messages'',
      CreateIndex claim_index_0003]"

definition outbox_retry_downgrade :: "ddl list" where
  "outbox_retry_downgrade =
     [DropIndex ''ix_outbox_claim'' ''outbox_messages'',
      CreateIndex outbox_processed_index,
      DropColumn ''outbox_messages'' ''next_retry_at'',
      DropColumn ''outbox_messages'' ''status'']"

definition outbox_claim_upgrade :: "ddl list" where
  "outbox_claim_upgrade =
     [AddColumn ''outbox_messages'' (nullable ''claimed_at'' CTimestamptz),
      AddColumn ''outbox_messages'' (nullable ''claimed_by'' CUuid),
      DropIndex ''ix_outbox_claim'' ''outbox_messages'',
      CreateIndex (plain_index ''idx_outbox_claim'' ''outbox_messages'' [''status'', ''next_retry_at'', ''claimed_at''])]"

definition outbox_claim_downgrade :: "ddl list" where
  "outbox_claim_downgrade =
     [DropIndex ''idx_outbox_claim'' ''outbox_messages'',
      CreateIndex claim_index_0003,
      DropColumn ''outbox_messages'' ''claimed_by'',
      DropColumn ''outbox_messages'' ''claimed_at'']"

definition outbox_finished_upgrade :: "ddl list" where
  "outbox_finished_upgrade =
     [AddColumn ''outbox_messages'' (nullable ''finished_at'' CTimestamptz),
      CreateIndex ((plain_index ''idx_outbox_claim_expiry'' ''outbox_messages'' [''claimed_at''])
        \<lparr>ix_where := Some (''status = 'processing'' @ [CHR 0x27])\<rparr>),
      CreateIndex ((plain_index ''idx_outbox_finished_at'' ''outbox_messages'' [''finished_at''])
        \<lparr>ix_where := Some ''status IN ('processed', 'dead')''\<rparr>)]"

definition outbox_finished_downgrade :: "ddl list" where
  "outbox_finished_downgrade =
     [DropIndex ''idx_outbox_finished_at'' ''outbox_messages'',
      DropIndex ''idx_outbox_claim_expiry'' ''outbox_messages'',
      DropColumn ''outbox_messages'' ''finished_at'']"

section \<open>The history\<close>

text \<open>A revision script: the identifiers it declares and the operations of its two functions.\<close>

record revision =
  rv_id :: string
  rv_down_revision :: "string option"
  rv_branch_labels :: "string list option"
  rv_depends_on :: "string list option"
  rv_upgrade :: "ddl list"
  rv_downgrade :: "ddl list"

definition revision_0001 :: revision where
  "revision_0001 = \<lparr>rv_id = ''0001_baseline'', rv_down_revision = None, rv_branch_labels = None,
     rv_depends_on = None, rv_upgrade = baseline_upgrade, rv_downgrade = baseline_downgrade\<rparr>"

definition revision_0002 :: revision where
  "revision_0002 = \<lparr>rv_id = ''0002_payments'', rv_down_revision = Some ''0001_baseline'', rv_branch_labels = None,
     rv_depends_on = None, rv_upgrade = payments_upgrade, rv_downgrade = payments_downgrade\<rparr>"

definition revision_0003 :: revision where
  "revision_0003 = \<lparr>rv_id = ''0003_outbox_retry'', rv_down_revision = Some ''0002_payments'', rv_branch_labels = None,
     rv_depends_on = None, rv_upgrade = outbox_retry_upgrade, rv_downgrade = outbox_retry_downgrade\<rparr>"

definition revision_0004 :: revision where
  "revision_0004 = \<lparr>rv_id = ''0004_outbox_claim'', rv_down_revision = Some ''0003_outbox_retry'', rv_branch_labels = None,
     rv_depends_on = None, rv_upgrade = outbox_claim_upgrade, rv_downgrade = outbox_claim_downgrade\<rparr>"

definition revision_0005 :: revision where
  "revision_0005 = \<lparr>rv_id = ''0005_outbox_finished'', rv_down_revision = Some ''0004_outbox_claim'', rv_branch_labels = None,
     rv_depends_on = None, rv_upgrade = outbox_finished_upgrade, rv_downgrade = outbox_finished_downgrade\<rparr>"

definition revisions :: "revision list" where
  "revisions = [revision_0001, revision_0002, revision_0003, revision_0004, revision_0005]"

definition empty_schema :: schema where
  "empty_schema = \<lparr>sc_tables = [], sc_indexes = []\<rparr>"

text \<open>The schema after the first \<open>k\<close> revisions.\<close>

definition schema_at :: "nat \<Rightarrow> exn + schema" where
  "schema_at k = run_ddls (concat (map rv_upgrade (take k revisions))) empty_schema"

section \<open>The ORM models\<close>

definition payment_model :: table_def where
  "payment_model =
     \<lparr>t_name = ''payments'',
      t_columns =
        [not_null ''id'' CUuid, not_null ''idempotency_key'' (CVarchar 255),
         not_null ''amount'' (CNumeric 18 2), not_null ''currency'' (CVarchar 3),
         nullable ''description'' CText, not_null ''metadata'' CJsonb,
         not_null ''status'' (CVarchar 16), not_null ''webhook_url'' CText,
         nullable ''correlation_id'' (CVarchar 64), not_null ''created_at'' CTimestamptz,
         nullable ''processed_at'' CTimestamptz, not_null ''version'' CInteger],
      t_constraints =
        [Check ''ck_payments_amount_positive'' ''amount > 0'',
         Check ''ck_payments_currency'' ''currency IN ('RUB', 'USD', 'EUR')'',
         Check ''ck_payments_status'' ''status IN ('pending', 'processing', 'succeeded', 'failed')'',
         Check ''ck_payments_webhook_url'' (''webhook_url ~ '^https?://'' @ [CHR 0x27]),
         PrimaryKey [''id''], Unique [''idempotency_key'']]\<rparr>"

definition payment_model_indexes :: "index_def list" where
  "payment_model_indexes =
     [plain_index ''ix_payments_status'' ''payments'' [''status''],
      plain_index ''ix_payments_created_at'' ''payments'' [''created_at'']]"

definition attempt_model :: table_def where
  "attempt_model =
     \<lparr>t_name = ''payment_attempts'',
      t_columns =
        [not_null ''id'' CUuid, not_null ''payment_id'' CUuid, not_null ''attempt_number'' CInteger,
         not_null ''status'' (CVarchar 16), nullable ''error'' CText,
         nullable ''gateway_response'' CJsonb, nullable ''correlation_id'' (CVarchar 64),
         not_null ''created_at'' CTimestamptz, not_null ''updated_at'' CTimestamptz],
      t_constraints =
        [Check ''ck_attempts_number'' ''attempt_number > 0'',
         Check ''ck_attempts_status'' ''status IN ('created', 'processing', 'succeeded', 'failed')'',
         PrimaryKey [''id''], ForeignKey [''payment_id''] ''payments'' [''id''] ''CASCADE'']\<rparr>"

definition attempt_model_indexes :: "index_def list" where
  "attempt_model_indexes =
     [plain_index ''ix_attempts_payment_id_number'' ''payment_attempts'' [''payment_id'', ''attempt_number'']]"

definition outbox_model :: table_def where
  "outbox_model =
     \<lparr>t_name = ''outbox_messages'',
      t_columns =
        [not_null ''id'' CUuid, not_null ''event_type'' (CVarchar 64), not_null ''aggregate_id'' CUuid,
         not_null ''payload'' CJsonb, nullable ''correlation_id'' (CVarchar 64),
         not_null ''attempts'' CInteger,
         (not_null ''status'' (CVarchar 16))\<lparr>col_default := Some ''pending''\<rparr>,
         not_null ''created_at'' CTimestamptz, nullable ''next_retry_at'' CTimestamptz,
         nullable ''claimed_at'' CTimestamptz, nullable ''claimed_by'' CUuid,
         nullable ''processed_at'' CTimestamptz, nullable ''finished_at'' CTimestamptz],
      t_constraints = [PrimaryKey [''id'']]\<rparr>"

definition outbox_model_indexes :: "index_def list" where
  "outbox_model_indexes =
     [plain_index ''idx_outbox_claim'' ''outbox_messages'' [''status'', ''next_retry_at'', ''claimed_at''],
      (plain_index ''idx_outbox_claim_expiry'' ''outbox_messages'' [''claimed_at''])
        \<lparr>ix_where := Some (''status = 'processing'' @ [CHR 0x27])\<rparr>,
      (plain_index ''idx_outbox_finished_at'' ''outbox_messages'' [''finished_at''])
        \<lparr>ix_where := Some ''status IN ('processed', 'dead')''\<rparr>]"

definition delivery_model :: table_def where
  "delivery_model =
     \<lparr>t_name = ''webhook_deliveries'',
      t_columns =
        [not_null ''id'' CUuid, not_null ''payment_id'' CUuid, not_null ''event_type'' (CVarchar 64),
         not_null ''attempt'' CInteger, not_null ''status'' (CVarchar 16),
         nullable ''response_code'' CInteger, nullable ''response_body'' CText,
         nullable ''next_retry_at'' CTimestamptz, nullable ''correlation_id'' (CVarchar 64),
         not_null ''created_at'' CTimestamptz, not_null ''updated_at'' CTimestamptz],
      t_constraints =
        [Check ''ck_webhook_deliveries_status'' ''status IN ('pending', 'success', 'failed')'',
         PrimaryKey [''id''], ForeignKey [''payment_id''] ''payments'' [''id''] ''CASCADE'']\<rparr>"

definition delivery_model_indexes :: "index_def list" where
  "delivery_model_indexes =
     [plain_index ''ix_webhook_deliveries_payment_event'' ''webhook_deliveries'' [''payment_id'', ''event_type''],
      plain_index ''ix_webhook_deliveries_next_retry_at'' ''webhook_deliveries'' [''next_retry_at'']]"

definition orm_metadata :: schema where
  "orm_metadata =
     \<lparr>sc_tables = [outbox_model, payment_model, attempt_model, delivery_model],
      sc_indexes = outbox_model_indexes @ payment_model_indexes @ attempt_model_indexes @ delivery_model_indexes\<rparr>"

section \<open>Properties\<close>

text \<open>Two schemas agree: the same tables with the same columns and constraints, and the same indexes.\<close>

definition same_members :: "'a list \<Rightarrow> 'a list \<Rightarrow> bool" where
  "same_members xs ys \<longleftrightarrow> list_all (\<lambda>x. List.member ys x) xs \<and> list_all (\<lambda>y. List.member xs y) ys"

definition same_table :: "table_def \<Rightarrow> table_def \<Rightarrow> bool" where
  "same_table t u \<longleftrightarrow> t_name t = t_name u \<and> same_members (t_columns t) (t_columns u) \<and>
     same_members (t_constraints t) (t_constraints u)"

definition same_schema :: "schema \<Rightarrow> schema \<Rightarrow> bool" where
  "same_schema s s' \<longleftrightarrow>
     list_all (\<lambda>t. list_ex (same_table t) (sc_tables s')) (sc_tables s) \<and>
     list_all (\<lambda>t. list_ex (same_table t) (sc_tables s)) (sc_tables s') \<and>
     same_members (sc_indexes s) (sc_indexes s')"

text \<open>What a revision's downgrade leaves of the schema its upgrade made.\<close>

definition undone :: "nat \<Rightarrow> exn + schema" where
  "undone k = bind_res (schema_at (Suc k)) (run_ddls (rv_downgrade (revisions ! k)))"

definition agrees :: "exn + schema \<Rightarrow> exn + schema \<Rightarrow> bool" where
  "agrees r r' = (case (r, r') of (Inr s, Inr s') \<Rightarrow> same_schema s s' | _ \<Rightarrow> False)"

lemma undone_all: "list_all (\<lambda>k. agrees (undone k) (schema_at k)) [0..<length revisions]"
  by code_simp

lemma reversible:
  "list_all (\<lambda>k. \<exists>s s' s''. schema_at k = Inr s \<and> schema_at (Suc k) = Inr s' \<and>
     run_ddls (rv_downgrade (revisions ! k)) s' = Inr s'' \<and> same_schema s'' s) [0..<length revisions]"
proof -
  have "\<exists>s s' s''. schema_at k = Inr s \<and> schema_at (Suc k) = Inr s' \<and>
      run_ddls (rv_downgrade (revisions ! k)) s' = Inr s'' \<and> same_schema s'' s" if "k < length revisions" for k
  proof -
    from undone_all that have "agrees (undone k) (schema_at k)" by (simp add: list_all_iff)
    then obtain s s'' where "undone k = Inr s''" "schema_at k = Inr s" "same_schema s'' s"
      by (auto simp: agrees_def split: sum.splits)
    then show ?thesis by (auto simp: undone_def res_simps)
  qed
  then show ?thesis by (simp add: list_all_iff)
qed

text \<open>A unique index and a unique constraint promise the same of the rows.\<close>

definition unique_as_constraint :: "index_def \<Rightarrow> table_def \<Rightarrow> table_def" where
  "unique_as_constraint i t =
     (if ix_unique i \<and> ix_table i = t_name t then t\<lparr>t_constraints := t_constraints t @ [Unique (ix_columns i)]\<rparr> else t)"

definition uniques_as_constraints :: "schema \<Rightarrow> schema" where
  "uniques_as_constraints s =
     \<lparr>sc_tables = map (\<lambda>t. fold unique_as_constraint (sc_indexes s) t) (sc_tables s),
      sc_indexes = filter (\<lambda>i. \<not> ix_unique i) (sc_indexes s)\<rparr>"

lemma head_matches:
  "\<exists>s. schema_at (length revisions) = Inr s \<and> same_schema (uniques_as_constraints s) orm_metadata \<and>
     \<not> same_schema s orm_metadata"
proof -
  have "(case schema_at (length revisions) of Inl e \<Rightarrow> False
     | Inr s \<Rightarrow> same_schema (uniques_as_constraints s) orm_metadata \<and> \<not> same_schema s orm_metadata)"
    by code_simp
  then show ?thesis by (auto split: sum.splits)
qed

text \<open>
  Property C37. The migrations are sound. Their identifiers form one chain without branches, from
  the empty database to one head. From the empty database every revision's upgrade runs without an
  error, and its downgrade then runs without an error and gives back the schema the upgrade started
  from. At the head the database has exactly the tables of the ORM models, with exactly their columns
  (type, nullability and server default), constraints and indexes; the only difference is that the
  uniqueness of the idempotency key is a unique index in the migrations and a unique constraint in
  the model.
\<close>

theorem migrations_sound:
  "map rv_down_revision revisions = None # map (\<lambda>r. Some (rv_id r)) (butlast revisions) \<and>
   distinct (map rv_id revisions) \<and>
   list_all (\<lambda>k. \<exists>s s' s''. schema_at k = Inr s \<and> schema_at (Suc k) = Inr s' \<and>
     run_ddls (rv_downgrade (revisions ! k)) s' = Inr s'' \<and> same_schema s'' s) [0..<length revisions] \<and>
   (\<exists>s. schema_at (length revisions) = Inr s \<and> same_schema (uniques_as_constraints s) orm_metadata \<and>
     \<not> same_schema s orm_metadata)"
proof (intro conjI)
  show "map rv_down_revision revisions = None # map (\<lambda>r. Some (rv_id r)) (butlast revisions)"
    "distinct (map rv_id revisions)" by code_simp+
qed (rule reversible head_matches)+

section \<open>Rows that are older than the migrations\<close>

text \<open>
  \<open>ADD COLUMN\<close> gives the rows that are there the server default of the new column, or NULL. An
  outbox row of revision 0002, and what the later revisions make of it.
\<close>

record legacy_row =
  lg_id :: uuid
  lg_event_type :: string
  lg_aggregate_id :: uuid
  lg_payload :: pydict
  lg_correlation_id :: "string option"
  lg_attempts :: int
  lg_created_at :: datetime
  lg_processed_at :: "datetime option"

definition migrate_row :: "legacy_row \<Rightarrow> outbox_row" where
  "migrate_row l =
     \<lparr>ob_id = lg_id l, ob_event_type = lg_event_type l, ob_aggregate_id = lg_aggregate_id l,
      ob_payload = lg_payload l, ob_correlation_id = lg_correlation_id l, ob_attempts = lg_attempts l,
      ob_status = ''pending'', ob_created_at = lg_created_at l, ob_next_retry_at = None,
      ob_claimed_at = None, ob_claimed_by = None, ob_processed_at = lg_processed_at l,
      ob_finished_at = None\<rparr>"

lemma update_outbox_untouched:
  "r \<in> set (outbox_messages d) \<Longrightarrow> \<not> P r \<Longrightarrow> r \<in> set (outbox_messages (update_outbox P f d))"
  by (force simp: update_outbox_def set_update_where)

text \<open>
  Property C38. A message that was published before the outbox got its status column stays in the
  table for ever: the migrations leave it pending with a publication time, and as long as its
  attempts are below the limit no operation of the outbox, neither claims nor marks nor the
  retention sweep, ever changes or deletes it. So it is not published a second time, and it is
  never purged either.
\<close>

theorem legacy_rows_stuck:
  assumes "lg_processed_at l \<noteq> None" and "lg_attempts l < m"
    and "migrate_row l \<in> set (outbox_messages d)" and "unique_key ob_id (outbox_messages d)"
    and f: "f \<in> outbox_ops m a"
  shows "migrate_row l \<in> set (outbox_messages (f d))"
  using f
proof (cases rule: outbox_op_cases)
  case (insert i e)
  with assms(3) show ?thesis by (auto simp: insert_op_def res_simps split: sum.split)
next
  case (claim w locked limit now)
  have "\<not> claimable now m (migrate_row l)" using assms(1) by (simp add: claimable_def migrate_row_def)
  then have "ob_id (migrate_row l) \<notin> set (claim_ids locked limit now m d)"
    using claim_ids_rows [OF assms(4,3)] by blast
  with assms(3) show ?thesis by (simp add: claim claim_op_eq update_outbox_untouched)
next
  case (ack w ts i)
  with assms(3) show ?thesis
    by (simp add: mark_processed_db_def) (rule update_outbox_untouched, simp_all add: owned_def migrate_row_def)
next
  case (nack w ts i due_at)
  with assms(3) show ?thesis
    by (simp add: mark_publish_failure_db_def) (rule update_outbox_untouched, simp_all add: owned_def migrate_row_def)
next
  case (expire ts now timeout)
  with assms(3) show ?thesis
    by (simp add: release_expired_eq) (rule update_outbox_untouched, simp_all add: expired_def migrate_row_def)
next
  case (reap ts)
  with assms(2,3) show ?thesis
    by (simp add: reap_exhausted_db_def) (rule update_outbox_untouched, simp_all add: migrate_row_def)
next
  case (purge cutoff)
  with assms(3) show ?thesis by (simp add: purge_processed_db_def purgeable_def migrate_row_def)
qed

definition demo_legacy :: legacy_row where
  "demo_legacy = \<lparr>lg_id = 9, lg_event_type = ''PaymentCreated'', lg_aggregate_id = 1, lg_payload = [],
     lg_correlation_id = None, lg_attempts = 1, lg_created_at = 100, lg_processed_at = Some 200\<rparr>"

theorem legacy_rows_stuck_witness:
  "migrate_row demo_legacy \<in>
     set (outbox_messages (purge_processed_db 1000000 (empty_db\<lparr>outbox_messages := [migrate_row demo_legacy]\<rparr>)))"
  by (rule legacy_rows_stuck [where m = 5 and a = Purge])
    (auto simp: demo_legacy_def unique_key_def empty_db_def)

end
