(* ===== verification/Conformance.thy ===== *)
theory Conformance
  imports System Schema
begin

text \<open>
  The type soundness of the persistence layer: the rows of every reachable state conform to the
  schema the migrations build. A schema of theory \<open>Schema\<close> is given its meaning on rows of
  dynamically typed cells (column types, nullability, check expressions, keys, references), and the
  cells of the four tables are those \<open>infrastructure/models/\<close> maps.
\<close>

section \<open>Cells and column types\<close>

datatype sql_value =
    SNull
  | SUuid uuid
  | SText string
  | SNumeric decimal
  | SJson pydict
  | STime datetime
  | SInt int

type_synonym cells = "(string \<times> sql_value) list"

definition sql_opt :: "('a \<Rightarrow> sql_value) \<Rightarrow> 'a option \<Rightarrow> sql_value" where
  "sql_opt f x = (case x of None \<Rightarrow> SNull | Some a \<Rightarrow> f a)"

text \<open>\<open>NUMERIC(p, s)\<close> holds at most \<open>p\<close> digits, \<open>s\<close> of them decimals.\<close>

fun has_type :: "column_type \<Rightarrow> sql_value \<Rightarrow> bool" where
  "has_type CUuid (SUuid u) = True"
| "has_type (CVarchar n) (SText s) = (varchar n s \<and> text_ok s)"
| "has_type (CNumeric p q) (SNumeric (Finite c e)) = (e = - int q \<and> \<bar>c\<bar> < 10 ^ p)"
| "has_type CText (SText s) = text_ok s"
| "has_type CJsonb (SJson g) = (json_dict g \<and> json_text (VDict g))"
| "has_type CTimestamptz (STime t) = True"
| "has_type CInteger (SInt i) = int4 i"
| "has_type _ _ = False"

definition column_ok :: "column \<Rightarrow> sql_value \<Rightarrow> bool" where
  "column_ok c v = (if v = SNull then col_nullable c else has_type (col_type c) v)"

section \<open>Check expressions\<close>

text \<open>The three forms the check constraints of the schema have, read from their text.\<close>

datatype check_expr = Positive string | OneOf string "string list" | HttpUrl string

fun split_on :: "char \<Rightarrow> string \<Rightarrow> string list" where
  "split_on q [] = [[]]"
| "split_on q (c # s) =
     (if c = q then [] # split_on q s
      else case split_on q s of [] \<Rightarrow> [[c]] | w # ws \<Rightarrow> (c # w) # ws)"

fun odds :: "'a list \<Rightarrow> 'a list" where
  "odds (x # y # zs) = y # odds zs"
| "odds _ = []"

definition parse_check :: "string \<Rightarrow> check_expr option" where
  "parse_check t =
     (let col = takeWhile (\<lambda>c. c \<noteq> CHR '' '') t; rest = drop (length col) t
      in if rest = '' > 0'' then Some (Positive col)
         else if take 5 rest = '' IN (''
           then Some (OneOf col (odds (split_on CHR 0x27 rest)))
         else if rest = '' ~ '^https?://'' @ [CHR 0x27] then Some (HttpUrl col)
         else None)"

text \<open>A check on NULL is not violated.\<close>

fun check_holds :: "check_expr \<Rightarrow> cells \<Rightarrow> bool" where
  "check_holds (Positive col) row =
     (case map_of row col of
        Some (SInt i) \<Rightarrow> 0 < i | Some (SNumeric x) \<Rightarrow> numeric_positive x | Some SNull \<Rightarrow> True | _ \<Rightarrow> False)"
| "check_holds (OneOf col vs) row =
     (case map_of row col of Some (SText s) \<Rightarrow> s \<in> set vs | Some SNull \<Rightarrow> True | _ \<Rightarrow> False)"
| "check_holds (HttpUrl col) row =
     (case map_of row col of Some (SText s) \<Rightarrow> http_url s | Some SNull \<Rightarrow> True | _ \<Rightarrow> False)"

section \<open>A database conforms to a schema\<close>

definition key_of :: "string list \<Rightarrow> cells \<Rightarrow> sql_value option list" where
  "key_of cs row = map (map_of row) cs"

text \<open>Rows with a NULL in a key neither clash nor refer.\<close>

definition full_keys :: "string list \<Rightarrow> cells list \<Rightarrow> sql_value option list list" where
  "full_keys cs rows = filter (\<lambda>k. Some SNull \<notin> set k) (map (key_of cs) rows)"

fun constraint_holds :: "(string \<Rightarrow> cells list) \<Rightarrow> cells list \<Rightarrow> table_constraint \<Rightarrow> bool" where
  "constraint_holds tables rows (Check n e) =
     (case parse_check e of None \<Rightarrow> False | Some x \<Rightarrow> list_all (check_holds x) rows)"
| "constraint_holds tables rows (PrimaryKey cs) =
     (distinct (full_keys cs rows) \<and> list_all (\<lambda>r. Some SNull \<notin> set (key_of cs r)) rows)"
| "constraint_holds tables rows (Unique cs) = distinct (full_keys cs rows)"
| "constraint_holds tables rows (ForeignKey cs r rs act) =
     (set (full_keys cs rows) \<subseteq> set (map (key_of rs) (tables r)))"

definition row_conforms :: "table_def \<Rightarrow> cells \<Rightarrow> bool" where
  "row_conforms t row \<longleftrightarrow> length row = length (t_columns t) \<and>
     list_all (\<lambda>c. case map_of row (col_name c) of None \<Rightarrow> False | Some v \<Rightarrow> column_ok c v) (t_columns t)"

definition table_conforms :: "(string \<Rightarrow> cells list) \<Rightarrow> table_def \<Rightarrow> bool" where
  "table_conforms tables t \<longleftrightarrow> list_all (row_conforms t) (tables (t_name t)) \<and>
     list_all (constraint_holds tables (tables (t_name t))) (t_constraints t)"

definition conforms :: "schema \<Rightarrow> (string \<Rightarrow> cells list) \<Rightarrow> bool" where
  "conforms s tables \<longleftrightarrow> list_all (table_conforms tables) (sc_tables s) \<and>
     list_all (\<lambda>i. ix_unique i \<longrightarrow> constraint_holds tables (tables (ix_table i)) (Unique (ix_columns i))) (sc_indexes s)"

section \<open>The cells of the rows\<close>

definition payment_cells :: "payment_row \<Rightarrow> cells" where
  "payment_cells r =
     [(''id'', SUuid (pr_id r)), (''idempotency_key'', SText (pr_idempotency_key r)),
      (''amount'', SNumeric (pr_amount r)), (''currency'', SText (pr_currency r)),
      (''description'', sql_opt SText (pr_description r)), (''metadata'', SJson (pr_metadata r)),
      (''status'', SText (pr_status r)), (''webhook_url'', SText (pr_webhook_url r)),
      (''correlation_id'', sql_opt SText (pr_correlation_id r)), (''created_at'', STime (pr_created_at r)),
      (''processed_at'', sql_opt STime (pr_processed_at r)), (''version'', SInt (pr_version r))]"

definition attempt_cells :: "attempt_row \<Rightarrow> cells" where
  "attempt_cells r =
     [(''id'', SUuid (ar_id r)), (''payment_id'', SUuid (ar_payment_id r)),
      (''attempt_number'', SInt (ar_attempt_number r)), (''status'', SText (ar_status r)),
      (''error'', sql_opt SText (ar_error r)), (''gateway_response'', sql_opt SJson (ar_gateway_response r)),
      (''correlation_id'', sql_opt SText (ar_correlation_id r)), (''created_at'', STime (ar_created_at r)),
      (''updated_at'', STime (ar_updated_at r))]"

definition outbox_cells :: "outbox_row \<Rightarrow> cells" where
  "outbox_cells r =
     [(''id'', SUuid (ob_id r)), (''event_type'', SText (ob_event_type r)),
      (''aggregate_id'', SUuid (ob_aggregate_id r)), (''payload'', SJson (ob_payload r)),
      (''correlation_id'', sql_opt SText (ob_correlation_id r)), (''attempts'', SInt (ob_attempts r)),
      (''status'', SText (ob_status r)), (''created_at'', STime (ob_created_at r)),
      (''next_retry_at'', sql_opt STime (ob_next_retry_at r)), (''claimed_at'', sql_opt STime (ob_claimed_at r)),
      (''claimed_by'', sql_opt SUuid (ob_claimed_by r)), (''processed_at'', sql_opt STime (ob_processed_at r)),
      (''finished_at'', sql_opt STime (ob_finished_at r))]"

definition delivery_cells :: "delivery_row \<Rightarrow> cells" where
  "delivery_cells r =
     [(''id'', SUuid (wr_id r)), (''payment_id'', SUuid (wr_payment_id r)),
      (''event_type'', SText (wr_event_type r)), (''attempt'', SInt (wr_attempt r)),
      (''status'', SText (wr_status r)), (''response_code'', sql_opt SInt (wr_response_code r)),
      (''response_body'', sql_opt SText (wr_response_body r)),
      (''next_retry_at'', sql_opt STime (wr_next_retry_at r)),
      (''correlation_id'', sql_opt SText (wr_correlation_id r)), (''created_at'', STime (wr_created_at r)),
      (''updated_at'', STime (wr_updated_at r))]"

definition table_rows :: "db \<Rightarrow> string \<Rightarrow> cells list" where
  "table_rows d n =
     (if n = ''payments'' then map payment_cells (payments d)
      else if n = ''payment_attempts'' then map attempt_cells (payment_attempts d)
      else if n = ''outbox_messages'' then map outbox_cells (outbox_messages d)
      else if n = ''webhook_deliveries'' then map delivery_cells (webhook_deliveries d)
      else [])"

section \<open>What the rows keep\<close>

definition corr_ok :: "string option \<Rightarrow> bool" where
  "corr_ok co \<longleftrightarrow> varchar_opt 64 co \<and> text_opt co"

definition payment_typed :: "payment_row \<Rightarrow> bool" where
  "payment_typed r \<longleftrightarrow>
     varchar 255 (pr_idempotency_key r) \<and> text_ok (pr_idempotency_key r) \<and>
     (\<exists>c. pr_amount r = Finite c (-2) \<and> 0 < c \<and> c < 10 ^ 18) \<and>
     pr_currency r \<in> {''RUB'', ''USD'', ''EUR''} \<and> text_opt (pr_description r) \<and>
     json_dict (pr_metadata r) \<and> json_text (VDict (pr_metadata r)) \<and>
     pr_status r \<in> {''pending'', ''processing'', ''succeeded'', ''failed''} \<and>
     text_ok (pr_webhook_url r) \<and> http_url (pr_webhook_url r) \<and> corr_ok (pr_correlation_id r) \<and>
     pr_version r \<in> {0, 2}"

definition attempt_typed :: "attempt_row \<Rightarrow> bool" where
  "attempt_typed r \<longleftrightarrow>
     int4 (ar_attempt_number r) \<and> 0 < ar_attempt_number r \<and>
     ar_status r \<in> {''created'', ''processing'', ''succeeded'', ''failed''} \<and>
     params_check (ar_gateway_response r) [ar_error r] = Inr () \<and> corr_ok (ar_correlation_id r)"

fun message_typed :: "message_info \<Rightarrow> bool" where
  "message_typed (i, t, body, co) \<longleftrightarrow>
     varchar 64 t \<and> text_ok t \<and> json_dict body \<and> json_text (VDict body) \<and> corr_ok co"

definition delivery_typed :: "delivery_row \<Rightarrow> bool" where
  "delivery_typed r \<longleftrightarrow>
     varchar 64 (wr_event_type r) \<and> text_ok (wr_event_type r) \<and> int4 (wr_attempt r) \<and>
     wr_status r \<in> {''pending'', ''success'', ''failed''} \<and>
     (case wr_response_code r of None \<Rightarrow> True | Some c \<Rightarrow> int4 c) \<and> text_opt (wr_response_body r) \<and>
     corr_ok (wr_correlation_id r)"

definition rows_typed :: "db \<Rightarrow> bool" where
  "rows_typed d \<longleftrightarrow>
     list_all payment_typed (payments d) \<and> list_all attempt_typed (payment_attempts d) \<and>
     list_all message_typed (message_keys d) \<and> list_all delivery_typed (webhook_deliveries d)"

lemma rows_typed_empty: "rows_typed empty_db"
  by (simp add: rows_typed_def empty_db_def message_keys_def)

text \<open>What the checks of an insert establish.\<close>

lemma payment_check_typed:
  assumes "payment_ok p" "payment_row_check (payment_values p) = Inr r" "p_version p = 0"
  shows "payment_typed r"
proof -
  from assms(1) obtain c e k where m: "p_money p = Money (Finite c e) k" "0 < c" "whole_cents c e"
    by (auto simp: payment_ok_def elim: money_ok_cases)
  from assms(2) have "numeric_18_2 (Finite c e) = Some (pr_amount r)" "numeric_positive (pr_amount r)"
    and r: "r = (payment_values p)\<lparr>pr_amount := pr_amount r\<rparr>"
    by (auto simp: payment_row_check_def payment_values_def m res_simps split: if_splits option.splits)
  then have "pr_amount r = Finite (cents c e) (-2)" "\<bar>cents c e\<bar> < 10 ^ 18" by (auto split: if_splits)
  moreover with \<open>numeric_positive (pr_amount r)\<close> have "0 < cents c e" by simp
  ultimately have "\<exists>x. pr_amount r = Finite x (-2) \<and> 0 < x \<and> x < 10 ^ 18" by auto
  moreover have "payment_typed (r\<lparr>pr_amount := Finite 1 (-2)\<rparr>)"
    using assms(2,3)
    by (auto simp: payment_row_check_def payment_values_def payment_typed_def corr_ok_def res_simps
        split: if_splits option.splits)
  ultimately show ?thesis by (simp add: payment_typed_def)
qed

lemma attempt_check_typed:
  "attempt_row_check d r = Inr u \<Longrightarrow> attempt_typed r"
  by (auto simp: attempt_row_check_def attempt_typed_def corr_ok_def res_simps split: if_splits)

lemma outbox_check_typed: "outbox_row_check d r = Inr u \<Longrightarrow> message_typed (message_key r)"
  by (auto simp: outbox_row_check_def message_key_def corr_ok_def res_simps split: if_splits)

lemma delivery_check_typed: "delivery_row_check d r = Inr u \<Longrightarrow> delivery_typed r"
  by (auto simp: delivery_row_check_def delivery_typed_def corr_ok_def res_simps split: if_splits)

section \<open>Every transaction keeps the types\<close>

lemma create_typed:
  assumes "rows_typed d" and run: "create_payment env c d = (Inr dto, d')"
  shows "rows_typed d'"
  using run
proof (cases rule: create_payment_cases)
  case (created k mo r)
  have "payment_ok (new_payment env c k mo)" using command_values_ok [OF created(1)] by simp
  moreover have "p_version (new_payment env c k mo) = 0"
    by (simp add: new_payment_def payment_create_def add_event_def)
  ultimately have "payment_typed r" using payment_check_typed created(3) by blast
  with outbox_check_typed [OF created(6)] assms(1) show ?thesis
    by (simp add: created(7) rows_typed_def message_keys_def)
qed (use assms in simp)

lemma settle_typed: "payment_typed r \<Longrightarrow> pr_version r = 0 \<Longrightarrow> st \<in> {Succeeded, Failed} \<Longrightarrow> payment_typed (settle st 2 t r)"
  by (auto simp: payment_typed_def settle_def)

lemma process_typed:
  assumes "rows_typed d" and ok: "system_ok m d" and run: "process_payment env gw seen c d = (res, d')"
  shows "rows_typed d'"
  using run
proof (cases rule: process_payment_cases [OF system_ids [OF ok] run])
  case 1
  with assms show ?thesis by simp
next
  case (2 existing v r)
  let ?a = "started_attempt env c (pc_payment_id c) existing"
  have "payment_typed (settle (fin_status r) 2 (pe_finished env) x)"
    if "x \<in> set (payments d)" "pr_id x = pc_payment_id c" for x
  proof (rule settle_typed)
    show "payment_typed x" using assms(1) that(1) by (simp add: rows_typed_def list_all_iff)
    have "unique_key pr_id (payments d)" using ok by (simp add: system_ok_def)
    from row_by_unique [OF this that(1)] that(2) 2(1) have "pr_status x = ''pending''"
      by (simp add: payment_state_def)
    with ok that(1) show "pr_version x = 0" by (auto simp: system_ok_def payment_story_def)
    show "fin_status r \<in> {Succeeded, Failed}" by (simp add: fin_status_def)
  qed
  with assms(1) have "list_all payment_typed (payments d')"
    by (auto simp: 2(6) settled_def rows_typed_def list_all_iff set_update_where)
  moreover have "attempt_typed (attempt_values (fin_attempt r (pe_finished env) ?a))"
    using attempt_check_typed [OF 2(3)] 2(5)
    by (auto simp: attempt_typed_def attempt_values_def fin_attempt_def)
  moreover have "delivery_typed (delivery_to_model (staged_delivery env c (pc_payment_id c) r))"
    by (rule delivery_check_typed [OF 2(4)])
  ultimately show ?thesis using assms(1) by (simp add: 2(6) settled_def rows_typed_def message_keys_def)
qed

lemma recorded_typed:
  assumes "recorded policy t (x, r)" and "delivery_typed (delivery_to_model x)"
  shows "\<exists>w. row_by wr_id (d_id x) t = Some w \<and> delivery_typed w"
proof (cases r)
  case None
  with assms show ?thesis by (simp add: recorded_def)
next
  case (Some s)
  with assms(1) obtain now y where y: "apply_result policy now s x = Inr y" "delivery_storable y"
    and row: "row_by wr_id (d_id x) t = Some (delivery_to_model y)" by (auto simp: recorded_def)
  from apply_result_model [OF y(1)] have "delivery_set y (delivery_to_model x) = delivery_to_model y" by simp
  moreover have "delivery_typed (delivery_set y (delivery_to_model x))"
    using assms(2) y(2) by (cases "d_status y") (simp_all add: delivery_typed_def delivery_set_def delivery_storable_def)
  ultimately show ?thesis using row by simp
qed

lemma deliver_typed:
  assumes "rows_typed d" and ok: "system_ok m d" and run: "deliver_webhooks env d = (Inr res, d')"
  shows "rows_typed d'"
proof -
  have "map wr_id (webhook_deliveries d) = map fst (delivery_keys d)" by (simp add: delivery_keys_def)
  with ok have uniq: "unique_key wr_id (webhook_deliveries d)" by (simp add: unique_key_def system_ok_def)
  from run obtain u s s' where body: "deliver_body env (on (open_session d)) = Inr (res, u)"
    and s: "u_session u = Some s" "flush s = Inr s'" "d' = s_db s'"
    by (auto simp: deliver_webhooks_def transactional_Inr)
  from deliver_body_Inr [OF uniq body] obtain ds t where
    due: "due_rows (dl_locked env) (dl_batch_size env) (dl_clock env 0) d = map delivery_to_model ds"
    and u: "u = on (open_session (d\<lparr>webhook_deliveries := t\<rparr>))"
    and ids: "map wr_id t = map wr_id (webhook_deliveries d)"
    and other: "\<And>i. i \<notin> d_id ` set ds \<Longrightarrow> row_by wr_id i t = row_by wr_id i (webhook_deliveries d)"
    and rec: "\<And>x. x \<in> set ds \<Longrightarrow> recorded (dl_policy env) t (x, send_outcome env d x)" by blast
  have d': "d' = d\<lparr>webhook_deliveries := t\<rparr>" using s by (auto simp: u)
  have old: "delivery_typed w" if "w \<in> set (webhook_deliveries d)" for w
    using assms(1) that by (simp add: rows_typed_def list_all_iff)
  have "delivery_typed w" if w: "w \<in> set t" for w
  proof -
    have row: "row_by wr_id (wr_id w) t = Some w" using row_by_unique w ids uniq by (metis unique_key_def)
    show ?thesis
    proof (cases "wr_id w \<in> d_id ` set ds")
      case True
      then obtain x where x: "x \<in> set ds" "wr_id w = d_id x" by blast
      have "delivery_to_model x \<in> set (webhook_deliveries d)" using due_rows_set due x(1) by (metis image_eqI list.set_map)
      from recorded_typed [OF rec [OF x(1)] old [OF this]] row x(2) show ?thesis by auto
    next
      case False
      with other [of "wr_id w"] row have "row_by wr_id (wr_id w) (webhook_deliveries d) = Some w" by simp
      with old row_by_SomeD show ?thesis by metis
    qed
  qed
  with assms(1) show ?thesis by (simp add: d' rows_typed_def list_all_iff message_keys_def)
qed

lemma outbox_typed:
  assumes "rows_typed d" and "f \<in> outbox_ops m a" "a \<noteq> Insert"
  shows "rows_typed (f d)"
proof -
  from outbox_op_tables [OF assms(2,3), of d] obtain P where
    "payments (f d) = payments d" "payment_attempts (f d) = payment_attempts d"
    "webhook_deliveries (f d) = webhook_deliveries d"
    and keys: "message_keys (f d) = map message_key (filter P (outbox_messages d))" by blast
  moreover have "set (message_keys (f d)) \<subseteq> set (message_keys d)" unfolding keys by (auto simp: message_keys_def)
  ultimately show ?thesis using assms(1) by (auto simp: rows_typed_def list_all_iff)
qed

lemma service_step_typed:
  "service_step m purges d d' \<Longrightarrow> system_ok m d \<Longrightarrow> rows_typed d \<Longrightarrow> rows_typed d'"
proof (induction rule: service_step.induct)
  case (create env c d res d')
  then show ?case
    by (cases res) (auto simp: create_payment_def intro: create_typed [unfolded create_payment_def] dest: transactional_error)
next
  case (process env gw seen c d res d')
  then show ?case by (blast intro: process_typed)
next
  case (deliver denv d res d')
  then show ?case
    by (cases res) (auto simp: deliver_webhooks_def intro: deliver_typed [unfolded deliver_webhooks_def] dest: transactional_error)
next
  case (read i d res d')
  then show ?case by (auto simp: get_payment_handle_eq split: option.splits sum.splits)
next
  case (outbox f a d)
  then show ?case by (blast intro: outbox_typed)
qed

lemma service_run_typed:
  assumes "service_run m purges empty_db d" and "0 < m"
  shows "rows_typed d"
  using assms(1)
proof (induction rule: rtranclp_induct)
  case base
  show ?case by (rule rows_typed_empty)
next
  case (step d d')
  have "system_ok m d" using service_run_ok [OF step(1)] system_ok_empty [OF assms(2)] by simp
  with step show ?case by (blast intro: service_step_typed)
qed

section \<open>The migrated schema\<close>

text \<open>The outbox table with the columns of the later revisions.\<close>

definition outbox_table :: table_def where
  "outbox_table = outbox_table_0002\<lparr>t_columns := t_columns outbox_table_0002 @
     [(not_null ''status'' (CVarchar 16))\<lparr>col_default := Some ''pending''\<rparr>,
      nullable ''next_retry_at'' CTimestamptz, nullable ''claimed_at'' CTimestamptz,
      nullable ''claimed_by'' CUuid, nullable ''finished_at'' CTimestamptz]\<rparr>"

lemma migrated:
  "case schema_at (length revisions) of Inl e \<Rightarrow> False | Inr s \<Rightarrow>
      sc_tables s = [payments_table_0002, attempts_table_0002, outbox_table, deliveries_table_0002] \<and>
      filter ix_unique (sc_indexes s) =
        [(plain_index ''ix_payments_idempotency_key'' ''payments'' [''idempotency_key''])\<lparr>ix_unique := True\<rparr>]"
  by code_simp

lemma migrated_tables:
  assumes "schema_at (length revisions) = Inr s"
  shows "sc_tables s = [payments_table_0002, attempts_table_0002, outbox_table, deliveries_table_0002]"
    and "filter ix_unique (sc_indexes s) =
      [(plain_index ''ix_payments_idempotency_key'' ''payments'' [''idempotency_key''])\<lparr>ix_unique := True\<rparr>]"
  using migrated assms by simp_all

lemma parsed_checks [simp]:
  "parse_check ''amount > 0'' = Some (Positive ''amount'')"
  "parse_check ''attempt_number > 0'' = Some (Positive ''attempt_number'')"
  "parse_check ''currency IN ('RUB', 'USD', 'EUR')'' = Some (OneOf ''currency'' [''RUB'', ''USD'', ''EUR''])"
  "parse_check ''status IN ('pending', 'processing', 'succeeded', 'failed')'' =
     Some (OneOf ''status'' [''pending'', ''processing'', ''succeeded'', ''failed''])"
  "parse_check ''status IN ('created', 'processing', 'succeeded', 'failed')'' =
     Some (OneOf ''status'' [''created'', ''processing'', ''succeeded'', ''failed''])"
  "parse_check ''status IN ('pending', 'success', 'failed')'' = Some (OneOf ''status'' [''pending'', ''success'', ''failed''])"
  "parse_check
    [CHR ''w'', CHR ''e'', CHR ''b'', CHR ''h'', CHR ''o'', CHR ''o'', CHR ''k'', CHR ''_'', CHR ''u'',
     CHR ''r'', CHR ''l'', CHR '' '', CHR ''~'', CHR '' '', CHR 0x27, CHR ''^'', CHR ''h'', CHR ''t'',
     CHR ''t'', CHR ''p'', CHR ''s'', CHR ''?'', CHR '':'', CHR ''/'', CHR ''/'', CHR 0x27] =
     Some (HttpUrl ''webhook_url'')"
  by code_simp+

lemma sql_opt_null [simp]: "(\<And>a. f a \<noteq> SNull) \<Longrightarrow> sql_opt f x = SNull \<longleftrightarrow> x = None"
  by (cases x) (auto simp: sql_opt_def)

lemma opt_column [simp]:
  "(\<And>a. f a \<noteq> SNull) \<Longrightarrow>
     column_ok (nullable n t) (sql_opt f x) \<longleftrightarrow> (case x of None \<Rightarrow> True | Some a \<Rightarrow> has_type t (f a))"
  by (cases x) (auto simp: column_ok_def nullable_def sql_opt_def)

lemma plain_column [simp]: "v \<noteq> SNull \<Longrightarrow> column_ok (not_null n t) v \<longleftrightarrow> has_type t v"
  by (simp add: column_ok_def not_null_def)

lemma col_names [simp]: "col_name (not_null n t) = n" "col_name (nullable n t) = n"
  by (simp_all add: not_null_def nullable_def)

lemma opt_always [simp]: "(case x of None \<Rightarrow> True | Some a \<Rightarrow> True)"
  by (simp split: option.split)

lemma payment_cells_conform:
  assumes "payment_typed r"
  shows "row_conforms payments_table_0002 (payment_cells r)"
proof -
  have "varchar 3 (pr_currency r)" "text_ok (pr_currency r)" "varchar 16 (pr_status r)" "text_ok (pr_status r)"
    "int4 (pr_version r)" "case pr_description r of None \<Rightarrow> True | Some a \<Rightarrow> text_ok a"
    "case pr_correlation_id r of None \<Rightarrow> True | Some a \<Rightarrow> varchar 64 a \<and> text_ok a"
    "has_type (CNumeric 18 2) (SNumeric (pr_amount r))"
    using assms by (auto simp: payment_typed_def varchar_def int4_def text_opt_def corr_ok_def varchar_opt_def split: option.splits)
  with assms show ?thesis
    by (simp add: row_conforms_def payments_table_0002_def payment_cells_def payment_typed_def cong: option.case_cong)
qed

lemma attempt_cells_conform:
  assumes "attempt_typed r"
  shows "row_conforms attempts_table_0002 (attempt_cells r)"
proof -
  have "varchar 16 (ar_status r)" "text_ok (ar_status r)" "case ar_error r of None \<Rightarrow> True | Some a \<Rightarrow> text_ok a"
    "case ar_correlation_id r of None \<Rightarrow> True | Some a \<Rightarrow> varchar 64 a \<and> text_ok a"
    "case ar_gateway_response r of None \<Rightarrow> True | Some g \<Rightarrow> json_dict g \<and> json_text (VDict g)"
    using assms by (auto simp: attempt_typed_def varchar_def text_opt_def corr_ok_def varchar_opt_def res_simps split: option.splits)
  with assms show ?thesis
    by (simp add: row_conforms_def attempts_table_0002_def attempt_cells_def attempt_typed_def
        del: json_text.simps cong: option.case_cong)
qed

lemma outbox_cells_conform:
  assumes "message_typed (message_key r)" "outbox_row_ok m r" "int4 m"
  shows "row_conforms outbox_table (outbox_cells r)"
proof -
  have "varchar 16 (ob_status r)" "text_ok (ob_status r)" "int4 (ob_attempts r)"
    "case ob_correlation_id r of None \<Rightarrow> True | Some a \<Rightarrow> varchar 64 a \<and> text_ok a"
    using assms by (auto simp: outbox_row_ok_def message_key_def varchar_def int4_def text_opt_def corr_ok_def
        varchar_opt_def split: option.splits)
  moreover have "column_ok ((not_null ''status'' (CVarchar 16))\<lparr>col_default := x\<rparr>) (SText t) \<longleftrightarrow>
      varchar 16 t \<and> text_ok t" for x t
    by (simp add: column_ok_def not_null_def)
  moreover have "col_name ((not_null n t)\<lparr>col_default := x\<rparr>) = n" for n t x by (simp add: not_null_def)
  ultimately show ?thesis using assms(1)
    by (simp add: row_conforms_def outbox_table_def outbox_table_0002_def outbox_cells_def message_key_def
        del: json_text.simps cong: option.case_cong)
qed

lemma delivery_cells_conform:
  assumes "delivery_typed r"
  shows "row_conforms deliveries_table_0002 (delivery_cells r)"
proof -
  have "varchar 16 (wr_status r)" "text_ok (wr_status r)" "case wr_response_body r of None \<Rightarrow> True | Some a \<Rightarrow> text_ok a"
    "case wr_correlation_id r of None \<Rightarrow> True | Some a \<Rightarrow> varchar 64 a \<and> text_ok a"
    using assms by (auto simp: delivery_typed_def varchar_def text_opt_def corr_ok_def varchar_opt_def split: option.splits)
  with assms show ?thesis
    by (simp add: row_conforms_def deliveries_table_0002_def delivery_cells_def delivery_typed_def cong: option.case_cong)
qed

text \<open>Keys of one column that is never NULL.\<close>

lemma single_keys:
  assumes "\<And>r. map_of (cells r) c = Some (f r)" "\<And>r. f r \<noteq> SNull"
  shows "full_keys [c] (map cells rs) = map (\<lambda>r. [Some (f r)]) rs"
    and "map (key_of [c]) (map cells rs) = map (\<lambda>r. [Some (f r)]) rs"
proof -
  show keys: "map (key_of [c]) (map cells rs) = map (\<lambda>r. [Some (f r)]) rs"
    by (simp add: key_of_def assms(1))
  show "full_keys [c] (map cells rs) = map (\<lambda>r. [Some (f r)]) rs"
    unfolding full_keys_def keys using assms(2) by (auto simp: filter_id_conv) (metis)
qed

lemma id_keys_distinct: "unique_key f rs \<Longrightarrow> inj g \<Longrightarrow> distinct (map (\<lambda>r. [Some (g (f r))]) rs)"
  by (induction rs) (auto simp: unique_key_def inj_def)

lemma sql_inj: "inj SUuid" "inj SText"
  by (simp_all add: inj_def)

lemma table_rows_simps [simp]:
  "table_rows d ''payments'' = map payment_cells (payments d)"
  "table_rows d ''payment_attempts'' = map attempt_cells (payment_attempts d)"
  "table_rows d ''outbox_messages'' = map outbox_cells (outbox_messages d)"
  "table_rows d ''webhook_deliveries'' = map delivery_cells (webhook_deliveries d)"
  by (simp_all add: table_rows_def)

lemma payment_keys:
  "full_keys [''id''] (map payment_cells rs) = map (\<lambda>r. [Some (SUuid (pr_id r))]) rs"
  "map (key_of [''id'']) (map payment_cells rs) = map (\<lambda>r. [Some (SUuid (pr_id r))]) rs"
  "full_keys [''idempotency_key''] (map payment_cells rs) = map (\<lambda>r. [Some (SText (pr_idempotency_key r))]) rs"
  by (rule single_keys; simp add: payment_cells_def)+

lemma attempt_keys:
  "full_keys [''id''] (map attempt_cells rs) = map (\<lambda>r. [Some (SUuid (ar_id r))]) rs"
  "full_keys [''payment_id''] (map attempt_cells rs) = map (\<lambda>r. [Some (SUuid (ar_payment_id r))]) rs"
  by (rule single_keys; simp add: attempt_cells_def)+

lemma outbox_keys:
  "full_keys [''id''] (map outbox_cells rs) = map (\<lambda>r. [Some (SUuid (ob_id r))]) rs"
  by (rule single_keys; simp add: outbox_cells_def)

lemma delivery_row_keys:
  "full_keys [''id''] (map delivery_cells rs) = map (\<lambda>r. [Some (SUuid (wr_id r))]) rs"
  "full_keys [''payment_id''] (map delivery_cells rs) = map (\<lambda>r. [Some (SUuid (wr_payment_id r))]) rs"
  by (rule single_keys; simp add: delivery_cells_def)+

lemma payments_conform:
  assumes "list_all payment_typed (payments d)" "unique_key pr_id (payments d)"
  shows "table_conforms (table_rows d) payments_table_0002"
proof -
  have "list_all (row_conforms payments_table_0002) (map payment_cells (payments d))"
    using assms(1) by (auto simp: list_all_iff intro: payment_cells_conform)
  moreover have "list_all (check_holds x) (map payment_cells (payments d))"
    if "x \<in> {Positive ''amount'', OneOf ''currency'' [''RUB'', ''USD'', ''EUR''],
        OneOf ''status'' [''pending'', ''processing'', ''succeeded'', ''failed''], HttpUrl ''webhook_url''}" for x
    using assms(1) that by (auto simp: list_all_iff payment_cells_def payment_typed_def)
  moreover have "list_all (\<lambda>r. Some SNull \<notin> set (key_of [''id''] r)) (map payment_cells (payments d))"
    by (simp add: list_all_iff key_of_def payment_cells_def)
  ultimately show ?thesis
    using id_keys_distinct [OF assms(2) sql_inj(1)]
    by (simp add: table_conforms_def payment_keys payments_table_0002_def [THEN arg_cong, of t_name]
        payments_table_0002_def [THEN arg_cong, of t_constraints])
qed

lemma reference_holds:
  assumes "\<And>x. x \<in> set xs \<Longrightarrow> g x \<in> pr_id ` set (payments d)"
  shows "set (map (\<lambda>x. [Some (SUuid (g x))]) xs) \<subseteq>
    set (map (\<lambda>r. [Some (SUuid (pr_id r))]) (payments d))"
  using assms by fastforce

lemma attempts_conform:
  assumes "list_all attempt_typed (payment_attempts d)" "unique_key ar_id (payment_attempts d)"
    and "\<And>a. a \<in> set (payment_attempts d) \<Longrightarrow> ar_payment_id a \<in> pr_id ` set (payments d)"
  shows "table_conforms (table_rows d) attempts_table_0002"
proof -
  have "list_all (row_conforms attempts_table_0002) (map attempt_cells (payment_attempts d))"
    using assms(1) by (auto simp: list_all_iff intro: attempt_cells_conform)
  moreover have "list_all (check_holds x) (map attempt_cells (payment_attempts d))"
    if "x \<in> {Positive ''attempt_number'', OneOf ''status'' [''created'', ''processing'', ''succeeded'', ''failed'']}" for x
    using assms(1) that by (auto simp: list_all_iff attempt_cells_def attempt_typed_def)
  moreover have "list_all (\<lambda>r. Some SNull \<notin> set (key_of [''id''] r)) (map attempt_cells (payment_attempts d))"
    by (simp add: list_all_iff key_of_def attempt_cells_def)
  ultimately show ?thesis
    using id_keys_distinct [OF assms(2) sql_inj(1)] reference_holds [OF assms(3)]
    by (simp add: table_conforms_def attempt_keys payment_keys(2) [unfolded list.map_comp]
        attempts_table_0002_def [THEN arg_cong, of t_name] attempts_table_0002_def [THEN arg_cong, of t_constraints]
        del: list.map_comp set_map)
qed

lemma outbox_conforms:
  assumes "list_all message_typed (message_keys d)" "outbox_ok m d" "int4 m"
  shows "table_conforms (table_rows d) outbox_table"
proof -
  have "list_all (row_conforms outbox_table) (map outbox_cells (outbox_messages d))"
    using assms by (auto simp: list_all_iff message_keys_def outbox_ok_def intro: outbox_cells_conform)
  moreover have "list_all (\<lambda>r. Some SNull \<notin> set (key_of [''id''] r)) (map outbox_cells (outbox_messages d))"
    by (simp add: list_all_iff key_of_def outbox_cells_def)
  moreover have "unique_key ob_id (outbox_messages d)" using assms(2) by (simp add: outbox_ok_def)
  ultimately show ?thesis
    using id_keys_distinct [OF _ sql_inj(1)]
    by (simp add: table_conforms_def outbox_keys outbox_table_def [THEN arg_cong, of t_name]
        outbox_table_def [THEN arg_cong, of t_constraints] outbox_table_0002_def [THEN arg_cong, of t_name]
        outbox_table_0002_def [THEN arg_cong, of t_constraints])
qed

lemma deliveries_conform:
  assumes "list_all delivery_typed (webhook_deliveries d)" "unique_key wr_id (webhook_deliveries d)"
    and "\<And>w. w \<in> set (webhook_deliveries d) \<Longrightarrow> wr_payment_id w \<in> pr_id ` set (payments d)"
  shows "table_conforms (table_rows d) deliveries_table_0002"
proof -
  have "list_all (row_conforms deliveries_table_0002) (map delivery_cells (webhook_deliveries d))"
    using assms(1) by (auto simp: list_all_iff intro: delivery_cells_conform)
  moreover have "list_all (check_holds (OneOf ''status'' [''pending'', ''success'', ''failed''])) (map delivery_cells (webhook_deliveries d))"
    using assms(1) by (auto simp: list_all_iff delivery_cells_def delivery_typed_def)
  moreover have "list_all (\<lambda>r. Some SNull \<notin> set (key_of [''id''] r)) (map delivery_cells (webhook_deliveries d))"
    by (simp add: list_all_iff key_of_def delivery_cells_def)
  ultimately show ?thesis
    using id_keys_distinct [OF assms(2) sql_inj(1)] reference_holds [OF assms(3)]
    by (simp add: table_conforms_def delivery_row_keys payment_keys(2) [unfolded list.map_comp]
        deliveries_table_0002_def [THEN arg_cong, of t_name] deliveries_table_0002_def [THEN arg_cong, of t_constraints]
        del: list.map_comp set_map)
qed

text \<open>
  Property C5. The database is well-typed. In every reachable state, whatever clients, merchants, the
  gateway and the broker have sent, the four tables conform to the schema the migrations build: every
  cell has its column's type within its bounds, or is NULL where that is allowed, every check
  constraint holds, keys are unique, and every reference leads to a payment.
\<close>

theorem database_conforms:
  assumes "0 < m" and "int4 m" and "service_run m purges empty_db d"
    and "schema_at (length revisions) = Inr s"
  shows "conforms s (table_rows d)"
proof -
  have ok: "system_ok m d" using service_run_ok [OF assms(3)] system_ok_empty [OF assms(1)] by simp
  have typed: "list_all payment_typed (payments d)" "list_all attempt_typed (payment_attempts d)"
    "list_all message_typed (message_keys d)" "list_all delivery_typed (webhook_deliveries d)"
    using service_run_typed [OF assms(3,1)] by (simp_all add: rows_typed_def)
  have keys: "unique_key pr_id (payments d)" "unique_key pr_idempotency_key (payments d)"
    "unique_key ar_id (payment_attempts d)" "outbox_ok m d"
    using ok by (simp_all add: system_ok_def)
  have "map wr_id (webhook_deliveries d) = map fst (delivery_keys d)" by (simp add: delivery_keys_def)
  with ok have wkey: "unique_key wr_id (webhook_deliveries d)" by (simp add: unique_key_def system_ok_def)
  have aref: "ar_payment_id a \<in> pr_id ` set (payments d)" if "a \<in> set (payment_attempts d)" for a
    using ok that unfolding system_ok_def by blast
  have wref: "wr_payment_id w \<in> pr_id ` set (payments d)" if "w \<in> set (webhook_deliveries d)" for w
  proof -
    have "\<forall>k \<in> set (delivery_keys d). fst (snd k) \<in> pr_id ` set (payments d)"
      using ok by (auto simp: system_ok_def split_beta)
    with that show ?thesis by (auto simp: delivery_keys_def)
  qed
  have "constraint_holds (table_rows d) (table_rows d ''payments'') (Unique [''idempotency_key''])"
    using id_keys_distinct [OF keys(2) sql_inj(2)] by (simp add: payment_keys)
  moreover have "ix \<in> set (filter ix_unique (sc_indexes s)) \<Longrightarrow>
      ix_table ix = ''payments'' \<and> ix_columns ix = [''idempotency_key'']" for ix
    unfolding migrated_tables(2) [OF assms(4)] by (simp add: plain_index_def)
  ultimately have "list_all (\<lambda>i. ix_unique i \<longrightarrow>
      constraint_holds (table_rows d) (table_rows d (ix_table i)) (Unique (ix_columns i))) (sc_indexes s)"
    by (auto simp: list_all_iff)
  with payments_conform [OF typed(1) keys(1)] attempts_conform [OF typed(2) keys(3) aref]
    outbox_conforms [OF typed(3) keys(4) assms(2)] deliveries_conform [OF typed(4) wkey wref]
  show ?thesis by (simp add: conforms_def migrated_tables(1) [OF assms(4)])
qed

theorem database_conforms_witness:
  "\<exists>s. schema_at (length revisions) = Inr s \<and> conforms s (table_rows demo_settled) \<and> payments demo_settled \<noteq> []"
proof -
  obtain s where s: "schema_at (length revisions) = Inr s" using migrated by (auto split: sum.splits)
  have "int4 5" by (simp add: int4_def)
  from database_conforms [OF _ this demo_runs(3) s] demo_settled_state(2) s show ?thesis by force
qed

end
