(* ===== verification/DeliveryProgress.thy ===== *)
theory DeliveryProgress
  imports Webhook Conformance
begin

text \<open>
  The webhook worker makes progress (\<open>infrastructure/webhook/worker.py\<close>, \<open>run\<close>): the sends that a
  delivery still has under the retry policy are a measure that every recorded batch lowers. With a
  sender that always answers, every batch is recorded, so the worker gives each pending delivery
  its final status after finitely many sends.
\<close>

section \<open>The loop\<close>

text \<open>
  \<open>while True\<close>, cut off after a number of turns: one environment per turn. The sleep between the
  turns is the difference of their clocks.
\<close>

fun webhook_loop :: "deliver_env list \<Rightarrow> db \<Rightarrow> (exn + unit) \<times> metric list \<times> db" where
  "webhook_loop [] d = (Inr (), [], d)"
| "webhook_loop (env # envs) d =
     (case webhook_cycle env d of
        (Inl e, em, d') \<Rightarrow> (Inl e, em, d')
      | (Inr _, em, d') \<Rightarrow> (let (r, em', d'') = webhook_loop envs d' in (r, em @ em', d'')))"

section \<open>The measure\<close>

text \<open>How many sends a delivery can still see, and all deliveries of the table together.\<close>

definition row_work :: "int \<Rightarrow> delivery_row \<Rightarrow> nat" where
  "row_work m r = (if wr_status r = ''pending'' then Suc (nat (m - wr_attempt r)) else 0)"

definition delivery_work :: "int \<Rightarrow> db \<Rightarrow> nat" where
  "delivery_work m d = (\<Sum>r \<leftarrow> webhook_deliveries d. row_work m r)"

definition some_pending :: "db \<Rightarrow> bool" where
  "some_pending d \<longleftrightarrow> list_ex (\<lambda>r. wr_status r = ''pending'') (webhook_deliveries d)"

lemma delivery_work_0: "delivery_work m d = 0 \<longleftrightarrow> \<not> some_pending d"
  by (auto simp: delivery_work_def some_pending_def list_ex_iff row_work_def sum_list_eq_0_iff)

lemma row_by_id: "unique_key f t \<Longrightarrow> r \<in> set t \<Longrightarrow> the (row_by f (f r) t) = r"
  by (simp add: row_by_unique)

lemma sum_rows:
  assumes "unique_key f t"
  shows "(\<Sum>r \<leftarrow> t. g r) = (\<Sum>i \<in> f ` set t. g (the (row_by f i t)))"
proof -
  from assms have inj: "inj_on f (set t)" and dist: "distinct t"
    by (auto simp: unique_key_def distinct_map)
  have "(\<Sum>i \<in> f ` set t. g (the (row_by f i t))) = (\<Sum>r \<in> set t. g (the (row_by f (f r) t)))"
    by (simp add: sum.reindex [OF inj])
  also have "\<dots> = (\<Sum>r \<in> set t. g r)" by (rule sum.cong) (simp_all add: row_by_id [OF assms])
  finally show ?thesis using dist by (simp add: sum_list_distinct_conv_sum_set)
qed

lemma apply_result_work:
  "apply_result policy now r x = Inr y \<Longrightarrow>
     Suc (row_work (max_attempts policy) (delivery_to_model y)) \<le> row_work (max_attempts policy) (delivery_to_model x)"
  by (auto simp: apply_result_def delivery_ops_Inr row_work_def delivery_to_model_def should_retry_def
      split: if_splits)

section \<open>Which tables the worker can serve\<close>

text \<open>
  The rows are readable and belong to readable payments with metadata that JSON can express. The
  sender is one that never raises for such a payment and whose answers the columns can store.
\<close>

definition sendable :: "payment_row \<Rightarrow> bool" where
  "sendable r \<longleftrightarrow> (case payment_to_domain r of Inl _ \<Rightarrow> False | Inr p \<Rightarrow> json_dict (p_metadata p))"

lemma sendable_iff: "sendable r \<longleftrightarrow> (\<exists>p. payment_to_domain r = Inr p \<and> json_dict (p_metadata p))"
  by (simp add: sendable_def split: sum.split)

definition deliverable :: "db \<Rightarrow> bool" where
  "deliverable d \<longleftrightarrow> unique_key wr_id (webhook_deliveries d) \<and>
     list_all (\<lambda>w. delivery_row_ok w \<and> int4 (wr_attempt w) \<and>
       (case row_by pr_id (wr_payment_id w) (payments d) of
          None \<Rightarrow> False | Some r \<Rightarrow> sendable r)) (webhook_deliveries d)"

definition answer_storable :: "send_result \<Rightarrow> bool" where
  "answer_storable s \<longleftrightarrow> text_opt (ws_body s) \<and> (case ws_status_code s of None \<Rightarrow> True | Some c \<Rightarrow> int4 c)"

definition good_env :: "int \<Rightarrow> deliver_env \<Rightarrow> bool" where
  "good_env m env \<longleftrightarrow> max_attempts (dl_policy env) = m \<and> 0 < dl_batch_size env \<and> 0 < dl_concurrency env \<and>
     (\<forall>p x. json_dict (p_metadata p) \<longrightarrow> (\<exists>s. dl_sender env p x = Inr s \<and> answer_storable s))"

text \<open>Every turn that finds a pending delivery finds one that is due and not locked.\<close>

fun timely :: "deliver_env list \<Rightarrow> db \<Rightarrow> bool" where
  "timely [] d = True"
| "timely (env # envs) d \<longleftrightarrow>
     (some_pending d \<longrightarrow> due_rows (dl_locked env) (dl_batch_size env) (dl_clock env 0) d \<noteq> []) \<and>
     timely envs (snd (snd (webhook_cycle env d)))"

definition failed_sends :: "metric list \<Rightarrow> nat" where
  "failed_sends em = (\<Sum>x \<leftarrow> em. case x of WebhookFailures n \<Rightarrow> n | _ \<Rightarrow> 0)"

lemma failed_sends_append [simp]: "failed_sends (xs @ ys) = failed_sends xs + failed_sends ys"
  by (simp add: failed_sends_def)

lemma deliverable_row:
  assumes "deliverable d" "w \<in> set (webhook_deliveries d)"
  obtains x r p where "w = delivery_to_model x" "int4 (d_attempt x)"
    "row_by pr_id (d_payment_id x) (payments d) = Some r" "payment_to_domain r = Inr p" "json_dict (p_metadata p)"
proof -
  from assms have "delivery_row_ok w" "int4 (wr_attempt w)"
    "case row_by pr_id (wr_payment_id w) (payments d) of None \<Rightarrow> False | Some r \<Rightarrow> sendable r"
    by (auto simp: deliverable_def list_all_iff)
  moreover then obtain x where "w = delivery_to_model x"
    using delivery_row_ok_to_domain delivery_to_domain_Inr by blast
  ultimately show thesis
    using that by (auto simp: delivery_to_model_def sendable_iff split: option.splits)
qed

lemma deliverable_due:
  assumes "deliverable d"
  obtains ds where "due_rows l n now d = map delivery_to_model ds"
    "\<And>x. x \<in> set ds \<Longrightarrow> d_status x = DPending \<and> int4 (d_attempt x) \<and>
      (\<exists>r p. row_by pr_id (d_payment_id x) (payments d) = Some r \<and> payment_to_domain r = Inr p \<and> json_dict (p_metadata p))"
proof -
  let ?rows = "due_rows l n now d"
  have "\<exists>x. w = delivery_to_model x" if "w \<in> set ?rows" for w
    using deliverable_row [OF assms] due_rows_set [OF that] by metis
  then have "\<exists>f. \<forall>w \<in> set ?rows. w = delivery_to_model (f w)" by metis
  then obtain f where f: "\<forall>w \<in> set ?rows. w = delivery_to_model (f w)" by blast
  define ds where "ds = map f ?rows"
  have rows: "?rows = map delivery_to_model ds" using f by (simp add: ds_def map_idI)
  show thesis
  proof (rule that [OF rows])
    fix x assume "x \<in> set ds"
    then have "delivery_to_model x \<in> set ?rows" by (simp add: rows)
    from due_rows_set [OF this] have mem: "delivery_to_model x \<in> set (webhook_deliveries d)"
      and due: "due now (delivery_to_model x)" by simp_all
    from due have "d_status x = DPending" by (cases "d_status x") (simp_all add: due_def delivery_to_model_def)
    moreover obtain y r p where y: "delivery_to_model x = delivery_to_model y" "int4 (d_attempt y)"
      "row_by pr_id (d_payment_id y) (payments d) = Some r" "payment_to_domain r = Inr p" "json_dict (p_metadata p)"
      by (rule deliverable_row [OF assms mem])
    moreover from y(1) have "x = y" by (metis delivery_to_domain_model sum.inject(2))
    ultimately show "d_status x = DPending \<and> int4 (d_attempt x) \<and>
      (\<exists>r p. row_by pr_id (d_payment_id x) (payments d) = Some r \<and> payment_to_domain r = Inr p \<and> json_dict (p_metadata p))" by blast
  qed
qed

section \<open>A batch is recorded\<close>

lemma load_payments_total:
  assumes "\<And>x. x \<in> set ds \<Longrightarrow> \<exists>r p. row_by pr_id (d_payment_id x) (payments d) = Some r \<and> payment_to_domain r = Inr p"
  shows "\<exists>qs. load_payments ds ps (on (open_session d)) = Inr (qs, on (open_session d))"
  using assms
proof (induction ds arbitrary: ps)
  case (Cons x xs)
  then obtain r p where "row_by pr_id (d_payment_id x) (payments d) = Some r" "payment_to_domain r = Inr p"
    by (meson list.set_intros(1))
  with Cons show ?case
    by (auto simp: bind_act_def repo_on get_payment_def map_row_def)
qed (simp add: return_act_def)

lemma send_all_total:
  assumes "0 \<le> n" and "\<And>x. x \<in> set ds \<Longrightarrow> \<exists>y. send_one send ps x = Inr y"
  shows "\<exists>rs. send_all send n ps ds = Inr rs"
proof -
  from assms(2) have "\<exists>rs. mapM_res (send_one send ps) ds = Inr rs" by (intro mapM_res_exists)
  with assms(1) show ?thesis by (simp add: send_all_def)
qed

lemma record_result_total:
  assumes "d_status x = DPending" "int4 (d_attempt x)" "max_attempts policy < 2 ^ 31" "answer_storable r"
  shows "\<exists>b t. record_result policy now x r (on (open_session d)) =
    Inr (b, on (open_session (d\<lparr>webhook_deliveries := t\<rparr>)))"
proof -
  have "\<exists>y. apply_result policy now r x = Inr y \<and> int4 (d_attempt y) \<and>
      d_response_code y = ws_status_code r \<and> d_response_body y = ws_body r"
    using assms(1-3) by (auto simp: apply_result_def delivery_ops_Inr should_retry_def int4_def)
  with assms(4) show ?thesis
    by (auto simp: record_result_def bind_act_def lift_act_def repo_on delivery_update_def return_act_def
        answer_storable_def params_check_def split: option.splits)
qed

lemma record_all_total:
  assumes "\<And>x r. (x, Some r) \<in> set rs \<Longrightarrow> d_status x = DPending \<and> int4 (d_attempt x) \<and> answer_storable r"
    and "max_attempts (dl_policy env) < 2 ^ 31"
  shows "\<exists>k t. record_all env n rs f (on (open_session d)) =
    Inr (k, on (open_session (d\<lparr>webhook_deliveries := t\<rparr>)))"
  using assms
proof (induction env n rs f arbitrary: d rule: record_all.induct)
  case (1 env n f)
  have "d = d\<lparr>webhook_deliveries := webhook_deliveries d\<rparr>" by simp
  then show ?case by (metis record_all.simps(1) return_act_def)
next
  case (2 env n x rs f)
  then show ?case by simp
next
  case (3 env n x r rs f)
  then obtain b t where "record_result (dl_policy env) (dl_clock env n) x r (on (open_session d)) =
      Inr (b, on (open_session (d\<lparr>webhook_deliveries := t\<rparr>)))"
    using record_result_total by (meson list.set_intros(1))
  with "3.IH" [of b "d\<lparr>webhook_deliveries := t\<rparr>"] "3.prems" show ?case
    by (fastforce simp: bind_act_def)
qed

lemma delivery_batch_completes:
  assumes d: "deliverable d" and good: "good_env m env" and m: "m < 2 ^ 31"
  shows "\<exists>res u. deliver_body env (on (open_session d)) = Inr (res, u)"
proof -
  from good have env: "max_attempts (dl_policy env) = m" "0 < dl_batch_size env" "0 < dl_concurrency env"
    and send: "\<And>p x. json_dict (p_metadata p) \<Longrightarrow> \<exists>s. dl_sender env p x = Inr s \<and> answer_storable s"
    by (auto simp: good_env_def)
  obtain ds where rows: "due_rows (dl_locked env) (dl_batch_size env) (dl_clock env 0) d = map delivery_to_model ds"
    and ok: "\<And>x. x \<in> set ds \<Longrightarrow> d_status x = DPending \<and> int4 (d_attempt x) \<and>
      (\<exists>r p. row_by pr_id (d_payment_id x) (payments d) = Some r \<and> payment_to_domain r = Inr p \<and> json_dict (p_metadata p))"
    by (rule deliverable_due [OF d, of "dl_locked env" "dl_batch_size env" "dl_clock env 0"]) (rule that)
  have claim: "claim_due (dl_locked env) (dl_batch_size env) (dl_clock env 0) (open_session d) = Inr (ds, open_session d)"
    by (rule claim_due_ok [OF rows]) (use env in simp)
  obtain qs where load: "load_payments ds (\<lambda>_. None) (on (open_session d)) = Inr (qs, on (open_session d))"
    using load_payments_total ok by blast
  have answer: "\<exists>s. send_one (dl_sender env) qs x = Inr (x, Some s) \<and> answer_storable s" if x: "x \<in> set ds" for x
  proof -
    obtain r p where "row_by pr_id (d_payment_id x) (payments d) = Some r" "payment_to_domain r = Inr p"
      and json: "json_dict (p_metadata p)" using ok [OF x] by blast
    then have "qs (d_payment_id x) = Some (Some p)" using load_payments_on [OF load] x by fastforce
    with send [OF json, of x] show ?thesis by (auto simp: send_one_def)
  qed
  obtain rs where sent: "send_all (dl_sender env) (dl_concurrency env) qs ds = Inr rs"
    using send_all_total [of "dl_concurrency env" ds "dl_sender env" qs] env(3) answer by fastforce
  have "d_status x = DPending \<and> int4 (d_attempt x) \<and> answer_storable r" if "(x, Some r) \<in> set rs" for x r
  proof -
    have "x \<in> set ds" using send_all_fst [OF sent] that by force
    moreover from answer [OF this] have "answer_storable r" using send_all_set [OF sent that] by auto
    ultimately show ?thesis using ok by blast
  qed
  from record_all_total [OF this, of rs env 1 0 d] env(1) m
  obtain k t where "record_all env 1 rs 0 (on (open_session d)) =
      Inr (k, on (open_session (d\<lparr>webhook_deliveries := t\<rparr>)))" by auto
  with claim load sent show ?thesis
    by (simp add: deliver_body_def bind_act_def repo_on lift_act_def return_act_def)
qed

section \<open>A batch lowers the measure\<close>

text \<open>
  What a recorded batch does to the table: the ids and payments of the rows stay, the claimed rows
  are rewritten with less work left, the others are kept.
\<close>

lemma delivery_batch_progress:
  assumes d: "deliverable d" and good: "good_env m env" and m: "m < 2 ^ 31"
  shows "\<exists>res d'. deliver_webhooks env d = (Inr res, d') \<and> deliverable d' \<and>
    delivery_work m d' + br_processed res \<le> delivery_work m d \<and> br_failures res \<le> br_processed res \<and>
    (due_rows (dl_locked env) (dl_batch_size env) (dl_clock env 0) d \<noteq> [] \<longrightarrow> 0 < br_processed res)"
proof -
  from good have pol: "max_attempts (dl_policy env) = m"
    and send: "\<And>p x. json_dict (p_metadata p) \<Longrightarrow> \<exists>s. dl_sender env p x = Inr s \<and> answer_storable s"
    by (auto simp: good_env_def)
  from d have uniq: "unique_key wr_id (webhook_deliveries d)" by (simp add: deliverable_def)
  obtain res u where body: "deliver_body env (on (open_session d)) = Inr (res, u)"
    using delivery_batch_completes [OF assms] by blast
  from deliver_body_Inr [OF uniq body] obtain ds t where
    rows: "due_rows (dl_locked env) (dl_batch_size env) (dl_clock env 0) d = map delivery_to_model ds"
    and u: "u = on (open_session (d\<lparr>webhook_deliveries := t\<rparr>))"
    and ids: "map wr_id t = map wr_id (webhook_deliveries d)"
    and others: "\<forall>i. i \<notin> d_id ` set ds \<longrightarrow> row_by wr_id i t = row_by wr_id i (webhook_deliveries d)"
    and rec: "\<forall>x \<in> set ds. recorded (dl_policy env) t (x, send_outcome env d x)"
    and res: "br_processed res = length ds"
      "br_failures res = length (filter (\<lambda>x. is_failed (x, send_outcome env d x)) ds)" by blast
  let ?d' = "d\<lparr>webhook_deliveries := t\<rparr>"
  have run: "deliver_webhooks env d = (Inr res, ?d')"
    using body u by (simp add: deliver_webhooks_def transactional_commit)
  note claimed = claimed_rows [OF rows uniq]
  have uniq': "unique_key wr_id t" using uniq ids by (simp add: unique_key_def)
  have new: "\<exists>y. row_by wr_id (d_id x) t = Some (delivery_to_model y) \<and> d_payment_id y = d_payment_id x \<and>
      int4 (d_attempt y) \<and> Suc (row_work m (delivery_to_model y)) \<le> row_work m (delivery_to_model x)"
    if x: "x \<in> set ds" for x
  proof -
    have "row_by wr_id (d_id x) (webhook_deliveries d) = Some (delivery_to_model x)" by (rule claimed(2) [OF x])
    then have mem: "delivery_to_model x \<in> set (webhook_deliveries d)" using row_by_SomeD by metis
    obtain z r p where "delivery_to_model x = delivery_to_model z"
      "row_by pr_id (d_payment_id z) (payments d) = Some r" "payment_to_domain r = Inr p"
      and json: "json_dict (p_metadata p)"
      by (rule deliverable_row [OF d mem])
    moreover from this(1) have "x = z" by (metis delivery_to_domain_model sum.inject(2))
    moreover obtain s where "dl_sender env p x = Inr s" using send [OF json] by blast
    ultimately have "send_outcome env d x = Some s" by (simp add: send_outcome_def)
    with rec x obtain now y where y: "apply_result (dl_policy env) now s x = Inr y" "delivery_storable y"
      "row_by wr_id (d_id x) t = Some (delivery_to_model y)" by (fastforce simp: recorded_def)
    moreover from y(1) have "d_payment_id y = d_payment_id x"
      by (auto simp: apply_result_def delivery_ops_Inr split: if_splits)
    ultimately show ?thesis using apply_result_work [OF y(1)] by (auto simp: pol delivery_storable_def)
  qed
  have "deliverable ?d'"
  proof -
    have "delivery_row_ok w \<and> int4 (wr_attempt w) \<and>
       (case row_by pr_id (wr_payment_id w) (payments d) of None \<Rightarrow> False | Some r \<Rightarrow> sendable r)"
      if w: "w \<in> set t" for w
    proof (cases "wr_id w \<in> d_id ` set ds")
      case True
      then obtain x where x: "x \<in> set ds" "wr_id w = d_id x" by blast
      from new [OF x(1)] obtain y where y: "row_by wr_id (d_id x) t = Some (delivery_to_model y)"
        "d_payment_id y = d_payment_id x" "int4 (d_attempt y)" by blast
      have w_eq: "w = delivery_to_model y" using row_by_unique [OF uniq' w] x(2) y(1) by simp
      have "delivery_to_model x \<in> set (webhook_deliveries d)" using claimed(2) [OF x(1)] row_by_SomeD by metis
      then have "case row_by pr_id (d_payment_id x) (payments d) of None \<Rightarrow> False | Some r \<Rightarrow> sendable r"
        using d by (auto simp: deliverable_def list_all_iff delivery_to_model_def)
      with y show ?thesis by (simp add: w_eq delivery_row_ok_def delivery_to_model_def)
    next
      case False
      then have "row_by wr_id (wr_id w) (webhook_deliveries d) = Some w"
        using others row_by_unique [OF uniq' w] by simp
      then have "w \<in> set (webhook_deliveries d)" using row_by_SomeD by metis
      with d show ?thesis by (simp add: deliverable_def list_all_iff)
    qed
    with uniq' show ?thesis by (simp add: deliverable_def list_all_iff)
  qed
  moreover have "delivery_work m ?d' + br_processed res \<le> delivery_work m d"
  proof -
    let ?I = "wr_id ` set (webhook_deliveries d)" and ?C = "d_id ` set ds"
    have I: "wr_id ` set t = ?I" using ids by (metis list.set_map)
    have sub: "?C \<subseteq> ?I" 
    proof
      fix i assume "i \<in> ?C"
      then obtain x where x: "x \<in> set ds" "i = d_id x" by blast
      with row_by_SomeD [OF claimed(2)] show "i \<in> ?I" by (metis image_eqI)
    qed
    have card: "br_processed res = (\<Sum>i \<in> ?I. if i \<in> ?C then 1 else 0)"
      using sub claimed(1) by (simp add: res(1) sum.If_cases Int_absorb1 card_image distinct_map distinct_card)
    have "row_work m (the (row_by wr_id i t)) + (if i \<in> ?C then 1 else 0)
        \<le> row_work m (the (row_by wr_id i (webhook_deliveries d)))" if "i \<in> ?I" for i
      using new claimed(2) others by fastforce
    then have "(\<Sum>i \<in> ?I. row_work m (the (row_by wr_id i t)) + (if i \<in> ?C then 1 else 0))
        \<le> (\<Sum>i \<in> ?I. row_work m (the (row_by wr_id i (webhook_deliveries d))))" by (rule sum_mono)
    then show ?thesis
      by (simp add: delivery_work_def sum_rows [OF uniq] sum_rows [OF uniq'] I card sum.distrib)
  qed
  moreover have "br_failures res \<le> br_processed res" by (simp add: res)
  moreover have "due_rows (dl_locked env) (dl_batch_size env) (dl_clock env 0) d \<noteq> [] \<longrightarrow> 0 < br_processed res"
    by (simp add: rows res(1))
  ultimately show ?thesis using run by blast
qed

lemma webhook_loop_settles:
  assumes "deliverable d" and "\<forall>env \<in> set envs. good_env m env" and "m < 2 ^ 31"
  shows "\<exists>em d'. webhook_loop envs d = (Inr (), em, d') \<and> failed_sends em \<le> delivery_work m d \<and>
    (timely envs d \<and> delivery_work m d \<le> length envs \<longrightarrow> \<not> some_pending d')"
  using assms
proof (induction envs arbitrary: d)
  case Nil
  then show ?case by (auto simp: failed_sends_def delivery_work_0)
next
  case (Cons env envs)
  then have "good_env m env" by simp
  from delivery_batch_progress [OF Cons.prems(1) this Cons.prems(3)] obtain res d1 where
    run: "deliver_webhooks env d = (Inr res, d1)" and d1: "deliverable d1"
    and work: "delivery_work m d1 + br_processed res \<le> delivery_work m d" "br_failures res \<le> br_processed res"
    and some: "due_rows (dl_locked env) (dl_batch_size env) (dl_clock env 0) d \<noteq> [] \<longrightarrow> 0 < br_processed res" by blast
  have cycle: "webhook_cycle env d = (Inr (), [WorkerCycles ''webhook'', WebhookFailures (br_failures res)], d1)"
    by (simp add: webhook_cycle_def process_once_def run swallow_def)
  from Cons.IH [OF d1] Cons.prems obtain em d2 where loop: "webhook_loop envs d1 = (Inr (), em, d2)"
    and f: "failed_sends em \<le> delivery_work m d1"
    and fin: "timely envs d1 \<and> delivery_work m d1 \<le> length envs \<longrightarrow> \<not> some_pending d2" by auto
  have "\<not> some_pending d2" if t: "timely (env # envs) d" "delivery_work m d \<le> length (env # envs)"
  proof -
    have "delivery_work m d1 \<le> length envs"
      using t work some by (cases "some_pending d") (simp_all add: delivery_work_0 [of m, symmetric])
    with fin t(1) show ?thesis by (simp add: cycle)
  qed
  with f work show ?case by (simp add: cycle loop failed_sends_def)
qed

section \<open>Every reachable table can be served\<close>

lemma reachable_deliverable:
  assumes "0 < n" and "service_run n purges empty_db d"
  shows "deliverable d"
proof -
  have ok: "system_ok n d" using service_run_ok [OF assms(2)] system_ok_empty [OF assms(1)] by simp
  have typed: "list_all delivery_typed (webhook_deliveries d)"
    using service_run_typed [OF assms(2,1)] by (simp add: rows_typed_def)
  have uniq: "unique_key pr_id (payments d)" using ok by (simp add: system_ok_def)
  have "map wr_id (webhook_deliveries d) = map fst (delivery_keys d)" by (simp add: delivery_keys_def)
  with ok have "unique_key wr_id (webhook_deliveries d)" by (simp add: unique_key_def system_ok_def)
  moreover have "delivery_row_ok w \<and> int4 (wr_attempt w) \<and>
      (case row_by pr_id (wr_payment_id w) (payments d) of None \<Rightarrow> False | Some r \<Rightarrow> sendable r)"
    if w: "w \<in> set (webhook_deliveries d)" for w
  proof -
    have "\<forall>k \<in> set (delivery_keys d). fst (snd k) \<in> pr_id ` set (payments d)"
      using ok by (auto simp: system_ok_def split_beta)
    then have "wr_payment_id w \<in> pr_id ` set (payments d)" using w by (auto simp: delivery_keys_def)
    then obtain r where r: "r \<in> set (payments d)" "pr_id r = wr_payment_id w" by auto
    with ok obtain p where p: "payment_to_domain r = Inr p" by (auto simp: system_ok_def payment_story_def is_ok_iff)
    have "payment_typed r" using service_run_typed [OF assms(2,1)] r(1) by (simp add: rows_typed_def list_all_iff)
    then have "json_dict (p_metadata p)" using p by (auto simp: payment_typed_def payment_to_domain_def res_simps split: if_splits)
    with p have "sendable r" by (simp add: sendable_def)
    with r row_by_unique [OF uniq r(1)] typed w show ?thesis
      by (auto simp: list_all_iff delivery_typed_def delivery_row_ok_def mk_delivery_status_def)
  qed
  ultimately show ?thesis by (simp add: deliverable_def list_all_iff)
qed


lemma demo_settled_delivery:
  "\<exists>ev. webhook_deliveries demo_settled = [delivery_to_model (delivery_create 31 1 ev None 300)]"
proof -
  have run: "process_payment demo_process_env demo_gateway demo_db demo_process_command demo_db =
      (Inr \<lparr>pres_outcome = OSucceeded, pres_gateway_id = Some ''gw-1''\<rparr>, demo_settled)"
    using demo_processed by (auto simp: demo_settled_def)
  obtain v existing g where "demo_settled = settled demo_process_env demo_process_command g
      (started_attempt demo_process_env demo_process_command 1 existing) demo_db"
    by (rule process_payment_terminal [OF demo_process_facts(1) run]) (simp_all add: demo_process_facts)
  then have "webhook_deliveries demo_settled = webhook_deliveries (settled demo_process_env demo_process_command g
      (started_attempt demo_process_env demo_process_command 1 existing) demo_db)" by (rule arg_cong)
  also have "\<dots> = [delivery_to_model (staged_delivery demo_process_env demo_process_command 1 g)]"
    using demo_process_facts(5) by (simp add: settled_def)
  finally have "webhook_deliveries demo_settled =
      [delivery_to_model (staged_delivery demo_process_env demo_process_command 1 g)]" .
  then show ?thesis
    by (simp add: staged_delivery_def demo_process_env_def demo_process_command_def) blast
qed


end
