(* ===== verification/Logging.thy ===== *)
theory Logging
  imports Http Webhook
begin

text \<open>
  \<open>runtime/logging/logger.py\<close>: the context variables of a request, the filter that puts them into
  every log record, the configuration of the loggers and the text of a log line. The loggers are
  those of Python's \<open>logging\<close>: a logger without a level of its own takes that of its nearest dotted
  ancestor, at last the root's, and the records of the program's loggers go to the root's handlers.
\<close>

section \<open>Records and the context of a request\<close>

datatype level = LDebug | LInfo | LWarning | LError | LCritical

fun levelno :: "level \<Rightarrow> int" where
  "levelno LDebug = 10"
| "levelno LInfo = 20"
| "levelno LWarning = 30"
| "levelno LError = 40"
| "levelno LCritical = 50"

fun level_name :: "level \<Rightarrow> string" where
  "level_name LDebug = ''DEBUG''"
| "level_name LInfo = ''INFO''"
| "level_name LWarning = ''WARNING''"
| "level_name LError = ''ERROR''"
| "level_name LCritical = ''CRITICAL''"

text \<open>The two context variables, with their defaults.\<close>

record log_ctx =
  lc_request_id :: string
  lc_correlation_id :: string

definition outside_ctx :: log_ctx where
  "outside_ctx = \<lparr>lc_request_id = ''none'', lc_correlation_id = ''none''\<rparr>"

text \<open>What \<open>RequestIDMiddleware\<close> sets for the time of a request; \<open>fresh\<close> is a new UUID.\<close>

definition request_ctx :: "string \<Rightarrow> http_req \<Rightarrow> log_ctx" where
  "request_ctx fresh req =
     \<lparr>lc_request_id = fst (request_ids fresh req), lc_correlation_id = snd (request_ids fresh req)\<rparr>"

text \<open>
  A record: the ids are absent until the filter sets them; \<open>lr_exc_text\<close> is the traceback that
  \<open>logger.exception\<close> adds.
\<close>

record log_record =
  lr_asctime :: string
  lr_level :: level
  lr_logger :: string
  lr_message :: string
  lr_exc_text :: "string option"
  lr_request_id :: "string option"
  lr_correlation_id :: "string option"

definition context_filter :: "log_ctx \<Rightarrow> log_record \<Rightarrow> log_record \<times> bool" where
  "context_filter ctx r =
     (r\<lparr>lr_request_id := Some (lc_request_id ctx), lr_correlation_id := Some (lc_correlation_id ctx)\<rparr>, True)"

section \<open>The text of a line\<close>

text \<open>
  The format string is a JSON object whose values are the record's attributes between quotes; they
  are inserted as they are. A record without ids makes the formatter raise, and no line is written.
\<close>

definition quoted :: "string \<Rightarrow> string" where
  "quoted s = CHR 0x22 # s @ [CHR 0x22]"

definition log_fields :: "log_record \<Rightarrow> string \<Rightarrow> string \<Rightarrow> (string \<times> string) list" where
  "log_fields r rid cid =
     [(''timestamp'', lr_asctime r), (''level'', level_name (lr_level r)), (''logger'', lr_logger r),
      (''message'', lr_message r), (''request_id'', rid), (''correlation_id'', cid)]"

definition format_record :: "log_record \<Rightarrow> string option" where
  "format_record r =
     (case (lr_request_id r, lr_correlation_id r) of
        (Some rid, Some cid) \<Rightarrow>
          Some (''{'' @ joined '', '' (map (\<lambda>(k, v). quoted k @ '': '' @ quoted v) (log_fields r rid cid)) @ ''}'' @
            (case lr_exc_text r of None \<Rightarrow> [] | Some t \<Rightarrow> CHR 0x0A # t))
      | _ \<Rightarrow> None)"

section \<open>The configuration\<close>

text \<open>A handler: that of \<open>setup_logging\<close>, or one of another origin, as it prints a record.\<close>

datatype log_handler = StdoutJson | OtherHandler "log_record \<Rightarrow> string"

record log_config =
  lg_root_level :: int
  lg_root_handlers :: "log_handler list"
  lg_levels :: "(string \<times> int) list"

definition setup_logging :: "int \<Rightarrow> log_config \<Rightarrow> log_config" where
  "setup_logging lvl cfg =
     cfg\<lparr>lg_root_level := lvl, lg_root_handlers := [StdoutJson],
         lg_levels := (''sqlalchemy.engine'', levelno LWarning) # (''uvicorn'', levelno LWarning) # lg_levels cfg\<rparr>"

fun dotted_prefixes :: "string \<Rightarrow> string \<Rightarrow> string list" where
  "dotted_prefixes acc [] = []"
| "dotted_prefixes acc (c # s) = (if c = CHR ''.'' then [acc] else []) @ dotted_prefixes (acc @ [c]) s"

definition logger_chain :: "string \<Rightarrow> string list" where
  "logger_chain name = name # rev (dotted_prefixes [] name)"

text \<open>A level 0 counts as none.\<close>

fun first_level :: "(string \<times> int) list \<Rightarrow> int \<Rightarrow> string list \<Rightarrow> int" where
  "first_level levels base [] = base"
| "first_level levels base (n # ns) =
     (case map_of levels n of
        Some l \<Rightarrow> if l \<noteq> 0 then l else first_level levels base ns
      | None \<Rightarrow> first_level levels base ns)"

definition effective_level :: "log_config \<Rightarrow> string \<Rightarrow> int" where
  "effective_level cfg name = first_level (lg_levels cfg) (lg_root_level cfg) (logger_chain name)"

fun handle_record :: "log_ctx \<Rightarrow> log_record \<Rightarrow> log_handler \<Rightarrow> string option" where
  "handle_record ctx r StdoutJson =
     (let (r', keep) = context_filter ctx r in if keep then format_record r' else None)"
| "handle_record ctx r (OtherHandler f) = Some (f r)"

text \<open>What a logging call writes.\<close>

definition log_call :: "log_config \<Rightarrow> log_ctx \<Rightarrow> log_record \<Rightarrow> string list" where
  "log_call cfg ctx r =
     (if effective_level cfg (lr_logger r) \<le> levelno (lr_level r)
      then List.map_filter (handle_record ctx r) (lg_root_handlers cfg) else [])"

section \<open>Lemmas\<close>

definition plain_text :: "string \<Rightarrow> bool" where
  "plain_text s \<longleftrightarrow> list_all (\<lambda>c. json_escape_char c = [c]) s"

lemma plain_text_iff:
  "plain_text s \<longleftrightarrow> list_all (\<lambda>c. 32 \<le> (of_char c :: nat) \<and> (of_char c :: nat) \<notin> {34, 92}) s"
  by (auto simp: plain_text_def json_escape_char_def Let_def list_all_iff split: if_splits)

lemma plain_json_string: "plain_text s \<Longrightarrow> json_string s = quoted s"
  by (induction s) (auto simp: plain_text_def json_string_def quoted_def)

lemma json_dumps_strings:
  "json_dumps fl (VDict (map (\<lambda>(k, v). (k, VStr v)) kvs)) =
     Inr (''{'' @ joined '', '' (map (\<lambda>(k, v). json_string k @ '': '' @ json_string v) kvs) @ ''}'')"
proof -
  have "mapM_res (\<lambda>kv. map_res (\<lambda>x. json_string (fst kv) @ '': '' @ x) (json_dumps fl (snd kv)))
      (map (\<lambda>(k, v). (k, VStr v)) kvs) = Inr (map (\<lambda>(k, v). json_string k @ '': '' @ json_string v) kvs)"
    by (induction kvs) auto
  then show ?thesis by simp
qed

lemma first_level_again:
  "first_level (a # b # a # b # ls) base ns = first_level (a # b # ls) base ns"
  by (induction ns) (auto split: option.splits)

lemma log_call_setup:
  assumes "effective_level (setup_logging lvl cfg) (lr_logger r) \<le> levelno (lr_level r)"
  shows "log_call (setup_logging lvl cfg) ctx r =
    [''{'' @ joined '', '' (map (\<lambda>(k, v). quoted k @ '': '' @ quoted v)
        (log_fields r (lc_request_id ctx) (lc_correlation_id ctx))) @ ''}'' @
      (case lr_exc_text r of None \<Rightarrow> [] | Some t \<Rightarrow> CHR 0x0A # t)]"
  using assms
  by (simp add: log_call_def List.map_filter_def setup_logging_def context_filter_def format_record_def log_fields_def)

lemma plain_level_name [simp]: "plain_text (level_name l)"
  by (cases l) (simp_all add: plain_text_iff)

lemma quoted_fields:
  "list_all (\<lambda>(k, v). plain_text k \<and> plain_text v) kvs \<Longrightarrow>
     json_dumps fl (VDict (map (\<lambda>(k, v). (k, VStr v)) kvs)) =
       Inr (''{'' @ joined '', '' (map (\<lambda>(k, v). quoted k @ '': '' @ quoted v) kvs) @ ''}'')"
proof -
  assume "list_all (\<lambda>(k, v). plain_text k \<and> plain_text v) kvs"
  then have "map (\<lambda>(k, v). json_string k @ '': '' @ json_string v) kvs = map (\<lambda>(k, v). quoted k @ '': '' @ quoted v) kvs"
    by (induction kvs) (auto simp: plain_json_string)
  then show ?thesis by (simp only: json_dumps_strings)
qed

section \<open>Properties\<close>

text \<open>The end of a header value that closes the string and opens a second \<open>level\<close>.\<close>

definition forged_level :: "string \<Rightarrow> string" where
  "forged_level y = CHR 0x22 # '', '' @ quoted ''level'' @ '': '' @ CHR 0x22 # y"

lemma log_line_text:
  assumes "list_all plain_text [lr_asctime r, lr_logger r, lr_message r, rid, x, y]"
  shows "json_dumps fl (VDict (map (\<lambda>(k, v). (k, VStr v)) (log_fields r rid x))) =
      Inr (''{'' @ joined '', '' (map (\<lambda>(k, v). quoted k @ '': '' @ quoted v) (log_fields r rid x)) @ ''}'')"
    and "json_dumps fl (VDict (map (\<lambda>(k, v). (k, VStr v)) (log_fields r rid x @ [(''level'', y)]))) =
      Inr (''{'' @ joined '', '' (map (\<lambda>(k, v). quoted k @ '': '' @ quoted v) (log_fields r rid (x @ forged_level y))) @ ''}'')"
proof -
  have keys: "plain_text ''timestamp''" "plain_text ''level''" "plain_text ''logger''" "plain_text ''message''"
    "plain_text ''request_id''" "plain_text ''correlation_id''"
    by (simp_all add: plain_text_iff)
  with assms show "json_dumps fl (VDict (map (\<lambda>(k, v). (k, VStr v)) (log_fields r rid x))) =
      Inr (''{'' @ joined '', '' (map (\<lambda>(k, v). quoted k @ '': '' @ quoted v) (log_fields r rid x)) @ ''}'')"
    by (intro quoted_fields) (simp add: log_fields_def)
  from assms keys have "json_dumps fl (VDict (map (\<lambda>(k, v). (k, VStr v)) (log_fields r rid x @ [(''level'', y)]))) =
      Inr (''{'' @ joined '', '' (map (\<lambda>(k, v). quoted k @ '': '' @ quoted v) (log_fields r rid x @ [(''level'', y)])) @ ''}'')"
    by (intro quoted_fields) (simp add: log_fields_def)
  then show "json_dumps fl (VDict (map (\<lambda>(k, v). (k, VStr v)) (log_fields r rid x @ [(''level'', y)]))) =
      Inr (''{'' @ joined '', '' (map (\<lambda>(k, v). quoted k @ '': '' @ quoted v) (log_fields r rid (x @ forged_level y))) @ ''}'')"
    by (simp add: log_fields_def joined_def quoted_def forged_level_def)
qed

text \<open>
  What a log line says. However often logging is set up, and whatever handlers were
  there before, a record at or above its logger's level is written once, with the ids of its
  request. When no attribute contains a quote, a backslash or a control character, the line is the
  JSON object of its six attributes. But the format does not escape them: a client whose
  \<open>X-Correlation-ID\<close> header closes the string makes the line a JSON object that has a second
  \<open>level\<close> of the client's choice after the real one.
\<close>

theorem log_line_json:
  assumes "list_all plain_text [lr_asctime r, lr_logger r, lr_message r, fst (request_ids fresh req), x, y]"
    and "lr_exc_text r = None"
    and "effective_level (setup_logging lvl cfg) (lr_logger r) \<le> levelno (lr_level r)"
  shows "map Inr (log_call (setup_logging lvl cfg) (request_ctx fresh (req\<lparr>hq_correlation_id := Some x\<rparr>)) r) =
      [json_dumps fl (VDict (map (\<lambda>(k, v). (k, VStr v)) (log_fields r (fst (request_ids fresh req)) x)))] \<and>
    map Inr (log_call (setup_logging lvl cfg) (request_ctx fresh (req\<lparr>hq_correlation_id := Some (x @ forged_level y)\<rparr>)) r) =
      [json_dumps fl (VDict (map (\<lambda>(k, v). (k, VStr v))
         (log_fields r (fst (request_ids fresh req)) x @ [(''level'', y)])))] \<and>
    log_call (setup_logging lvl (setup_logging lvl' cfg)) ctx r = log_call (setup_logging lvl cfg) ctx r"
proof (intro conjI)
  have ids: "lc_request_id (request_ctx fresh (req\<lparr>hq_correlation_id := Some c\<rparr>)) = fst (request_ids fresh req)"
    "lc_correlation_id (request_ctx fresh (req\<lparr>hq_correlation_id := Some c\<rparr>)) = c" for c
    by (simp_all add: request_ctx_def request_ids_def Let_def)
  note line = log_call_setup [OF assms(3)] ids assms(2) log_line_text [OF assms(1)]
  show "map Inr (log_call (setup_logging lvl cfg) (request_ctx fresh (req\<lparr>hq_correlation_id := Some x\<rparr>)) r) =
      [json_dumps fl (VDict (map (\<lambda>(k, v). (k, VStr v)) (log_fields r (fst (request_ids fresh req)) x)))]"
    by (simp only: line) simp
  show "map Inr (log_call (setup_logging lvl cfg) (request_ctx fresh (req\<lparr>hq_correlation_id := Some (x @ forged_level y)\<rparr>)) r) =
      [json_dumps fl (VDict (map (\<lambda>(k, v). (k, VStr v))
         (log_fields r (fst (request_ids fresh req)) x @ [(''level'', y)])))]"
    by (simp only: line) simp
  show "log_call (setup_logging lvl (setup_logging lvl' cfg)) ctx r = log_call (setup_logging lvl cfg) ctx r"
    by (simp add: log_call_def effective_level_def setup_logging_def first_level_again)
qed

definition demo_record :: log_record where
  "demo_record =
     \<lparr>lr_asctime = ''12:00'', lr_level = LInfo, lr_logger = ''src.runtime'', lr_message = ''paid'',
      lr_exc_text = None, lr_request_id = None, lr_correlation_id = None\<rparr>"

theorem log_line_json_witness:
  "map Inr (log_call (setup_logging 20 \<lparr>lg_root_level = 30, lg_root_handlers = [], lg_levels = []\<rparr>)
      (request_ctx ''f'' (demo_request\<lparr>hq_correlation_id := Some (''a'' @ forged_level ''DEBUG'')\<rparr>)) demo_record) =
    [json_dumps (\<lambda>_. []) (VDict (map (\<lambda>(k, v). (k, VStr v)) (log_fields demo_record ''req-1'' ''a'' @ [(''level'', ''DEBUG'')])))]"
proof -
  let ?cfg = "\<lparr>lg_root_level = 30, lg_root_handlers = [], lg_levels = []\<rparr>"
  have rid: "fst (request_ids ''f'' demo_request) = ''req-1''" by (simp add: request_ids_def demo_request_def Let_def)
  have "list_all plain_text [lr_asctime demo_record, lr_logger demo_record, lr_message demo_record,
      fst (request_ids ''f'' demo_request), ''a'', ''DEBUG'']"
    unfolding rid by (simp add: demo_record_def plain_text_iff)
  moreover have "lr_exc_text demo_record = None" by (simp add: demo_record_def)
  moreover have "effective_level (setup_logging 20 ?cfg) (lr_logger demo_record) \<le> levelno (lr_level demo_record)"
    by (simp add: demo_record_def effective_level_def setup_logging_def logger_chain_def)
  ultimately show ?thesis using log_line_json rid by metis
qed

end
