(* ===== verification/ModuleLoader.thy ===== *)
theory ModuleLoader
  imports Config Decimals "HOL-Library.AList" "HOL-Library.Multiset"
begin

text \<open>
  \<open>runtime/modules/\<close>, \<open>app/module_loader.py\<close> and \<open>app/payments/module.py\<close>: the registry of API modules,
  their discovery, loading and mounting. The registry and the lazy paths are dictionaries in
  insertion order. Python's import machinery is a parameter: importing a module and finding a spec
  may raise, and may register modules as a side effect, since \<open>@register\<close> runs at import. The web
  application is the list of the routers included so far, with their prefixes.
\<close>

record web_app =
  included :: "(string \<times> string) list"

text \<open>An instance of a module class, and the class: its \<open>name\<close> attribute and its \<open>__name__\<close>.\<close>

record module_instance =
  mi_name :: string
  mi_order :: int
  mi_ready :: "exn + bool"
  mi_mount :: "web_app \<Rightarrow> exn + web_app"

record module_class =
  mc_attr_name :: "string option"
  mc_class_name :: string
  mc_new :: "exn + module_instance"

record registry =
  r_registry :: "(string \<times> module_class) list"
  r_lazy :: "(string \<times> string) list"

record importer =
  imp_module :: "string \<Rightarrow> registry \<Rightarrow> (exn + (string \<Rightarrow> exn + module_class)) \<times> registry"
  imp_find_spec :: "string \<Rightarrow> registry \<Rightarrow> (exn + bool) \<times> registry"

section \<open>The registry\<close>

definition class_key :: "module_class \<Rightarrow> string" where
  "class_key c = (case mc_attr_name c of None \<Rightarrow> mc_class_name c | Some n \<Rightarrow> n)"

definition register_lazy :: "string \<Rightarrow> module_class \<Rightarrow> registry \<Rightarrow> registry" where
  "register_lazy path c r =
     r\<lparr>r_registry := AList.update (class_key c) c (r_registry r),
       r_lazy := AList.update (class_key c) path (r_lazy r)\<rparr>"

text \<open>Called with the class or used as a decorator, \<open>register\<close> does the same.\<close>

definition register :: "module_class \<Rightarrow> string option \<Rightarrow> registry \<Rightarrow> registry" where
  "register c lazy_path r =
     (case lazy_path of
        Some (ch # cs) \<Rightarrow> register_lazy (ch # cs) c r
      | _ \<Rightarrow> r\<lparr>r_registry := AList.update (class_key c) c (r_registry r)\<rparr>)"

definition get_registered_modules :: "registry \<Rightarrow> (string \<times> module_class) list" where
  "get_registered_modules r = r_registry r"

section \<open>Loading\<close>

definition rsplit_colon :: "string \<Rightarrow> string \<times> string" where
  "rsplit_colon s =
     (rev (tl (dropWhile (\<lambda>c. c \<noteq> CHR '':'') (rev s))), rev (takeWhile (\<lambda>c. c \<noteq> CHR '':'') (rev s)))"

definition import_lazy :: "importer \<Rightarrow> string \<Rightarrow> registry \<Rightarrow> (exn + module_class option) \<times> registry" where
  "import_lazy imp path r =
     (if CHR '':'' \<notin> set path then (Inr None, r)
      else let (module_path, attr) = rsplit_colon path;
               (res, r') = imp_module imp module_path r
           in case bind_res res (\<lambda>m. m attr) of
                Inr c \<Rightarrow> (Inr (Some c), r')
              | Inl e \<Rightarrow> (if is_Exception e then Inr None else Inl e, r'))"

definition list_repr :: "string list \<Rightarrow> string" where
  "list_repr ks = ''['' @ concat (case map py_repr ks of [] \<Rightarrow> [] | x # xs \<Rightarrow> x # map (\<lambda>y. '', '' @ y) xs) @ '']''"

definition not_registered :: "string \<Rightarrow> registry \<Rightarrow> exn" where
  "not_registered name r =
     RuntimeError (''Module '' @ CHR 0x27 # name @ CHR 0x27 # '' not registered. Available: '' @ list_repr (map fst (r_registry r)))"

text \<open>The class of an enabled name: registered, or imported lazily and then registered.\<close>

definition resolve :: "importer \<Rightarrow> string \<Rightarrow> registry \<Rightarrow> (exn + module_class) \<times> registry" where
  "resolve imp name r =
     (case map_of (r_registry r) name of
        Some c \<Rightarrow> (Inr c, r)
      | None \<Rightarrow>
          (let (found, r') =
             (case map_of (r_lazy r) name of
                Some (ch # cs) \<Rightarrow> import_lazy imp (ch # cs) r
              | _ \<Rightarrow> (Inr None, r))
           in case found of
                Inl e \<Rightarrow> (Inl e, r')
              | Inr None \<Rightarrow> (Inl (not_registered name r'), r')
              | Inr (Some c) \<Rightarrow> (Inr c, r'\<lparr>r_registry := AList.update name c (r_registry r')\<rparr>)))"

definition start_module :: "string \<Rightarrow> module_class \<Rightarrow> exn + module_instance" where
  "start_module name c =
     bind_res (mc_new c) (\<lambda>i.
     bind_res (mi_ready i) (\<lambda>ok.
       if ok then Inr i else Inl (RuntimeError (''Module '' @ CHR 0x27 # name @ CHR 0x27 # '' not ready''))))"

fun load_loop :: "importer \<Rightarrow> (string \<times> bool) list \<Rightarrow> registry \<Rightarrow> (exn + module_instance list) \<times> registry" where
  "load_loop imp [] r = (Inr [], r)"
| "load_loop imp ((name, is_enabled) # es) r =
     (if \<not> is_enabled then load_loop imp es r
      else case resolve imp name r of
        (Inl e, r') \<Rightarrow> (Inl e, r')
      | (Inr c, r') \<Rightarrow>
          (case start_module name c of
             Inl e \<Rightarrow> (Inl e, r')
           | Inr i \<Rightarrow> (let (res, r'') = load_loop imp es r' in (map_res (Cons i) res, r''))))"

definition load_modules :: "importer \<Rightarrow> settings \<Rightarrow> registry \<Rightarrow> (exn + module_instance list) \<times> registry" where
  "load_modules imp s r =
     (let (res, r') = load_loop imp (API_MODULES s) r in (map_res (sort_key mi_order) res, r'))"

section \<open>Discovery and mounting\<close>

text \<open>\<open>External ''ModuleNotFoundError''\<close> is the import machinery's error for a missing package.\<close>

fun discover_modules :: "importer \<Rightarrow> string list \<Rightarrow> registry \<Rightarrow> (exn + unit) \<times> registry" where
  "discover_modules imp [] r = (Inr (), r)"
| "discover_modules imp (n # ns) r =
     (if n \<noteq> [] \<and> hd n = CHR ''_'' then discover_modules imp ns r
      else let base_path = ''src.app.'' @ n;
               (spec, r1) = imp_find_spec imp (base_path @ ''.module'') r
           in case spec of
                Inl (External x) \<Rightarrow>
                  if x = ''ModuleNotFoundError'' then discover_modules imp ns r1 else (Inl (External x), r1)
              | Inl (AttributeError _) \<Rightarrow> discover_modules imp ns r1
              | Inl e \<Rightarrow> (Inl e, r1)
              | Inr False \<Rightarrow> discover_modules imp ns r1
              | Inr True \<Rightarrow>
                  (case imp_module imp base_path r1 of
                     (Inl e, r2) \<Rightarrow> (Inl e, r2)
                   | (Inr _, r2) \<Rightarrow>
                       (case imp_module imp (base_path @ ''.module'') r2 of
                          (Inl e, r3) \<Rightarrow> (Inl e, r3)
                        | (Inr _, r3) \<Rightarrow> discover_modules imp ns r3)))"

fun mount_loop :: "module_instance list \<Rightarrow> web_app \<Rightarrow> exn + web_app" where
  "mount_loop [] app = Inr app"
| "mount_loop (m # ms) app = bind_res (mi_mount m app) (mount_loop ms)"

definition mount_all :: "importer \<Rightarrow> string list \<Rightarrow> web_app \<Rightarrow> settings \<Rightarrow> registry \<Rightarrow> (exn + web_app) \<times> registry" where
  "mount_all imp packages app s r =
     (case discover_modules imp packages r of
        (Inl e, r1) \<Rightarrow> (Inl e, r1)
      | (Inr _, r1) \<Rightarrow>
          (case load_modules imp s r1 of
             (Inl e, r2) \<Rightarrow> (Inl e, r2)
           | (Inr ms, r2) \<Rightarrow> (mount_loop ms app, r2)))"

section \<open>The payments module\<close>

definition payments_module :: module_instance where
  "payments_module =
     \<lparr>mi_name = ''payments'', mi_order = 0, mi_ready = Inr True,
      mi_mount = (\<lambda>app. Inr (app\<lparr>included := included app @ [(''/api/v1'', ''payments_router'')]\<rparr>))\<rparr>"

definition payments_module_class :: module_class where
  "payments_module_class =
     \<lparr>mc_attr_name = Some ''payments'', mc_class_name = ''PaymentsModule'', mc_new = Inr payments_module\<rparr>"

section \<open>Properties\<close>

definition enabled_modules :: "settings \<Rightarrow> string list" where
  "enabled_modules s = map fst (filter snd (API_MODULES s))"

text \<open>Without lazy paths nothing is imported: an enabled name is looked up and its class started.\<close>

definition start_registered :: "registry \<Rightarrow> string \<Rightarrow> exn + module_instance" where
  "start_registered r name =
     (case map_of (r_registry r) name of
        None \<Rightarrow> Inl (not_registered name r) | Some c \<Rightarrow> start_module name c)"

lemma resolve_eager:
  "r_lazy r = [] \<Longrightarrow> resolve imp name r =
     (case map_of (r_registry r) name of None \<Rightarrow> (Inl (not_registered name r), r) | Some c \<Rightarrow> (Inr c, r))"
  by (simp add: resolve_def split: option.split)

lemma load_loop_eager:
  "r_lazy r = [] \<Longrightarrow> load_loop imp es r = (mapM_res (start_registered r) (map fst (filter snd es)), r)"
  by (induction imp es r rule: load_loop.induct)
    (simp_all add: resolve_eager start_registered_def split: option.split sum.split)

lemma load_modules_eager:
  "r_lazy r = [] \<Longrightarrow> load_modules imp s r =
     (map_res (sort_key mi_order) (mapM_res (start_registered r) (enabled_modules s)), r)"
  by (simp add: load_modules_def load_loop_eager enabled_modules_def)

lemma start_module_Inr: "start_module name c = Inr i \<longleftrightarrow> mc_new c = Inr i \<and> mi_ready i = Inr True"
  by (auto simp: start_module_def res_simps split: if_splits)

lemma mapM_res_Inl: "mapM_res f xs = Inl e \<Longrightarrow> \<exists>x \<in> set xs. f x = Inl e"
  by (induction xs) (auto simp: res_simps)

text \<open>
  Start-up loads exactly the enabled modules. When no class was registered lazily, as
  in this repository, loading either returns one instance of each enabled name, made by the class
  registered under it and ready, in the order of \<open>order\<close> and, for equal orders, of the settings; or
  it raises, and then the first enabled module that cannot be had is unregistered, cannot be
  constructed or is not ready. Nothing is registered or imported, and a disabled module is not even
  constructed.
\<close>

theorem modules_loaded_exactly:
  assumes "r_lazy r = []"
  shows "case load_modules imp s r of
      (Inr ms, r') \<Rightarrow> r' = r \<and> (\<exists>mods. ms = sort_key mi_order mods \<and>
        list_all2 (\<lambda>n i. \<exists>c. map_of (r_registry r) n = Some c \<and> mc_new c = Inr i \<and> mi_ready i = Inr True)
          (enabled_modules s) mods)
    | (Inl e, r') \<Rightarrow> r' = r \<and> (\<exists>n \<in> set (enabled_modules s).
        case map_of (r_registry r) n of
          None \<Rightarrow> e = not_registered n r
        | Some c \<Rightarrow> mc_new c = Inl e \<or> (\<exists>i. mc_new c = Inr i \<and> mi_ready i \<noteq> Inr True))"
proof (cases "mapM_res (start_registered r) (enabled_modules s)")
  case (Inl e)
  from mapM_res_Inl [OF Inl] obtain n where n: "n \<in> set (enabled_modules s)" "start_registered r n = Inl e" by blast
  then have "case map_of (r_registry r) n of None \<Rightarrow> e = not_registered n r
      | Some c \<Rightarrow> mc_new c = Inl e \<or> (\<exists>i. mc_new c = Inr i \<and> mi_ready i \<noteq> Inr True)"
    by (auto simp: start_registered_def start_module_def res_simps split: option.splits if_splits)
  with n(1) Inl show ?thesis by (simp add: load_modules_eager [OF assms]) blast
next
  case (Inr mods)
  then have "list_all2 (\<lambda>n i. start_registered r n = Inr i) (enabled_modules s) mods" by (simp add: mapM_res_Inr)
  then have "list_all2 (\<lambda>n i. \<exists>c. map_of (r_registry r) n = Some c \<and> mc_new c = Inr i \<and> mi_ready i = Inr True)
      (enabled_modules s) mods"
    by (rule list_all2_mono) (auto simp: start_registered_def start_module_Inr split: option.splits)
  with Inr show ?thesis by (auto simp: load_modules_eager [OF assms])
qed

text \<open>The repository's own packages: importing the payments plugin registers its module.\<close>

definition repo_importer :: importer where
  "repo_importer =
     \<lparr>imp_module = (\<lambda>path r. (Inr (\<lambda>_. Inl (AttributeError path)),
        if path = ''src.app.payments.module'' then register payments_module_class None r else r)),
      imp_find_spec = (\<lambda>path r.
        if path = ''src.app.payments.module'' then (Inr True, r) else (Inl (External ''ModuleNotFoundError''), r))\<rparr>"

definition loaded_registry :: registry where
  "loaded_registry = \<lparr>r_registry = [(''payments'', payments_module_class)], r_lazy = []\<rparr>"

theorem modules_loaded_exactly_witness:
  "load_modules repo_importer (default_settings ''u'' ''p'' ''d'') loaded_registry = (Inr [payments_module], loaded_registry)"
proof -
  have lazy: "r_lazy loaded_registry = []" by (simp add: loaded_registry_def)
  have en: "enabled_modules (default_settings ''u'' ''p'' ''d'') = [''payments'']"
    by (simp add: enabled_modules_def default_settings_def)
  have "map_of (r_registry loaded_registry) ''payments'' = Some payments_module_class"
    "mc_new payments_module_class = Inr payments_module" "mi_ready payments_module = Inr True"
    by (simp_all add: loaded_registry_def payments_module_class_def payments_module_def)
  with modules_loaded_exactly [OF lazy, where imp = repo_importer and s = "default_settings ''u'' ''p'' ''d''"] en show ?thesis
    by (auto simp: list_all2_Cons1 split: prod.splits sum.splits)
qed

text \<open>
  A service with the default settings serves the payments API: from an empty registry,
  discovery finds the plugin among the packages of the application and skips what is private or
  not a package, and exactly one router is mounted, the payments router under \<open>/api/v1\<close>.
\<close>

theorem payments_mounted:
  "mount_all repo_importer [''__pycache__'', ''module_loader'', ''payments''] \<lparr>included = []\<rparr>
     (default_settings user password database) \<lparr>r_registry = [], r_lazy = []\<rparr> =
   (Inr \<lparr>included = [(''/api/v1'', ''payments_router'')]\<rparr>, loaded_registry)"
  by (simp add: mount_all_def repo_importer_def register_def class_key_def payments_module_class_def
      load_modules_def default_settings_def resolve_def start_module_def payments_module_def loaded_registry_def)

end
