(* ===== verification/AppFactory.thy ===== *)
theory AppFactory
  imports Logging ModuleLoader
begin

text \<open>
  \<open>runtime/bootstrap/app_factory.py\<close>: the web application as \<open>create_app\<close> puts it together, and how it
  answers a request: the middleware around the routes, in the order the calls of \<open>add_middleware\<close>
  give them, with the request's state and context variables passed inwards. Starlette documents that
  each \<open>add_middleware\<close> wraps the application built so far, so the one added last is the outermost,
  and that its handler for \<open>Exception\<close> runs outside all of them.

  The CORS middleware is Starlette's. It is a parameter that either answers a request itself, as it
  documents for preflight requests, or passes it on and changes the response.
\<close>

section \<open>The application\<close>

text \<open>The title and the \<open>lifespan\<close> (theory \<open>Runtime\<close>) are left out.\<close>

datatype middleware = CorsMiddleware "string list" bool | LocaleMiddleware settings | RequestIDMiddleware

record asgi_app =
  aa_version :: string
  aa_docs_url :: "string option"
  aa_redoc_url :: "string option"
  aa_openapi_url :: "string option"
  aa_middleware :: "middleware list"
  aa_translator :: "translator option"
  aa_web :: web_app
  aa_scalar :: bool

text \<open>The first element is the outermost.\<close>

definition add_middleware :: "middleware \<Rightarrow> asgi_app \<Rightarrow> asgi_app" where
  "add_middleware m app = app\<lparr>aa_middleware := m # aa_middleware app\<rparr>"

definition register_exception_handlers :: "translator \<Rightarrow> asgi_app \<Rightarrow> asgi_app" where
  "register_exception_handlers tr app = app\<lparr>aa_translator := Some tr\<rparr>"

definition include_router :: "string \<Rightarrow> asgi_app \<Rightarrow> asgi_app" where
  "include_router r app = app\<lparr>aa_web := (aa_web app)\<lparr>included := included (aa_web app) @ [([], r)]\<rparr>\<rparr>"

definition register_scalar_route :: "asgi_app \<Rightarrow> asgi_app" where
  "register_scalar_route app = app\<lparr>aa_scalar := True\<rparr>"

text \<open>
  \<open>JsonTranslator(settings)\<close>: \<open>files\<close> are the locale files in the order of the directory, each with
  its stem and what reading it gives or raises; a later file of the same stem replaces an earlier one.
\<close>

fun load_locales :: "(string \<times> (exn + pyval)) list \<Rightarrow> (string \<times> pyval) list \<Rightarrow> exn + (string \<times> pyval) list" where
  "load_locales [] cache = Inr cache"
| "load_locales ((stem, Inl e) # fs) cache = Inl e"
| "load_locales ((stem, Inr v) # fs) cache = load_locales fs (dict_set stem v cache)"

definition json_translator :: "settings \<Rightarrow> (string \<times> (exn + pyval)) list \<Rightarrow> exn + translator" where
  "json_translator s files =
     map_res (\<lambda>cache. \<lparr>tr_cache = cache, tr_default = DEFAULT_LOCALE s\<rparr>) (load_locales files [])"

text \<open>\<open>create_app\<close> with the settings it reads; logging is set up first, at level \<open>INFO\<close>.\<close>

definition new_app :: "settings \<Rightarrow> asgi_app" where
  "new_app s =
     (let shown = (\<lambda>url. if docs_available s then Some url else None)
      in \<lparr>aa_version = APP_VERSION s, aa_docs_url = shown ''/docs'', aa_redoc_url = shown ''/redoc'',
          aa_openapi_url = shown ''/openapi.json'', aa_middleware = [], aa_translator = None,
          aa_web = \<lparr>included = []\<rparr>, aa_scalar = False\<rparr>)"

definition create_app ::
    "exn + settings \<Rightarrow> (string \<times> (exn + pyval)) list \<Rightarrow> log_config \<Rightarrow> (exn + asgi_app) \<times> log_config" where
  "create_app read_settings files cfg =
     (let cfg' = setup_logging (levelno LInfo) cfg
      in (bind_res read_settings (\<lambda>s.
            let app = new_app s;
                app = add_middleware (CorsMiddleware (CORS_ORIGINS s) (CORS_ALLOW_CREDENTIALS s)) app;
                app = add_middleware (LocaleMiddleware s) app;
                app = add_middleware RequestIDMiddleware app
            in bind_res (json_translator s files) (\<lambda>tr.
                 let app = register_exception_handlers tr app;
                     app = include_router ''health'' app;
                     app = include_router ''metrics'' app
                 in Inr (if docs_available s then register_scalar_route app else app))), cfg'))"

section \<open>How it answers\<close>

text \<open>A request on its way inwards: the context variables and \<open>request.state\<close>.\<close>

record scope =
  sc_req :: http_req
  sc_ctx :: log_ctx
  sc_locale :: "locale_info option"
  sc_correlation :: "string option"

type_synonym app_handler = "scope \<Rightarrow> db \<Rightarrow> (exn + http_resp) \<times> db"

type_synonym cors_policy = "string list \<Rightarrow> bool \<Rightarrow> http_req \<Rightarrow> http_resp + (http_resp \<Rightarrow> http_resp)"

definition new_scope :: "http_req \<Rightarrow> scope" where
  "new_scope req = \<lparr>sc_req = req, sc_ctx = outside_ctx, sc_locale = None, sc_correlation = None\<rparr>"

definition add_id_headers :: "log_ctx \<Rightarrow> http_resp \<Rightarrow> http_resp" where
  "add_id_headers ctx resp =
     resp\<lparr>rs_headers := rs_headers resp @
       [(''X-Request-ID'', lc_request_id ctx), (''X-Correlation-ID'', lc_correlation_id ctx)]\<rparr>"

definition request_id_dispatch :: "string \<Rightarrow> app_handler \<Rightarrow> app_handler" where
  "request_id_dispatch fresh call_next sc d =
     (let ctx = request_ctx fresh (sc_req sc);
          (r, d') = call_next (sc\<lparr>sc_ctx := ctx, sc_correlation := Some (lc_correlation_id ctx)\<rparr>) d
      in (map_res (add_id_headers ctx) r, d'))"

definition locale_dispatch :: "settings \<Rightarrow> app_handler \<Rightarrow> app_handler" where
  "locale_dispatch s call_next sc d =
     call_next (sc\<lparr>sc_locale := Some (request_locale s (hq_accept_language (sc_req sc)))\<rparr>) d"

definition cors_dispatch :: "cors_policy \<Rightarrow> string list \<Rightarrow> bool \<Rightarrow> app_handler \<Rightarrow> app_handler" where
  "cors_dispatch cors origins credentials call_next sc d =
     (case cors origins credentials (sc_req sc) of
        Inl resp \<Rightarrow> (Inr resp, d)
      | Inr f \<Rightarrow> (let (r, d') = call_next sc d in (map_res f r, d')))"

fun wrap :: "cors_policy \<Rightarrow> string \<Rightarrow> middleware \<Rightarrow> app_handler \<Rightarrow> app_handler" where
  "wrap cors fresh (CorsMiddleware origins credentials) = cors_dispatch cors origins credentials"
| "wrap cors fresh (LocaleMiddleware s) = locale_dispatch s"
| "wrap cors fresh RequestIDMiddleware = request_id_dispatch fresh"

text \<open>The innermost part: the route with the handlers for the exceptions it raises.\<close>

definition route_handler ::
    "translator \<Rightarrow> (string option \<Rightarrow> db \<Rightarrow> (api_error + http_resp) \<times> db) \<Rightarrow> app_handler" where
  "route_handler tr route_fn sc d =
     (let (r, d') = route_fn (sc_correlation sc) d in (exception_middleware tr (sc_locale sc) r, d'))"

definition run_app ::
    "cors_policy \<Rightarrow> string \<Rightarrow> asgi_app \<Rightarrow> translator \<Rightarrow> http_req \<Rightarrow>
     (string option \<Rightarrow> db \<Rightarrow> (api_error + http_resp) \<times> db) \<Rightarrow> db \<Rightarrow> (exn + http_resp) \<times> db" where
  "run_app cors fresh app tr req route_fn d =
     (let sc = new_scope req;
          (r, d') = foldr (wrap cors fresh) (aa_middleware app) (route_handler tr route_fn) sc d
      in (case r of
            Inr resp \<Rightarrow> Inr resp
          | Inl e \<Rightarrow> if is_Exception e then Inr (handle_unhandled (lc_request_id (sc_ctx sc))) else Inl e, d'))"

section \<open>Properties\<close>

lemma create_app_Inr:
  "fst (create_app read_settings files cfg) = Inr app \<longleftrightarrow>
     (\<exists>s tr. read_settings = Inr s \<and> json_translator s files = Inr tr \<and>
       app = (new_app s)\<lparr>
         aa_middleware := [RequestIDMiddleware, LocaleMiddleware s,
           CorsMiddleware (CORS_ORIGINS s) (CORS_ALLOW_CREDENTIALS s)],
         aa_translator := Some tr, aa_web := \<lparr>included = [([], ''health''), ([], ''metrics'')]\<rparr>,
         aa_scalar := docs_available s\<rparr>)"
  by (auto simp: create_app_def Let_def res_simps add_middleware_def register_exception_handlers_def
      include_router_def register_scalar_route_def new_app_def)

lemma run_stack:
  assumes "aa_middleware app = [RequestIDMiddleware, LocaleMiddleware s, CorsMiddleware origins credentials]"
  shows "run_app cors fresh app tr req route_fn d =
    (case cors origins credentials req of
       Inl resp \<Rightarrow> (Inr (add_id_headers (request_ctx fresh req) resp), d)
     | Inr f \<Rightarrow>
         (let (r, d') = route_fn (Some (snd (request_ids fresh req))) d in
          (case exception_middleware tr (Some (request_locale s (hq_accept_language req))) r of
             Inr resp \<Rightarrow> Inr (add_id_headers (request_ctx fresh req) (f resp))
           | Inl e \<Rightarrow> if is_Exception e then Inr (handle_unhandled ''none'') else Inl e, d')))"
  using assms
  by (auto simp: run_app_def Let_def request_id_dispatch_def locale_dispatch_def cors_dispatch_def route_handler_def
      new_scope_def outside_ctx_def request_ctx_def split: sum.splits prod.splits)

lemma serve_unfold:
  "serve tr s fresh req route_fn d =
    (let (r, d') = route_fn (Some (snd (request_ids fresh req))) d in
     (case exception_middleware tr (Some (request_locale s (hq_accept_language req))) r of
        Inr resp \<Rightarrow> Inr (add_id_headers (request_ctx fresh req) resp)
      | Inl e \<Rightarrow> if is_Exception e then Inr (handle_unhandled ''none'') else Inl e, d'))"
  by (auto simp: serve_def with_request_id_def Let_def add_id_headers_def request_ctx_def split: sum.splits prod.splits)

text \<open>
  Property C28. The application answers through its middleware in the reverse of the order in which
  they were added. A request the CORS middleware answers itself, a preflight, reaches no route and
  changes nothing, but its answer carries the request's ids; any other request is answered as \<open>serve\<close> answers it, with the CORS middleware's changes made before the ids
  are added, except that the answer 500 to an unforeseen exception gets neither. The documentation
  is reachable, in all its four places, exactly outside production or when it is enabled.
\<close>

theorem app_answers:
  assumes "fst (create_app (Inr s) files cfg) = Inr app" and "aa_translator app = Some tr"
  shows "run_app cors fresh app tr req route_fn d =
      (case cors (CORS_ORIGINS s) (CORS_ALLOW_CREDENTIALS s) req of
         Inl resp \<Rightarrow> (Inr (add_id_headers (request_ctx fresh req) resp), d)
       | Inr f \<Rightarrow>
           (let (r, d') = route_fn (Some (snd (request_ids fresh req))) d in
            (case exception_middleware tr (Some (request_locale s (hq_accept_language req))) r of
               Inr resp \<Rightarrow> Inr (add_id_headers (request_ctx fresh req) (f resp))
             | Inl e \<Rightarrow> if is_Exception e then Inr (handle_unhandled ''none'') else Inl e, d'))) \<and>
    run_app (\<lambda>_ _ _. Inr (\<lambda>resp. resp)) fresh app tr req route_fn d = serve tr s fresh req route_fn d \<and>
    {aa_docs_url app, aa_redoc_url app, aa_openapi_url app} =
      (if ENVIRONMENT s = ''production'' \<and> \<not> DOCS_ENABLED s then {None}
       else {Some ''/docs'', Some ''/redoc'', Some ''/openapi.json''}) \<and>
    aa_scalar app = (ENVIRONMENT s \<noteq> ''production'' \<or> DOCS_ENABLED s)"
proof -
  have "aa_middleware app =
      [RequestIDMiddleware, LocaleMiddleware s, CorsMiddleware (CORS_ORIGINS s) (CORS_ALLOW_CREDENTIALS s)]"
    using assms(1) by (auto simp: create_app_Inr)
  note stack = run_stack [OF this]
  show ?thesis
    using assms(1) by (auto simp: stack serve_unfold create_app_Inr new_app_def Let_def docs_available_def is_production_def)
qed

theorem app_answers_witness:
  "\<exists>app. fst (create_app (Inr demo_settings) [(''en'', Inr (VDict []))] \<lparr>lg_root_level = 30, lg_root_handlers = [], lg_levels = []\<rparr>) =
     Inr app \<and> run_app (\<lambda>_ _ _. Inl (response 200 (ErrorBody []))) ''f'' app \<lparr>tr_cache = [(''en'', VDict [])], tr_default = ''en''\<rparr>
       demo_request (\<lambda>_ d. (Inl (Raised CancelledError), d)) demo_db =
     (Inr (add_id_headers (request_ctx ''f'' demo_request) (response 200 (ErrorBody []))), demo_db)"
proof -
  let ?cfg = "\<lparr>lg_root_level = 30, lg_root_handlers = [], lg_levels = []\<rparr>"
  let ?tr = "\<lparr>tr_cache = [(''en'', VDict [])], tr_default = ''en''\<rparr>"
  have "json_translator demo_settings [(''en'', Inr (VDict []))] = Inr ?tr"
    by (simp add: json_translator_def dict_set_def default_settings_def)
  then obtain app where app: "fst (create_app (Inr demo_settings) [(''en'', Inr (VDict []))] ?cfg) = Inr app"
    "aa_translator app = Some ?tr"
    by (auto simp: create_app_Inr)
  from app_answers [OF this, of "\<lambda>_ _ _. Inl (response 200 (ErrorBody []))"] app(1) show ?thesis by auto
qed

lemma refused_401:
  assumes "\<forall>k. hq_api_key req = Some k \<longrightarrow> k = [] \<or> k \<notin> set (PAYMENTS_API_KEYS st)"
    and "guard = require_api_key (Some st) cache raw (hq_api_key req)"
  shows "create_route guard parse env req cid d =
      (Inl (case decode_body (hq_body req) of Inl e \<Rightarrow> e | Inr _ \<Rightarrow> HttpException 401 ''Invalid API key''), d)"
    and "get_route guard path_id d = (Inl (HttpException 401 ''Invalid API key''), d)"
proof -
  have "guard = Inl (HttpException 401 ''Invalid API key'')"
    using require_api_key_Inl assms by blast
  then show "create_route guard parse env req cid d =
      (Inl (case decode_body (hq_body req) of Inl e \<Rightarrow> e | Inr _ \<Rightarrow> HttpException 401 ''Invalid API key''), d)"
    "get_route guard path_id d = (Inl (HttpException 401 ''Invalid API key''), d)"
    by (simp_all add: create_route_def get_route_def split: sum.split)
qed

text \<open>
  Property C27. No access without a key. A request whose \<open>X-API-Key\<close> is absent, empty or not
  configured changes nothing. A \<open>GET\<close> of a payment, and a \<open>POST\<close> whose body can be decoded, whatever it
  and the rest of the request contain, are answered with the refusal 401, which depends on nothing but
  the request's ids, or with the CORS middleware's own answer. FastAPI decodes the body of a \<open>POST\<close>
  before it asks for the key: a body that is no JSON is answered 422, and one that cannot be read
  400, without the key being looked at.
\<close>

theorem app_requires_key:
  assumes "fst (create_app (Inr s) files cfg) = Inr app"
    and "\<forall>k. hq_api_key req = Some k \<longrightarrow> k = [] \<or> k \<notin> set (PAYMENTS_API_KEYS st)"
    and "guard = require_api_key (Some st) cache raw (hq_api_key req)"
  shows "let answered = \<lambda>resp. (Inr (add_id_headers (request_ctx fresh req)
             (case cors (CORS_ORIGINS s) (CORS_ALLOW_CREDENTIALS s) req of Inl own \<Rightarrow> own | Inr f \<Rightarrow> f resp)), d);
        refusal = response 401 (ErrorBody [(''detail'', VStr ''Invalid API key'')])
    in run_app cors fresh app tr req (\<lambda>_. get_route guard path_id) d = answered refusal \<and>
       (\<exists>resp. run_app cors fresh app tr req (create_route guard parse env req) d = answered resp \<and>
          (case hq_body req of
             Decoded _ \<Rightarrow> resp = refusal
           | Malformed _ \<Rightarrow> rs_status resp = 422
           | Unreadable \<Rightarrow> rs_status resp = 400))"
proof -
  have "aa_middleware app =
      [RequestIDMiddleware, LocaleMiddleware s, CorsMiddleware (CORS_ORIGINS s) (CORS_ALLOW_CREDENTIALS s)]"
    using assms(1) by (auto simp: create_app_Inr)
  note stack = run_stack [OF this]
  have valid: "\<exists>message. handle_validation tr ctx errors = Inr (response 422 message)" for ctx errors
    by (cases "tr_translate tr ''error.codes.VALIDATION_ERROR'' (get_locale_code ctx (tr_default tr)) []")
      (auto simp: handle_validation_def dest: tr_translate_raises)
  then obtain message where message: "\<And>ctx errors. handle_validation tr ctx errors = Inr (response 422 (message ctx errors))"
    by metis
  have "rs_status (response n (ErrorBody [])) = n" for n by (simp add: response_def)
  then have status: "\<exists>resp :: http_resp. rs_status resp = n" for n by blast
  show ?thesis
    unfolding Let_def
  proof (rule conjI)
    show "run_app cors fresh app tr req (\<lambda>_. get_route guard path_id) d =
      (Inr (add_id_headers (request_ctx fresh req)
         (case cors (CORS_ORIGINS s) (CORS_ALLOW_CREDENTIALS s) req of Inl own \<Rightarrow> own
          | Inr f \<Rightarrow> f (response 401 (ErrorBody [(''detail'', VStr ''Invalid API key'')])))), d)"
      by (simp add: stack refused_401 [OF assms(2,3)] exception_middleware_def split: sum.split)
    show "\<exists>resp. run_app cors fresh app tr req (create_route guard parse env req) d =
      (Inr (add_id_headers (request_ctx fresh req)
         (case cors (CORS_ORIGINS s) (CORS_ALLOW_CREDENTIALS s) req of Inl own \<Rightarrow> own | Inr f \<Rightarrow> f resp)), d) \<and>
      (case hq_body req of
         Decoded _ \<Rightarrow> resp = response 401 (ErrorBody [(''detail'', VStr ''Invalid API key'')])
       | Malformed _ \<Rightarrow> rs_status resp = 422
       | Unreadable \<Rightarrow> rs_status resp = 400)"
      by (cases "hq_body req"; cases "cors (CORS_ORIGINS s) (CORS_ALLOW_CREDENTIALS s) req")
        (auto simp: stack refused_401 [OF assms(2,3)] exception_middleware_def message response_def intro: status)
  qed
qed

theorem app_requires_key_witness:
  "\<exists>app. fst (create_app (Inr demo_settings) [] \<lparr>lg_root_level = 30, lg_root_handlers = [], lg_levels = []\<rparr>) = Inr app \<and>
     run_app (\<lambda>_ _ _. Inr (\<lambda>x. x)) ''f'' app demo_translator (demo_request\<lparr>hq_api_key := None\<rparr>)
       (create_route (require_api_key (Some demo_settings) None (Inl CancelledError) None) demo_parse demo_env
          (demo_request\<lparr>hq_api_key := None\<rparr>)) demo_db =
     (Inr (add_id_headers (request_ctx ''f'' (demo_request\<lparr>hq_api_key := None\<rparr>))
        (response 401 (ErrorBody [(''detail'', VStr ''Invalid API key'')]))), demo_db)"
proof -
  let ?cfg = "\<lparr>lg_root_level = 30, lg_root_handlers = [], lg_levels = []\<rparr>"
  let ?req = "demo_request\<lparr>hq_api_key := None\<rparr>"
  have "\<exists>tr. json_translator demo_settings [] = Inr tr" by (simp add: json_translator_def)
  then obtain app where app: "fst (create_app (Inr demo_settings) [] ?cfg) = Inr app"
    by (auto simp: create_app_Inr)
  have "\<forall>k. hq_api_key ?req = Some k \<longrightarrow> k = [] \<or> k \<notin> set (PAYMENTS_API_KEYS demo_settings)" by simp
  from app_requires_key [OF app this refl, where cors = "\<lambda>_ _ _. Inr (\<lambda>x. x)" and cache = None and raw = "Inl CancelledError"
      and parse = demo_parse and env = demo_env and fresh = "''f''" and tr = demo_translator and d = demo_db] app
  show ?thesis by (auto simp: Let_def demo_request_def)
qed

end
