(* ===== verification/Engine.thy ===== *)
theory Engine
  imports Config
begin

text \<open>
  \<open>runtime/persistence/session.py\<close>, \<open>runtime/http/api/services/health.py\<close> and
  \<open>runtime/http/api/routes/health.py\<close>: the engine and the session factory every process has one of,
  and the health probes. An engine is the number of the call of \<open>create_async_engine\<close> that made it;
  \<open>mk\<close> says what these calls return or raise, and a session factory is the engine it is bound to.
\<close>

section \<open>The engine's configuration\<close>

record engine_config =
  ec_url :: string
  ec_pool_size :: int
  ec_max_overflow :: int
  ec_pool_timeout :: int
  ec_pool_recycle :: int
  ec_pool_pre_ping :: bool
  ec_statement_timeout :: string

definition database_url :: "settings \<Rightarrow> string" where
  "database_url s =
     POSTGRES_SCHEMA s @ ''://'' @ POSTGRES_USER s @ '':'' @ POSTGRES_PASSWORD s @ ''@'' @
     POSTGRES_HOST s @ '':'' @ int_str (POSTGRES_PORT s) @ ''/'' @ POSTGRES_DB s"

definition create_engine_config :: "settings \<Rightarrow> engine_config" where
  "create_engine_config s =
     \<lparr>ec_url = database_url s, ec_pool_size = DB_POOL_SIZE s, ec_max_overflow = DB_MAX_OVERFLOW s,
      ec_pool_timeout = DB_POOL_TIMEOUT s, ec_pool_recycle = DB_POOL_RECYCLE s, ec_pool_pre_ping = True,
      ec_statement_timeout = int_str (DB_STATEMENT_TIMEOUT s)\<rparr>"

section \<open>The singletons\<close>

type_synonym engine = nat

record session_module =
  sm_engine :: "engine option"
  sm_sessionmaker :: "engine option"
  sm_lock :: "nat option"
  sm_calls :: nat
  sm_created :: "engine list"
  sm_disposed :: "engine list"

definition fresh_module :: session_module where
  "fresh_module = \<lparr>sm_engine = None, sm_sessionmaker = None, sm_lock = None, sm_calls = 0, sm_created = [],
     sm_disposed = []\<rparr>"

text \<open>\<open>_create_engine\<close> and the assignment to \<open>_engine\<close>.\<close>

definition create_engine :: "(nat \<Rightarrow> exn + unit) \<Rightarrow> session_module \<Rightarrow> (exn + unit) \<times> session_module" where
  "create_engine mk m =
     (case mk (sm_calls m) of
        Inl e \<Rightarrow> (Inl e, m\<lparr>sm_calls := sm_calls m + 1\<rparr>)
      | Inr _ \<Rightarrow> (Inr (), m\<lparr>sm_calls := sm_calls m + 1, sm_engine := Some (sm_calls m),
                           sm_created := sm_created m @ [sm_calls m]\<rparr>))"

text \<open>
  A task in \<open>get_engine\<close>. It can be suspended only where it waits for the lock; a step runs it from
  one such point to the next, so tasks interleave in any order of steps.
\<close>

datatype get_engine_pc = Start | Waiting | Holding | Returned engine | Raised exn

definition get_engine_step ::
    "(nat \<Rightarrow> exn + unit) \<Rightarrow> nat \<Rightarrow> session_module \<times> (nat \<Rightarrow> get_engine_pc) \<Rightarrow>
     session_module \<times> (nat \<Rightarrow> get_engine_pc)" where
  "get_engine_step mk t = (\<lambda>(m, pc).
     case pc t of
       Start \<Rightarrow>
         (case sm_engine m of
            Some e \<Rightarrow> (m, pc(t := Returned e))
          | None \<Rightarrow> (m, pc(t := Waiting)))
     | Waiting \<Rightarrow>
         (if sm_lock m = None then (m\<lparr>sm_lock := Some t\<rparr>, pc(t := Holding)) else (m, pc))
     | Holding \<Rightarrow>
         (case (if sm_engine m = None then create_engine mk m else (Inr (), m)) of
            (Inl e, m') \<Rightarrow> (m'\<lparr>sm_lock := None\<rparr>, pc(t := Raised e))
          | (Inr _, m') \<Rightarrow>
              (m'\<lparr>sm_lock := None\<rparr>,
               pc(t := (case sm_engine m' of Some e \<Rightarrow> Returned e | None \<Rightarrow> Raised (TypeError ''NoneType'')))))
     | Returned e \<Rightarrow> (m, pc)
     | Raised e \<Rightarrow> (m, pc))"

definition get_engine_run ::
    "(nat \<Rightarrow> exn + unit) \<Rightarrow> nat list \<Rightarrow> session_module \<times> (nat \<Rightarrow> get_engine_pc) \<Rightarrow>
     session_module \<times> (nat \<Rightarrow> get_engine_pc)" where
  "get_engine_run mk schedule = fold (get_engine_step mk) schedule"

text \<open>The functions as a single task calls them.\<close>

definition get_engine :: "(nat \<Rightarrow> exn + unit) \<Rightarrow> session_module \<Rightarrow> (exn + engine) \<times> session_module" where
  "get_engine mk m =
     (case sm_engine m of
        Some e \<Rightarrow> (Inr e, m)
      | None \<Rightarrow>
          (case create_engine mk m of
             (Inl e, m') \<Rightarrow> (Inl e, m')
           | (Inr _, m') \<Rightarrow> (Inr (sm_calls m), m')))"

definition get_sessionmaker :: "(nat \<Rightarrow> exn + unit) \<Rightarrow> session_module \<Rightarrow> (exn + engine) \<times> session_module" where
  "get_sessionmaker mk m =
     (case sm_sessionmaker m of
        Some f \<Rightarrow> (Inr f, m)
      | None \<Rightarrow>
          (case get_engine mk m of
             (Inl e, m') \<Rightarrow> (Inl e, m')
           | (Inr e, m') \<Rightarrow> (Inr e, m'\<lparr>sm_sessionmaker := Some e\<rparr>)))"

text \<open>
  \<open>dispose\<close> is what the engine's own \<open>dispose\<close> returns or raises; \<open>sm_disposed\<close> lists the engines
  it was called on.
\<close>

definition dispose_engine :: "exn + unit \<Rightarrow> session_module \<Rightarrow> (exn + unit) \<times> session_module" where
  "dispose_engine dispose m =
     (case (case sm_engine m of
              None \<Rightarrow> (Inr (), m)
            | Some e \<Rightarrow> (dispose, m\<lparr>sm_disposed := sm_disposed m @ [e]\<rparr>)) of
        (Inl e, m') \<Rightarrow> (Inl e, m')
      | (Inr _, m') \<Rightarrow> (Inr (), m'\<lparr>sm_engine := None, sm_sessionmaker := None\<rparr>))"

section \<open>One engine per process\<close>

text \<open>What every interleaving keeps: the engine is the one created, and the lock has its holder.\<close>

definition module_ok :: "session_module \<Rightarrow> (nat \<Rightarrow> get_engine_pc) \<Rightarrow> bool" where
  "module_ok m pc \<longleftrightarrow>
     sm_created m = (case sm_engine m of None \<Rightarrow> [] | Some e \<Rightarrow> [e]) \<and>
     (\<forall>t e. pc t = Returned e \<longrightarrow> sm_engine m = Some e) \<and>
     (\<forall>t. pc t = Holding \<longleftrightarrow> sm_lock m = Some t)"

lemma module_okD:
  assumes "module_ok m pc"
  shows "pc t = Holding \<longleftrightarrow> sm_lock m = Some t" "pc t = Returned e \<Longrightarrow> sm_engine m = Some e"
    "sm_created m = (case sm_engine m of None \<Rightarrow> [] | Some e \<Rightarrow> [e])"
  using assms by (simp_all add: module_ok_def)

lemma module_ok_upd:
  assumes "module_ok m pc" and "sm_created m' = (case sm_engine m' of None \<Rightarrow> [] | Some e \<Rightarrow> [e])"
    and "sm_engine m = None \<or> sm_engine m' = sm_engine m"
    and "\<And>e. x = Returned e \<Longrightarrow> sm_engine m' = Some e"
    and "sm_lock m' = (if x = Holding then Some t else None)" and "sm_lock m = None \<or> sm_lock m = Some t"
  shows "module_ok m' (pc(t := x))"
proof -
  have "(pc(t := x)) u = Holding \<longleftrightarrow> sm_lock m' = Some u" for u
    using assms(5,6) module_okD(1) [OF assms(1), of u] by (cases "u = t") auto
  moreover have "sm_engine m' = Some e" if "(pc(t := x)) u = Returned e" for u e
    using that assms(3,4) module_okD(2) [OF assms(1), of u e] by (cases "u = t") auto
  ultimately show ?thesis using assms(2) unfolding module_ok_def by blast
qed

lemma module_ok_wait:
  assumes "module_ok m pc" and "pc t \<noteq> Holding" and "x \<noteq> Holding" and "\<And>e. x = Returned e \<Longrightarrow> sm_engine m = Some e"
  shows "module_ok m (pc(t := x))"
proof -
  have "(pc(t := x)) u = Holding \<longleftrightarrow> sm_lock m = Some u" for u
    using assms(2,3) module_okD(1) [OF assms(1), of u] by (cases "u = t") auto
  moreover have "sm_engine m = Some e" if "(pc(t := x)) u = Returned e" for u e
    using that assms(4) module_okD(2) [OF assms(1), of u e] by (cases "u = t") auto
  ultimately show ?thesis using module_okD(3) [OF assms(1)] unfolding module_ok_def by blast
qed

lemma module_ok_step:
  assumes ok: "module_ok m pc" and step: "get_engine_step mk t (m, pc) = (m', pc')"
  shows "module_ok m' pc'"
proof (cases "pc t")
  case Start
  with step ok show ?thesis
    by (auto simp: get_engine_step_def split: option.splits intro!: module_ok_wait)
next
  case Waiting
  with step ok show ?thesis
    by (auto simp: get_engine_step_def module_okD(3) [OF ok] split: if_splits intro!: module_ok_upd [OF ok])
next
  case Holding
  then have lock: "sm_lock m = Some t" using module_okD(1) [OF ok] by simp
  show ?thesis
  proof (cases "sm_engine m")
    case None
    then show ?thesis using step Holding lock module_okD(3) [OF ok]
      by (auto simp: get_engine_step_def create_engine_def split: sum.splits intro!: module_ok_upd [OF ok])
  next
    case (Some e)
    then show ?thesis using step Holding lock module_okD(3) [OF ok]
      by (auto simp: get_engine_step_def intro!: module_ok_upd [OF ok])
  qed
qed (use step ok in \<open>simp_all add: get_engine_step_def\<close>)

lemma module_ok_run:
  assumes "module_ok m pc" and "get_engine_run mk ts (m, pc) = (m', pc')"
  shows "module_ok m' pc'"
  using assms
proof (induction ts arbitrary: m pc)
  case (Cons t ts)
  obtain m1 pc1 where step: "get_engine_step mk t (m, pc) = (m1, pc1)" by (metis surj_pair)
  from Cons.IH [OF module_ok_step [OF Cons.prems(1) step]] Cons.prems(2) step show ?case
    by (simp add: get_engine_run_def)
qed (simp add: get_engine_run_def)

text \<open>
  Property C33. However many tasks ask for the engine at once, and however the event loop interleaves
  them, at most one engine is created, every task that returns returns that one, and at most one
  task at a time is between the second check and the assignment, although the first check runs
  without the lock. A creation that raises leaves no engine and frees the lock for the next task.
\<close>

theorem engine_created_once:
  assumes "get_engine_run mk schedule (fresh_module, \<lambda>_. Start) = (m, pc)"
  shows "length (sm_created m) \<le> 1 \<and>
    (\<forall>t e. pc t = Returned e \<longrightarrow> sm_created m = [e] \<and> sm_engine m = Some e) \<and>
    (\<forall>t t'. pc t = Holding \<and> pc t' = Holding \<longrightarrow> t = t') \<and>
    ((\<forall>t. pc t \<noteq> Holding) \<longrightarrow> sm_lock m = None)"
proof -
  have "module_ok fresh_module (\<lambda>_. Start)" by (simp add: module_ok_def fresh_module_def)
  note ok = module_ok_run [OF this assms]
  have "sm_lock m = None" if "\<forall>t. pc t \<noteq> Holding" using that module_okD(1) [OF ok] by (cases "sm_lock m") auto
  moreover have "t = t'" if "pc t = Holding" "pc t' = Holding" for t t'
    using that module_okD(1) [OF ok, of t] module_okD(1) [OF ok, of t'] by simp
  moreover have "sm_created m = [e] \<and> sm_engine m = Some e" if "pc t = Returned e" for t e
    using module_okD(2) [OF ok that] module_okD(3) [OF ok] by simp
  moreover have "length (sm_created m) \<le> 1" using module_okD(3) [OF ok] by (simp split: option.splits)
  ultimately show ?thesis by blast
qed

theorem engine_created_once_witness:
  "\<exists>m pc. get_engine_run (\<lambda>n. if n = 0 then Inl (External ''ArgumentError'') else Inr ()) [1, 2, 3, 2, 1, 3, 2, 1, 1, 3, 3]
     (fresh_module, \<lambda>_. Start) = (m, pc) \<and>
     pc 1 = Returned 1 \<and> pc 2 = Raised (External ''ArgumentError'') \<and> pc 3 = Returned 1 \<and> length (sm_created m) \<le> 1"
proof -
  let ?mk = "\<lambda>n. if n = 0 then Inl (External ''ArgumentError'') else Inr ()"
  obtain m pc where run: "get_engine_run ?mk [1, 2, 3, 2, 1, 3, 2, 1, 1, 3, 3] (fresh_module, \<lambda>_. Start) = (m, pc)"
    by (metis surj_pair)
  then have "pc 1 = Returned 1 \<and> pc 2 = Raised (External ''ArgumentError'') \<and> pc 3 = Returned 1"
    by (auto simp: get_engine_run_def get_engine_step_def create_engine_def fresh_module_def)
  with run engine_created_once [OF run] show ?thesis by blast
qed

section \<open>Health\<close>

datatype health_status = HEALTHY | READY | NOT_READY | ALIVE

fun health_status_value :: "health_status \<Rightarrow> string" where
  "health_status_value HEALTHY = ''healthy''"
| "health_status_value READY = ''ready''"
| "health_status_value NOT_READY = ''not_ready''"
| "health_status_value ALIVE = ''alive''"

text \<open>The status code and the \<open>status\<close> field of a response; the service's name is left out.\<close>

type_synonym health_response = "int \<times> health_status"

text \<open>\<open>probe\<close> is what connecting and \<open>SELECT 1\<close> return or raise.\<close>

definition check_database :: "exn + unit \<Rightarrow> exn + bool" where
  "check_database probe =
     (case probe of Inr _ \<Rightarrow> Inr True | Inl e \<Rightarrow> if is_Exception e then Inr False else Inl e)"

definition health_check :: health_response where
  "health_check = (200, HEALTHY)"

definition readiness :: "exn + unit \<Rightarrow> exn + health_response" where
  "readiness probe =
     map_res (\<lambda>ok. if \<not> ok then (503, NOT_READY) else (200, READY)) (check_database probe)"

definition liveness :: health_response where
  "liveness = (200, ALIVE)"

lemma readiness_cases:
  "readiness probe = (case probe of
     Inr _ \<Rightarrow> Inr (200, READY)
   | Inl e \<Rightarrow> if is_Exception e then Inr (503, NOT_READY) else Inl e)"
  by (simp add: readiness_def check_database_def split: sum.split)

section \<open>The session factory\<close>

text \<open>What one task at a time keeps: the factory is bound to the engine of the process.\<close>

definition bound :: "session_module \<Rightarrow> bool" where
  "bound m \<longleftrightarrow> (\<forall>f. sm_sessionmaker m = Some f \<longrightarrow> sm_engine m = Some f)"

datatype session_op = CallEngine | CallSessionmaker | CallDispose "exn + unit"

fun session_call :: "(nat \<Rightarrow> exn + unit) \<Rightarrow> session_op \<Rightarrow> session_module \<Rightarrow> session_module" where
  "session_call mk CallEngine m = snd (get_engine mk m)"
| "session_call mk CallSessionmaker m = snd (get_sessionmaker mk m)"
| "session_call mk (CallDispose r) m = snd (dispose_engine r m)"

lemma create_engine_cases:
  "create_engine mk m = (r, m') \<Longrightarrow> (\<exists>e. r = Inl e \<and> sm_engine m' = sm_engine m \<and> sm_sessionmaker m' = sm_sessionmaker m) \<or>
     (r = Inr () \<and> sm_engine m' = Some (sm_calls m) \<and> sm_sessionmaker m' = sm_sessionmaker m)"
  by (cases "mk (sm_calls m)"; cases r) (auto simp: create_engine_def)

lemma get_engine_cases:
  "get_engine mk m = (r, m') \<Longrightarrow> sm_sessionmaker m' = sm_sessionmaker m \<and>
     (case r of Inl e \<Rightarrow> sm_engine m = None \<and> sm_engine m' = None
      | Inr e \<Rightarrow> sm_engine m' = Some e \<and> (sm_engine m = None \<or> m' = m))"
  by (auto simp: get_engine_def dest!: create_engine_cases split: option.splits sum.splits prod.splits)

lemma get_sessionmaker_cases:
  "get_sessionmaker mk m = (r, m') \<Longrightarrow> bound m \<Longrightarrow> bound m' \<and>
     (\<forall>f. r = Inr f \<longrightarrow> sm_engine m' = Some f \<and> sm_sessionmaker m' = Some f)"
  by (auto simp: get_sessionmaker_def bound_def dest!: get_engine_cases split: option.splits sum.splits prod.splits)

lemma session_call_bound: "bound m \<Longrightarrow> bound (session_call mk c m)"
proof (cases c)
  case CallEngine
  assume b: "bound m"
  obtain r m' where run: "get_engine mk m = (r, m')" by (metis surj_pair)
  from get_engine_cases [OF run] b show ?thesis by (cases r) (auto simp: CallEngine bound_def run)
next
  case CallSessionmaker
  assume b: "bound m"
  obtain r m' where run: "get_sessionmaker mk m = (r, m')" by (metis surj_pair)
  from get_sessionmaker_cases [OF run b] show ?thesis by (simp add: CallSessionmaker run)
next
  case (CallDispose r)
  assume "bound m"
  then show ?thesis by (auto simp: CallDispose dispose_engine_def bound_def split: sum.splits option.splits)
qed

lemma session_calls_bound: "bound m \<Longrightarrow> bound (fold (session_call mk) cs m)"
  by (induction cs arbitrary: m) (simp_all add: session_call_bound)

text \<open>
  The session factory a process works with always belongs to its current engine: after
  any calls of the module's functions, with creations and disposals that succeed or raise, a call of
  \<open>get_sessionmaker\<close> that returns gives a factory of the engine that \<open>get_engine\<close> returns next,
  never of one that was disposed.
\<close>

theorem sessionmaker_bound:
  assumes "get_sessionmaker mk (fold (session_call mk) cs fresh_module) = (Inr f, m)"
  shows "get_engine mk m = (Inr f, m) \<and> get_sessionmaker mk m = (Inr f, m)"
proof -
  have "bound (fold (session_call mk) cs fresh_module)"
    by (rule session_calls_bound) (simp add: bound_def fresh_module_def)
  from get_sessionmaker_cases [OF assms this] have "sm_engine m = Some f" "sm_sessionmaker m = Some f" by simp_all
  then show ?thesis by (simp add: get_engine_def get_sessionmaker_def)
qed

theorem sessionmaker_bound_witness:
  "\<exists>m. get_sessionmaker (\<lambda>_. Inr ()) (fold (session_call (\<lambda>_. Inr ())) [CallSessionmaker, CallDispose (Inr ())] fresh_module) =
     (Inr 1, m) \<and> get_engine (\<lambda>_. Inr ()) m = (Inr 1, m)"
proof -
  let ?m = "fold (session_call (\<lambda>_. Inr ())) [CallSessionmaker, CallDispose (Inr ())] fresh_module"
  have "\<exists>m. get_sessionmaker (\<lambda>_. Inr ()) ?m = (Inr 1, m)"
    by (simp add: get_sessionmaker_def get_engine_def create_engine_def dispose_engine_def fresh_module_def)
  then obtain m where "get_sessionmaker (\<lambda>_. Inr ()) ?m = (Inr 1, m)" by blast
  with sessionmaker_bound [OF this] show ?thesis by blast
qed

end
