(* ===== verification/Runtime.thy ===== *)
theory Runtime
  imports Engine ModuleLoader Webhook FakeGateway Consumer
begin

text \<open>
  \<open>main.py\<close>, \<open>runtime/lifespan/lifespan.py\<close>, \<open>runtime/di/containers/payments.py\<close> and
  \<open>runtime/bootstrap/worker_main.py\<close>: how the two processes start and stop. What the database, the
  broker and the metrics server return or raise at each step is a parameter; what a process does is
  the list of its steps, in order.
\<close>

section \<open>The server\<close>

text \<open>\<open>src/main.py\<close>: how the web process is served; the server itself is a library.\<close>

record uvicorn_config =
  uc_app :: string
  uc_host :: string
  uc_port :: int
  uc_reload :: bool
  uc_log_level :: string
  uc_access_log :: bool
  uc_proxy_headers :: bool
  uc_forwarded_allow_ips :: string

definition server_main :: "settings \<Rightarrow> uvicorn_config" where
  "server_main s =
     \<lparr>uc_app = ''src.runtime.bootstrap.app_factory:app'', uc_host = APP_HOST s, uc_port = APP_PORT s,
      uc_reload = APP_RELOAD s, uc_log_level = LOG_LEVEL s, uc_access_log = True, uc_proxy_headers = True,
      uc_forwarded_allow_ips = ''*''\<rparr>"

section \<open>The web process\<close>

text \<open>The container holds the session factory; its handlers share it. The clock is an argument of the handlers.\<close>

record payments_container =
  pc_sessionmaker :: engine

record app_state =
  as_settings :: "settings option"
  as_engine :: "engine option"
  as_sessionmaker :: "engine option"
  as_container :: "payments_container option"

record web_process =
  wp_module :: session_module
  wp_state :: app_state
  wp_app :: web_app
  wp_registry :: registry

text \<open>What the start of the web process meets.\<close>

record web_env =
  wb_settings :: "exn + settings"
  wb_make :: "nat \<Rightarrow> exn + unit"
  wb_probe :: "exn + unit"
  wb_importer :: importer
  wb_packages :: "string list"
  wb_dispose :: "exn + unit"

definition startup :: "web_env \<Rightarrow> web_process \<Rightarrow> (exn + unit) \<times> web_process" where
  "startup env w =
     (case wb_settings env of
        Inl e \<Rightarrow> (Inl e, w)
      | Inr s \<Rightarrow>
        (case get_engine (wb_make env) (wp_module w) of
           (Inl e, m1) \<Rightarrow> (Inl e, w\<lparr>wp_module := m1\<rparr>)
         | (Inr engine, m1) \<Rightarrow>
           (case get_sessionmaker (wb_make env) m1 of
              (Inl e, m2) \<Rightarrow> (Inl e, w\<lparr>wp_module := m2\<rparr>)
            | (Inr f, m2) \<Rightarrow>
              (case (if STRICT_STARTUP s then wb_probe env else Inr ()) of
                 Inl e \<Rightarrow> (Inl e, w\<lparr>wp_module := m2\<rparr>)
               | Inr _ \<Rightarrow>
                 (let st = \<lparr>as_settings = Some s, as_engine = Some engine, as_sessionmaker = Some f,
                            as_container = Some \<lparr>pc_sessionmaker = f\<rparr>\<rparr>;
                      w1 = w\<lparr>wp_module := m2, wp_state := st\<rparr>
                  in case mount_all (wb_importer env) (wb_packages env) (wp_app w) s (wp_registry w) of
                       (Inl e, r) \<Rightarrow> (Inl e, w1\<lparr>wp_registry := r\<rparr>)
                     | (Inr app, r) \<Rightarrow> (Inr (), w1\<lparr>wp_app := app, wp_registry := r\<rparr>))))))"

text \<open>The \<open>finally\<close> block after the application has run.\<close>

definition shutdown :: "web_env \<Rightarrow> web_process \<Rightarrow> (exn + unit) \<times> web_process" where
  "shutdown env w =
     (case dispose_engine (wb_dispose env) (wp_module w) of
        (Inl e, m) \<Rightarrow> (Inl e, w\<lparr>wp_module := m\<rparr>)
      | (Inr _, m) \<Rightarrow>
          (Inr (), w\<lparr>wp_module := m, wp_state := (wp_state w)\<lparr>as_engine := None, as_sessionmaker := None\<rparr>\<rparr>))"

text \<open>\<open>served\<close> is how the application ends: it returns or an exception is thrown into the context.\<close>

definition lifespan :: "web_env \<Rightarrow> exn + unit \<Rightarrow> web_process \<Rightarrow> (exn + unit) \<times> web_process" where
  "lifespan env served w =
     (case startup env w of
        (Inl e, w1) \<Rightarrow> (Inl e, w1)
      | (Inr _, w1) \<Rightarrow>
          (case shutdown env w1 of
             (Inl e, w2) \<Rightarrow> (Inl e, w2)
           | (Inr _, w2) \<Rightarrow> (served, w2)))"

section \<open>The worker process\<close>

datatype worker_event =
    MetricsServerStarted int
  | EngineCreated
  | ConsumerRegistered
  | BrokerStarted
  | TopologyDeclared
  | WorkersStarted
  | BrokerStopped
  | EngineDisposed

text \<open>What the environment of the worker process returns or raises, and how its two loops end.\<close>

record main_env =
  mn_settings :: "exn + settings"
  mn_metrics_server :: "exn + unit"
  mn_engine :: "exn + unit"
  mn_build_broker :: "exn + unit"
  mn_exchange_type :: "string \<Rightarrow> exn + string"
  mn_broker_start :: "exn + unit"
  mn_declare :: "exn + unit"
  mn_workers :: "exn + unit"
  mn_broker_stop :: "exn + unit"
  mn_dispose :: "exn + unit"

fun run_steps :: "(exn + worker_event) list \<Rightarrow> (exn + unit) \<times> worker_event list" where
  "run_steps [] = (Inr (), [])"
| "run_steps (Inl e # ss) = (Inl e, [])"
| "run_steps (Inr ev # ss) = (let (r, evs) = run_steps ss in (r, ev # evs))"

text \<open>The objects the process builds from the settings.\<close>

definition worker_gateway :: "settings \<Rightarrow> exn + fake_gateway" where
  "worker_gateway s = mk_fake_gateway (GATEWAY_MIN_DELAY s) (GATEWAY_MAX_DELAY s) (GATEWAY_FAILURE_RATE s)"

definition worker_policy :: "settings \<Rightarrow> exn + retry_policy" where
  "worker_policy s = mk_retry_policy (WEBHOOK_RETRY_ATTEMPTS s) (WEBHOOK_RETRY_BASE_DELAY s)"

definition worker_deliver_env ::
    "settings \<Rightarrow> retry_policy \<Rightarrow> sender \<Rightarrow> (nat \<Rightarrow> datetime) \<Rightarrow> (uuid \<Rightarrow> bool) \<Rightarrow> deliver_env" where
  "worker_deliver_env s policy send clock locked =
     \<lparr>dl_sender = send, dl_batch_size = OUTBOX_BATCH_SIZE s, dl_policy = policy,
      dl_concurrency = WEBHOOK_CONCURRENCY s, dl_clock = clock, dl_locked = locked\<rparr>"

text \<open>The steps before the \<open>try\<close>; the constructors that only store their arguments are left out.\<close>

definition worker_startup :: "main_env \<Rightarrow> settings \<Rightarrow> (exn + unit) \<times> worker_event list" where
  "worker_startup env s =
     (case run_steps
        [map_res (\<lambda>_. MetricsServerStarted (METRICS_PORT s)) (mn_metrics_server env),
         map_res (\<lambda>_. EngineCreated) (mn_engine env),
         map_res (\<lambda>_. ConsumerRegistered)
           (bind_res (mn_build_broker env) (\<lambda>_.
            bind_res (worker_gateway s) (\<lambda>_. register_consumer (mn_exchange_type env) s))),
         map_res (\<lambda>_. BrokerStarted) (mn_broker_start env),
         map_res (\<lambda>_. TopologyDeclared)
           (bind_res (declare_topology (mn_exchange_type env) s) (\<lambda>_. mn_declare env))] of
        (Inl e, evs) \<Rightarrow> (Inl e, evs)
      | (Inr _, evs) \<Rightarrow> (map_res (\<lambda>_. ()) (worker_policy s), evs))"

definition worker_finally :: "main_env \<Rightarrow> exn + unit \<Rightarrow> (exn + unit) \<times> worker_event list" where
  "worker_finally env r =
     (case run_steps [map_res (\<lambda>_. BrokerStopped) (mn_broker_stop env),
                      map_res (\<lambda>_. EngineDisposed) (mn_dispose env)] of
        (Inl e, evs) \<Rightarrow> (Inl e, evs)
      | (Inr _, evs) \<Rightarrow> (r, evs))"

definition worker_main :: "main_env \<Rightarrow> (exn + unit) \<times> worker_event list" where
  "worker_main env =
     (case mn_settings env of
        Inl e \<Rightarrow> (Inl e, [])
      | Inr s \<Rightarrow>
        (case worker_startup env s of
           (Inl e, evs) \<Rightarrow> (Inl e, evs)
         | (Inr _, evs) \<Rightarrow>
           (let r = (if mn_workers env = Inl CancelledError then Inr () else mn_workers env);
                (r', evs') = worker_finally env r
            in (r', evs @ WorkersStarted # evs'))))"

section \<open>Properties\<close>

lemma run_steps_done: "list_all is_ok ss \<Longrightarrow> run_steps ss = (Inr (), map projr ss)"
proof (induction ss)
  case (Cons x ss)
  then show ?case by (cases x) simp_all
qed simp

lemma map_res_projr: "is_ok r \<Longrightarrow> projr (map_res f r) = f (projr r)"
  by (cases r) simp_all

lemma is_ok_map_res [simp]: "is_ok (map_res f r) = is_ok r"
  by (cases r) simp_all

lemma worker_startup_done:
  assumes "is_ok (worker_gateway s)" "is_ok (mn_exchange_type env (RABBITMQ_EXCHANGE_TYPE s))"
    and "mn_metrics_server env = Inr ()" "mn_engine env = Inr ()" "mn_build_broker env = Inr ()" "mn_broker_start env = Inr ()" "mn_declare env = Inr ()"
  shows "worker_startup env s =
    (map_res (\<lambda>_. ()) (worker_policy s),
     [MetricsServerStarted (METRICS_PORT s), EngineCreated, ConsumerRegistered, BrokerStarted, TopologyDeclared])"
proof -
  obtain g where g: "worker_gateway s = Inr g" using assms(1) by (auto simp: is_ok_iff)
  obtain ty where ty: "mn_exchange_type env (RABBITMQ_EXCHANGE_TYPE s) = Inr ty" using assms(2) by (auto simp: is_ok_iff)
  show ?thesis
    using assms(3-) by (simp add: worker_startup_def g ty register_consumer_def declare_topology_def build_topology_def)
qed

text \<open>
  Property C34. The worker process starts in order and cleans up only what it can. When the gateway's
  settings and the exchange type are valid and the infrastructure answers, the consumer is registered
  before the broker starts and the topology is declared before the loops run; then, however the loops
  end, the broker is stopped and the engine disposed, and a cancellation ends the process normally.
  But if the settings of the retry policy are not valid, the process raises after the broker has
  started, outside its \<open>try\<close>: the broker is not stopped and the engine is not disposed.
\<close>

theorem worker_main_order:
  assumes "mn_settings env = Inr s"
    and "is_ok (worker_gateway s)" "is_ok (mn_exchange_type env (RABBITMQ_EXCHANGE_TYPE s))"
    and "mn_metrics_server env = Inr ()" "mn_engine env = Inr ()" "mn_build_broker env = Inr ()" "mn_broker_start env = Inr ()" "mn_declare env = Inr ()"
    and "mn_broker_stop env = Inr ()" "mn_dispose env = Inr ()"
  shows "worker_main env =
    (if 1 \<le> WEBHOOK_RETRY_ATTEMPTS s \<and> 0 \<le> WEBHOOK_RETRY_BASE_DELAY s
     then (if mn_workers env = Inl CancelledError then Inr () else mn_workers env,
           [MetricsServerStarted (METRICS_PORT s), EngineCreated, ConsumerRegistered, BrokerStarted, TopologyDeclared,
            WorkersStarted, BrokerStopped, EngineDisposed])
     else (Inl (ValueError (if WEBHOOK_RETRY_ATTEMPTS s < 1 then ''max_attempts must be at least 1''
                            else ''base_delay must be non-negative'')),
           [MetricsServerStarted (METRICS_PORT s), EngineCreated, ConsumerRegistered, BrokerStarted, TopologyDeclared]))"
  using worker_startup_done [OF assms(2-8)] assms(1,9,10)
  by (auto simp: worker_main_def worker_policy_def mk_retry_policy_def worker_finally_def Let_def)

definition demo_main :: "settings \<Rightarrow> main_env" where
  "demo_main s =
     \<lparr>mn_settings = Inr s, mn_metrics_server = Inr (), mn_engine = Inr (), mn_build_broker = Inr (), mn_exchange_type = Inr,
      mn_broker_start = Inr (), mn_declare = Inr (), mn_workers = Inl CancelledError, mn_broker_stop = Inr (),
      mn_dispose = Inr ()\<rparr>"

theorem worker_main_order_witness:
  "fst (worker_main (demo_main (default_settings ''u'' ''p'' ''d''))) = Inr () \<and>
   last (snd (worker_main (demo_main (default_settings ''u'' ''p'' ''d'')))) = EngineDisposed \<and>
   last (snd (worker_main (demo_main ((default_settings ''u'' ''p'' ''d'')\<lparr>WEBHOOK_RETRY_ATTEMPTS := 0\<rparr>)))) = TopologyDeclared"
proof -
  have ok: "is_ok (worker_gateway s)" if "s = default_settings ''u'' ''p'' ''d'' \<or>
      s = (default_settings ''u'' ''p'' ''d'')\<lparr>WEBHOOK_RETRY_ATTEMPTS := 0\<rparr>" for s
    using that by (auto simp: worker_gateway_def mk_fake_gateway_def default_settings_def)
  have main: "worker_main (demo_main s) =
    (if 1 \<le> WEBHOOK_RETRY_ATTEMPTS s \<and> 0 \<le> WEBHOOK_RETRY_BASE_DELAY s
     then (if mn_workers (demo_main s) = Inl CancelledError then Inr () else mn_workers (demo_main s),
           [MetricsServerStarted (METRICS_PORT s), EngineCreated, ConsumerRegistered, BrokerStarted, TopologyDeclared,
            WorkersStarted, BrokerStopped, EngineDisposed])
     else (Inl (ValueError (if WEBHOOK_RETRY_ATTEMPTS s < 1 then ''max_attempts must be at least 1''
                            else ''base_delay must be non-negative'')),
           [MetricsServerStarted (METRICS_PORT s), EngineCreated, ConsumerRegistered, BrokerStarted, TopologyDeclared]))"
    if "is_ok (worker_gateway s)" for s
    using that by (intro worker_main_order) (simp_all add: demo_main_def)
  show ?thesis using main [OF ok] by (simp add: demo_main_def default_settings_def)
qed

text \<open>
  Property C35. The web process releases its engine exactly when its start has succeeded. If the
  start succeeds, the application state holds the engine of the process and a factory and a container
  bound to it; when the application ends, however it ends, \<open>dispose\<close> is called once, on that engine.
  If that call returns, the two singletons and the engine and factory of the application state are
  cleared (its settings and its container stay) and the application's own outcome is passed on; if it
  raises, its error is what the process ends with, and nothing is cleared. If the start raises after
  the engine was created, because the database does not answer or a module cannot be mounted, nothing
  is disposed: the engine stays open.
\<close>

theorem lifespan_releases:
  assumes "wp_module w = fresh_module" and "wb_make env 0 = Inr ()" and "wb_settings env = Inr s"
  shows "case startup env w of
      (Inr _, w1) \<Rightarrow>
        as_engine (wp_state w1) = Some 0 \<and> as_sessionmaker (wp_state w1) = Some 0 \<and>
        as_container (wp_state w1) = Some \<lparr>pc_sessionmaker = 0\<rparr> \<and> sm_engine (wp_module w1) = Some 0 \<and>
        sm_disposed (wp_module w1) = [] \<and>
        (\<exists>w2. lifespan env served w = (case wb_dispose env of Inr _ \<Rightarrow> served | Inl e \<Rightarrow> Inl e, w2) \<and>
           sm_disposed (wp_module w2) = [0] \<and>
           (case wb_dispose env of
              Inr _ \<Rightarrow> sm_engine (wp_module w2) = None \<and> sm_sessionmaker (wp_module w2) = None \<and>
                wp_state w2 = (wp_state w1)\<lparr>as_engine := None, as_sessionmaker := None\<rparr>
            | Inl _ \<Rightarrow> sm_engine (wp_module w2) = Some 0 \<and> sm_sessionmaker (wp_module w2) = Some 0 \<and>
                wp_state w2 = wp_state w1))
    | (Inl e, w1) \<Rightarrow> lifespan env served w = (Inl e, w1) \<and> sm_engine (wp_module w1) = Some 0 \<and>
        sm_disposed (wp_module w1) = []"
  using assms
  by (auto simp: startup_def lifespan_def shutdown_def dispose_engine_def get_engine_def get_sessionmaker_def
      create_engine_def fresh_module_def Let_def split: sum.split prod.split)

definition demo_web :: web_process where
  "demo_web =
     \<lparr>wp_module = fresh_module,
      wp_state = \<lparr>as_settings = None, as_engine = None, as_sessionmaker = None, as_container = None\<rparr>,
      wp_app = \<lparr>included = []\<rparr>, wp_registry = \<lparr>r_registry = [], r_lazy = []\<rparr>\<rparr>"

definition demo_web_env :: web_env where
  "demo_web_env =
     \<lparr>wb_settings = Inr ((default_settings ''u'' ''p'' ''d'')\<lparr>STRICT_STARTUP := True\<rparr>), wb_make = (\<lambda>_. Inr ()),
      wb_probe = Inl (External ''ConnectionRefusedError''), wb_importer = repo_importer, wb_packages = [''payments''],
      wb_dispose = Inr ()\<rparr>"

theorem lifespan_releases_witness:
  "\<exists>w1. lifespan demo_web_env (Inr ()) demo_web = (Inl (External ''ConnectionRefusedError''), w1) \<and>
     sm_engine (wp_module w1) = Some 0 \<and> sm_disposed (wp_module w1) = []"
proof -
  let ?s = "(default_settings ''u'' ''p'' ''d'')\<lparr>STRICT_STARTUP := True\<rparr>"
  have pre: "wp_module demo_web = fresh_module" "wb_make demo_web_env 0 = Inr ()"
    "wb_settings demo_web_env = Inr ?s" by (simp_all add: demo_web_env_def demo_web_def)
  have "\<exists>w1. startup demo_web_env demo_web = (Inl (External ''ConnectionRefusedError''), w1)"
    by (simp add: startup_def demo_web_env_def demo_web_def get_engine_def get_sessionmaker_def create_engine_def
        fresh_module_def)
  then obtain w1 where w1: "startup demo_web_env demo_web = (Inl (External ''ConnectionRefusedError''), w1)" by blast
  from lifespan_releases [OF pre, of "Inr ()"] show ?thesis by (auto simp: w1)
qed

end
