(* ===== verification/Program.thy ===== *)
theory Program
  imports EndToEnd OutboxProgress DeliveryProgress AppFactory Runtime
begin

text \<open>
  The program as it runs: the web process answers requests through its application, the worker
  process takes messages from the broker and turns the loops of the outbox and webhook workers.
  These steps are built from the entry points of the code, with whatever clients, merchants, the
  gateway and the broker do. They refine the transition system of theory \<open>System\<close>, so its invariants
  are invariants of the program, and a payment can be followed from its message to its merchant.
\<close>

section \<open>The steps of the processes\<close>

text \<open>
  The consumer's handler is \<open>ProcessPaymentHandler\<close>; for a correlation id that is no text, which no
  message of the service carries, it may also fail without an effect.
\<close>

definition wired :: "consumer_env \<Rightarrow> bool" where
  "wired cenv \<longleftrightarrow> (\<forall>i v d. snd (ce_handler cenv i v d) = d \<or>
     (\<exists>env gw seen co. ce_handler cenv i v d =
        process_payment env gw seen \<lparr>pc_payment_id = i, pc_correlation_id = co\<rparr> d))"

inductive program_step :: "int \<Rightarrow> db \<Rightarrow> db \<Rightarrow> bool" for m :: int where
  post: "run_app cors fresh app tr req (create_route guard parse env req) d = (r, d') \<Longrightarrow> program_step m d d'"
| get: "run_app cors fresh app tr req (\<lambda>_. get_route guard path_id) d = (r, d') \<Longrightarrow> program_step m d d'"
| consume: "wired cenv \<Longrightarrow> consumer_handle cenv msg d = (r, ef, d') \<Longrightarrow> program_step m d d'"
| publish: "OUTBOX_MAX_ATTEMPTS (we_settings wenv) = m \<Longrightarrow>
     (\<And>d. (program_step m)\<^sup>*\<^sup>* d (we_others wenv d)) \<Longrightarrow>
     outbox_cycle wenv now (c, d) = (r, em, c', d') \<Longrightarrow> program_step m d d'"
| notify: "webhook_cycle denv d = (r, em, d') \<Longrightarrow> program_step m d d'"

abbreviation program_run :: "int \<Rightarrow> db \<Rightarrow> db \<Rightarrow> bool" where
  "program_run m \<equiv> (program_step m)\<^sup>*\<^sup>*"

section \<open>Each step is a run of the transition system\<close>

lemma history_run:
  "\<forall>(a, f) \<in> set h. f \<in> outbox_ops m a \<and> a \<noteq> Insert \<Longrightarrow> service_run m True d (fold (\<lambda>(a, f). f) h d)"
proof (induction h arbitrary: d)
  case Nil
  then show ?case by simp
next
  case (Cons af h)
  obtain a f where af: "af = (a, f)" by (cases af)
  with Cons.prems have "service_step m True d (f d)" by (auto intro: service_step.outbox)
  moreover have "service_run m True (f d) (fold (\<lambda>(a, f). f) h (f d))" using Cons by simp
  ultimately show ?case by (simp add: af)
qed

lemma create_route_run:
  assumes "create_route guard parse env req cid d = (r, d')" shows "service_run m purges d d'"
proof (cases "d' = d")
  case False
  have "\<exists>body key. snd (create_route guard parse env req cid d) \<in> {d, snd (create_payment env (command_of body key cid) d)}"
    by (auto simp: create_route_def post_payment_def split_beta split: sum.splits)
  with assms False obtain body key where "d' = snd (create_payment env (command_of body key cid) d)" by auto
  then have "create_payment env (command_of body key cid) d = (fst (create_payment env (command_of body key cid) d), d')"
    by simp
  from service_step.create [OF this] show ?thesis by blast
qed simp

lemma get_route_run:
  assumes "get_route guard path_id d = (r, d')" shows "service_run m purges d d'"
proof (cases "d' = d")
  case False
  have "\<exists>i. snd (get_route guard path_id d) \<in> {d, snd (get_payment_handle i d)}"
    by (auto simp: get_route_def split_beta split: sum.splits option.splits)
  with assms False obtain i where "d' = snd (get_payment_handle i d)" by auto
  then have "get_payment_handle i d = (fst (get_payment_handle i d), d')" by simp
  from service_step.read [OF this] show ?thesis by blast
qed simp

text \<open>The middleware calls the route at most once, and touches the tables through it only.\<close>

lemma stack_db:
  "\<exists>cid. snd (foldr (wrap cors fresh) ms (route_handler tr route_fn) sc d) \<in> {d, snd (route_fn cid d)}"
proof (induction ms arbitrary: sc)
  case Nil
  then show ?case by (auto simp: route_handler_def split_beta)
next
  case (Cons x ms)
  then show ?case
    by (cases x) (auto simp: request_id_dispatch_def locale_dispatch_def cors_dispatch_def Let_def split_beta
        split: sum.splits)
qed

lemma run_app_db:
  assumes "run_app cors fresh app tr req route_fn d = (r, d')"
  obtains cid where "d' = d \<or> d' = snd (route_fn cid d)"
  using assms stack_db [of cors fresh "aa_middleware app" tr route_fn "new_scope req" d]
  by (auto simp: run_app_def Let_def split_beta)

text \<open>The consumer touches the tables through its handler only.\<close>

lemma consumer_effect:
  assumes run: "consumer_handle cenv msg d = (r, ef, d')" and "d' \<noteq> d"
  obtains i v where "d' = snd (ce_handler cenv i v d)"
proof -
  have dlq: "snd (snd (send_to_dlq cenv msg d)) = d" by (simp add: send_to_dlq_def split: sum.split)
  have "d' = snd (snd (route cenv msg d))"
    using run by (auto simp: consumer_handle_def split: prod.splits sum.splits if_splits)
  with assms(2) obtain body where "d' = snd (snd (consume_process cenv body d))"
    using dlq by (auto simp: route_def split: sum.splits exn.splits pyval.splits if_splits)
  with assms(2) that show thesis by (auto simp: consume_process_def Let_def split_beta split: sum.splits)
qed

lemma consumer_run:
  assumes w: "wired cenv" and run: "consumer_handle cenv msg d = (r, ef, d')"
  shows "service_run m purges d d'"
proof (cases "d' = d")
  case False
  then obtain i v where d': "d' = snd (ce_handler cenv i v d)" by (rule consumer_effect [OF run])
  with w False obtain env gw seen co where
    "process_payment env gw seen \<lparr>pc_payment_id = i, pc_correlation_id = co\<rparr> d = (fst (ce_handler cenv i v d), d')"
    unfolding wired_def by (metis prod.collapse)
  from service_step.process [OF this] show ?thesis by blast
qed simp

lemma publish_batch_run:
  assumes m: "OUTBOX_MAX_ATTEMPTS (we_settings wenv) = m" and others: "\<And>d. service_run m True d (we_others wenv d)"
    and run: "publish_batch wenv d = (r, em, d')"
  shows "service_run m True d d'"
proof (cases "transactional True (claim_body wenv) d")
  case (Pair c d1)
  show ?thesis
  proof (cases c)
    case (Inl e)
    then have "d1 = d" using Pair by (auto dest: transactional_error)
    with run Pair Inl show ?thesis by (simp add: publish_batch_def)
  next
    case (Inr p)
    obtain em0 ms where p: "p = (em0, ms)" by (cases p)
    let ?s = "we_settings wenv"
    define d0 where "d0 = snd (release_expired_db (we_ts1 wenv) (we_now wenv) (OUTBOX_CLAIM_TIMEOUT ?s) m d)"
    have "d1 = claim_op (we_locked wenv) (OUTBOX_BATCH_SIZE ?s) (we_now wenv) (we_worker_id wenv) m d0"
      using claim_phase [of wenv d em0 ms d1] Pair Inr p by (simp add: claim_op_def m d0_def)
    moreover have "service_step m True d0
        (claim_op (we_locked wenv) (OUTBOX_BATCH_SIZE ?s) (we_now wenv) (we_worker_id wenv) m d0)"
      by (rule service_step.outbox [where a = "Claim (we_worker_id wenv)"]) auto
    moreover have "service_step m True d d0" unfolding d0_def
      by (rule service_step.outbox [where a = Expire]) auto
    ultimately have d1: "service_run m True d d1" by (meson converse_rtranclp_into_rtranclp r_into_rtranclp)
    define d2 where "d2 = we_others wenv d1"
    have d2: "service_run m True d d2" using d1 others [of d1] by (simp add: d2_def)
    have marks: "service_run m True d (snd (transactional True (mark_body wenv published failed) d2))" for published failed
    proof -
      obtain em3 where "transactional True (mark_body wenv published failed) d2 = (Inr em3, fold (mark_failure wenv) failed
          (fold (\<lambda>i. mark_processed_db (we_ts2 wenv) i (we_worker_id wenv)) published d2))" using mark_phase by blast
      moreover obtain h where "fold (mark_failure wenv) failed
          (fold (\<lambda>i. mark_processed_db (we_ts2 wenv) i (we_worker_id wenv)) published d2) = fold (\<lambda>(a, f). f) h d2"
          "\<forall>(a, f) \<in> set h. f \<in> outbox_ops m a \<and> a \<noteq> Insert" using marks_history [OF m [symmetric]] by blast
      ultimately show ?thesis using history_run [of h m d2] d2 by simp
    qed
    from run have "d' \<in> {d1, d2} \<or> (\<exists>published failed. d' = snd (transactional True (mark_body wenv published failed) d2))"
      by (auto simp: publish_batch_def Pair Inr p Let_def simp flip: d2_def split: if_splits sum.splits prod.splits)
        (metis snd_conv)+
    with d1 d2 marks show ?thesis by auto
  qed
qed

lemma outbox_cycle_run:
  assumes m: "OUTBOX_MAX_ATTEMPTS (we_settings wenv) = m" and others: "\<And>d. service_run m True d (we_others wenv d)"
    and run: "outbox_cycle wenv now (c, d) = (r, em, c', d')"
  shows "service_run m True d d'"
proof -
  obtain r1 em1 d1 where batch: "publish_batch wenv d = (r1, em1, d1)" by (metis prod_cases3)
  note d1 = publish_batch_run [OF m others batch]
  obtain h where sweep: "worker_purge wenv now d1 = (Inr (), fold (\<lambda>(a, f). f) h d1)"
    "\<forall>(a, f) \<in> set h. f \<in> outbox_ops m a \<and> a \<noteq> Insert" using sweep_history [OF m [symmetric]] by blast
  then have "service_run m True d1 d2" if "worker_purge wenv now d1 = (r2, d2)" for r2 d2
    using history_run [OF sweep(2)] that by simp
  moreover have "d' = d1 \<or> (\<exists>r2. worker_purge wenv now d1 = (r2, d'))"
    using run by (auto simp: outbox_cycle_def batch Let_def split: sum.splits if_splits prod.splits)
  ultimately show ?thesis using d1 by (meson rtranclp_trans)
qed

lemma webhook_cycle_run:
  assumes "webhook_cycle denv d = (r, em, d')" shows "service_run m purges d d'"
proof -
  have "deliver_webhooks denv d = (fst (deliver_webhooks denv d), d')"
    using assms by (auto simp: webhook_cycle_def process_once_def split: prod.splits sum.splits)
  from service_step.deliver [OF this] show ?thesis by blast
qed

lemma program_step_run: "program_step m d d' \<Longrightarrow> service_run m True d d'"
proof (induction rule: program_step.induct)
  case (post cors fresh app tr req guard parse env d r d')
  then show ?case
    by (rule run_app_db) (metis create_route_run prod.collapse rtranclp.rtrancl_refl)
next
  case (get cors fresh app tr req guard path_id d r d')
  then show ?case
    by (rule run_app_db) (metis get_route_run prod.collapse rtranclp.rtrancl_refl)
next
  case (consume cenv msg d r ef d')
  then show ?case by (rule consumer_run)
next
  case (publish wenv now c d r em c' d')
  have "service_run m True d (we_others wenv d)" for d
  proof -
    have "(\<lambda>x y. program_step m x y \<and> service_run m True x y)\<^sup>*\<^sup>* d (we_others wenv d)" using publish(3) by blast
    then show ?thesis by (induction rule: rtranclp_induct) (auto intro: rtranclp_trans)
  qed
  from outbox_cycle_run [OF publish(1) this publish(2)] show ?case .
next
  case (notify denv d r em d')
  then show ?case by (rule webhook_cycle_run)
qed

lemma program_run_run: "program_run m d d' \<Longrightarrow> service_run m True d d'"
  by (induction rule: rtranclp_induct) (auto intro: rtranclp_trans dest: program_step_run)

lemma program_run_ok: "0 < m \<Longrightarrow> program_run m empty_db d \<Longrightarrow> system_ok m d"
  using service_run_ok [OF program_run_run] system_ok_empty by blast

section \<open>What clients see of a payment\<close>

text \<open>A run moves a payment along its lifecycle only, so a final state is kept.\<close>

lemma service_run_moves:
  assumes "service_run m purges d d'" and "system_ok m d"
  shows "payment_move\<^sup>*\<^sup>* (payment_state i d) (payment_state i d')"
  using assms(1)
proof (induction rule: rtranclp_induct)
  case (step x y)
  from service_step_move [OF service_run_ok [OF step(1) assms(2)] step(2), of i] step(3)
  show ?case by (auto intro: rtranclp.rtrancl_into_rtrancl)
qed simp

lemma payment_moves_final:
  assumes "payment_move\<^sup>*\<^sup>* (Some (st, 2)) x" shows "x = Some (st, 2)"
  using assms by (induction rule: rtranclp_induct) (auto elim: payment_move_from_Some)

text \<open>
  Property C2. The program refines the transition system. Take any state that the processes can
  reach together, from the empty database, with whatever requests, broker messages, answers of the
  gateway and of merchants, failures, and work of other processes in the middle of a batch. It is a
  state of the transition system, in which the tables are consistent; and the next step of any
  process moves every payment along its lifecycle only, from nothing to pending to succeeded or failed.
\<close>

theorem program_refines_service:
  assumes "0 < m" and "program_run m empty_db d" and "program_step m d d'"
  shows "service_run m True empty_db d' \<and> system_ok m d' \<and>
    payment_move\<^sup>*\<^sup>* (payment_state i d) (payment_state i d')"
proof -
  have ok: "system_ok m d" by (rule program_run_ok [OF assms(1,2)])
  note step = program_step_run [OF assms(3)]
  have "service_run m True empty_db d'" using program_run_run [OF assms(2)] step by (rule rtranclp_trans)
  with ok service_run_ok [OF step ok] service_run_moves [OF step ok] show ?thesis by blast
qed

text \<open>The demonstration payment, created by a request and processed by the consumer.\<close>

definition demo_web_app :: asgi_app where
  "demo_web_app = new_app demo_settings"

lemma demo_posted: "program_run m empty_db demo_db"
proof -
  have "validate_request demo_parse demo_request (VDict []) = Inr (the (demo_parse (VDict [])), ''order-1'')"
    by (simp add: validate_request_def demo_request_def demo_parse_def schema_ok_def whole_cents_def validate_webhook_url_def)
  moreover have "hq_body demo_request = Decoded (VDict [])" by (simp add: demo_request_def)
  moreover have "command_of (the (demo_parse (VDict []))) ''order-1'' None = demo_command"
    by (simp add: command_of_def demo_parse_def demo_command_def)
  moreover obtain dto where "create_payment demo_env demo_command empty_db = (Inr dto, demo_db)" using demo_create by blast
  ultimately have "\<exists>r. run_app (\<lambda>_ _ _. Inr id) ''f'' demo_web_app demo_translator demo_request
      (create_route (Inr ()) demo_parse demo_env demo_request) empty_db = (r, demo_db)"
    by (simp add: run_app_def demo_web_app_def new_app_def Let_def route_handler_def new_scope_def create_route_def
        post_payment_def exception_middleware_def)
  then show ?thesis using program_step.post by blast
qed

lemma demo_wired: "wired demo_pipeline"
  by (auto simp: wired_def demo_pipeline_def)

theorem program_refines_service_witness:
  "\<exists>msg ef d'. consumer_handle demo_pipeline msg demo_db = (Inr (), ef @ [Acked], d') \<and> system_ok 5 d' \<and>
     payment_state 1 d' \<noteq> payment_state 1 demo_db \<and>
     payment_move\<^sup>*\<^sup>* (payment_state 1 demo_db) (payment_state 1 d')"
proof -
  obtain msg ef d' where run: "consumer_handle demo_pipeline msg demo_db = (Inr (), ef @ [Acked], d')"
    "payment_state 1 d' \<in> {Some (''succeeded'', 2), Some (''failed'', 2)}" using payment_end_to_end_witness by blast
  have "program_step 5 demo_db d'" by (rule program_step.consume [OF demo_wired run(1)])
  then have "system_ok 5 d'" "payment_move\<^sup>*\<^sup>* (payment_state 1 demo_db) (payment_state 1 d')"
    using program_refines_service [OF _ demo_posted, of 5 d' 1] by simp_all
  moreover have "payment_state 1 d' \<noteq> payment_state 1 demo_db" using run(2) demo_process_facts(2) by auto
  ultimately show ?thesis using run(1) by blast
qed

section \<open>From the message to the merchant\<close>

lemma webhook_loop_run: "webhook_loop envs d = (r, em, d') \<Longrightarrow> service_run m purges d d'"
proof (induction envs arbitrary: d em)
  case Nil
  then show ?case by simp
next
  case (Cons env envs)
  obtain r1 em1 d1 where turn: "webhook_cycle env d = (r1, em1, d1)" by (metis prod_cases3)
  note d1 = webhook_cycle_run [OF turn]
  show ?case
  proof (cases r1)
    case (Inl e)
    with Cons.prems turn d1 show ?thesis by simp
  next
    case (Inr u)
    with Cons.prems turn obtain em2 where "webhook_loop envs d1 = (r, em2, d')" by (auto split: prod.splits)
    from d1 Cons.IH [OF this] show ?thesis by (rule rtranclp_trans)
  qed
qed

lemma final_delivery:
  assumes "0 < m" and run: "service_run m purges empty_db d"
    and state: "payment_state i d = Some (st, 2)" and "\<not> some_pending d"
  obtains w where "filter (\<lambda>w. wr_payment_id w = i) (webhook_deliveries d) = [w]"
    "wr_event_type w = ''payment.'' @ st" "wr_status w \<in> {''success'', ''failed''}"
proof -
  have ok: "system_ok m d" using service_run_ok [OF run] system_ok_empty [OF assms(1)] by simp
  from state obtain r where r: "r \<in> set (payments d)" "pr_id r = i" "pr_status r = st" "pr_version r = 2"
    by (auto simp: payment_state_def dest: row_by_SomeD)
  with ok have "payment_story d r" by (simp add: system_ok_def)
  with r have "delivery_links i d = [''payment.'' @ st]" by (auto simp: payment_story_def split: if_splits)
  moreover have "delivery_links i d = map wr_event_type (filter (\<lambda>w. wr_payment_id w = i) (webhook_deliveries d))"
    by (simp add: delivery_links_def delivery_keys_def filter_map comp_def)
  ultimately obtain w where w: "filter (\<lambda>w. wr_payment_id w = i) (webhook_deliveries d) = [w]"
    "wr_event_type w = ''payment.'' @ st" by auto
  then have mem: "w \<in> set (webhook_deliveries d)" using filter_set [of "\<lambda>w. wr_payment_id w = i" "webhook_deliveries d"] by auto
  have "list_all delivery_typed (webhook_deliveries d)"
    using service_run_typed [OF run assms(1)] by (simp add: rows_typed_def)
  with mem assms(4) have "wr_status w \<in> {''success'', ''failed''}"
    by (auto simp: delivery_typed_def list_all_iff some_pending_def list_ex_iff)
  with w show thesis by (rule that)
qed

text \<open>What the webhook worker makes of a settled payment.\<close>

lemma webhook_loop_notifies:
  assumes "0 < m" and reach: "service_run m True empty_db d" and state: "payment_state i d = Some (st, 2)"
    and good: "\<forall>denv \<in> set envs. good_env k denv" and "k < 2 ^ 31"
  shows "\<exists>em d'. webhook_loop envs d = (Inr (), em, d') \<and> payment_state i d' = Some (st, 2) \<and>
    (timely envs d \<and> delivery_work k d \<le> length envs \<longrightarrow>
       (\<exists>w. filter (\<lambda>w. wr_payment_id w = i) (webhook_deliveries d') = [w] \<and>
          wr_event_type w = ''payment.'' @ st \<and> wr_status w \<in> {''success'', ''failed''}))"
proof -
  obtain em d' where loop: "webhook_loop envs d = (Inr (), em, d')"
    and fin: "timely envs d \<and> delivery_work k d \<le> length envs \<longrightarrow> \<not> some_pending d'"
    using webhook_loop_settles [OF reachable_deliverable [OF assms(1) reach] good assms(5)] by blast
  note run = webhook_loop_run [OF loop]
  have ok: "system_ok m d" using service_run_ok [OF reach] system_ok_empty [OF assms(1)] by simp
  have reach': "service_run m True empty_db d'" using reach run by (rule rtranclp_trans)
  have state': "payment_state i d' = Some (st, 2)"
    by (rule payment_moves_final) (use service_run_moves [OF run ok, of i] state in simp)
  have "\<exists>w. filter (\<lambda>w. wr_payment_id w = i) (webhook_deliveries d') = [w] \<and>
      wr_event_type w = ''payment.'' @ st \<and> wr_status w \<in> {''success'', ''failed''}" if "\<not> some_pending d'"
    by (rule final_delivery [OF assms(1) reach' state' that]) blast
  with loop state' fin show ?thesis by blast
qed


lemma demo_told:
  assumes "consumer_handle demo_pipeline msg demo_db = (r, ef, d1)" and "d1 \<noteq> demo_db"
  shows "\<exists>ev co. webhook_deliveries d1 = [delivery_to_model (delivery_create 31 1 ev co 300)]"
proof -
  from consumer_effect [OF assms] obtain i v where "d1 = snd (ce_handler demo_pipeline i v demo_db)" .
  then have "\<exists>gw c. d1 = snd (process_payment demo_process_env gw demo_db c demo_db)"
    unfolding demo_pipeline_def by auto
  then obtain gw c where d1: "d1 = snd (process_payment demo_process_env gw demo_db c demo_db)" by blast
  have "process_payment demo_process_env gw demo_db c demo_db =
      (fst (process_payment demo_process_env gw demo_db c demo_db), d1)" by (simp add: d1)
  then show ?thesis
  proof (cases rule: process_payment_cases [OF demo_process_facts(1), consumes 1, case_names unchanged settled])
    case unchanged
    with assms(2) show ?thesis by simp
  next
    case (settled existing v r)
    have "pc_payment_id c = 1"
      using settled(1) by (auto simp: payment_state_def demo_row_def split: if_splits)
    then show ?thesis
      by (auto simp: settled(6) settled_def staged_delivery_def demo_process_env_def)
  qed
qed


section \<open>The worker process as it is composed\<close>

text \<open>
  \<open>worker_main.py\<close> gives its parts these arguments: the consumer gets the process handler over the fake
  gateway; the outbox worker and the delivery handler get the settings. \<open>bad_correlation\<close> is what the
  driver makes of a correlation id that is no text.
\<close>

record worker_world =
  ww_process :: process_env
  ww_draw :: charge_draw
  ww_seen :: "db \<Rightarrow> db"
  ww_bad_correlation :: "uuid \<Rightarrow> pyval \<Rightarrow> exn + process_result"
  ww_publish_dlq :: "exn + unit"
  ww_ack :: "exn + unit"
  ww_nack :: "exn + unit"
  ww_elapsed :: rat

definition worker_process_handler ::
    "fake_gateway \<Rightarrow> worker_world \<Rightarrow> uuid \<Rightarrow> pyval \<Rightarrow> db \<Rightarrow> (exn + process_result) \<times> db" where
  "worker_process_handler g w i v d =
     (let handle = (\<lambda>co. process_payment (ww_process w) (fake_charge g (ww_draw w)) (ww_seen w d)
            \<lparr>pc_payment_id = i, pc_correlation_id = co\<rparr> d)
      in case v of VNone \<Rightarrow> handle None | VStr s \<Rightarrow> handle (Some s) | _ \<Rightarrow> (ww_bad_correlation w i v, d))"

definition worker_consumer_env :: "settings \<Rightarrow> fake_gateway \<Rightarrow> worker_world \<Rightarrow> consumer_env" where
  "worker_consumer_env s g w =
     \<lparr>ce_settings = s, ce_handler = worker_process_handler g w, ce_publish = ww_publish_dlq w,
      ce_ack = ww_ack w, ce_nack = ww_nack w, ce_elapsed = ww_elapsed w\<rparr>"

lemma worker_consumer_wired: "wired (worker_consumer_env s g w)"
  unfolding wired_def
proof (intro allI)
  fix i v d
  show "snd (ce_handler (worker_consumer_env s g w) i v d) = d \<or>
    (\<exists>env gw seen co. ce_handler (worker_consumer_env s g w) i v d =
       process_payment env gw seen \<lparr>pc_payment_id = i, pc_correlation_id = co\<rparr> d)"
    by (cases v) (auto simp: worker_consumer_env_def worker_process_handler_def Let_def)
qed

text \<open>Settings under which the loops make progress; the shipped defaults are such.\<close>

definition progress_settings :: "settings \<Rightarrow> bool" where
  "progress_settings s \<longleftrightarrow> 0 < OUTBOX_BATCH_SIZE s \<and> 0 < OUTBOX_PUBLISH_CONCURRENCY s \<and>
     OUTBOX_PURGE_INTERVAL s \<noteq> 0 \<and> 0 < WEBHOOK_CONCURRENCY s"

lemma default_progress: "progress_settings (default_settings u p d)"
  by (simp add: progress_settings_def default_settings_def)

lemma default_objects:
  "worker_policy (default_settings u p d) = Inr \<lparr>max_attempts = 3, base_delay = 1\<rparr>"
  "worker_gateway (default_settings u p d) = Inr \<lparr>fg_min_delay = 2, fg_max_delay = 5, fg_failure_rate = 1/10\<rparr>"
  by (simp_all add: worker_policy_def worker_gateway_def default_settings_def mk_retry_policy_def mk_fake_gateway_def)

lemma configured_outbox_worker:
  assumes "progress_settings s" "we_settings env = s"
    and "is_ok (we_exchange_type env (RABBITMQ_EXCHANGE_TYPE s))" "\<And>x. we_publish env x \<noteq> Inl CancelledError"
  shows "good_worker (OUTBOX_MAX_ATTEMPTS s) env"
  using assms by (simp add: good_worker_def progress_settings_def)

text \<open>A client whose failures are the \<open>httpx.HTTPError\<close>s it catches, and whose answers the columns can store.\<close>

definition client_answers :: "webhook_client \<Rightarrow> bool" where
  "client_answers client \<longleftrightarrow> (\<forall>rq. case wc_post client rq of
     Response code text \<Rightarrow> int4 code \<and> text_ok text | HttpError message \<Rightarrow> text_ok message | HttpRaises e \<Rightarrow> False)"

lemma webhook_send_answers:
  assumes "client_answers client" "json_dict (p_metadata p)"
  shows "\<exists>r. webhook_send client p x = Inr r \<and> answer_storable r"
proof -
  obtain js where "json_dumps (wc_float_repr client) (VDict (build_webhook_payload p x)) = Inr js"
    using json_dumps_total [OF payload_jsonable [OF assms(2)]] by blast
  then obtain rq where rq: "webhook_request client p x = Inr rq" by (simp add: webhook_request_def Let_def)
  with assms(1) show ?thesis
    by (cases "wc_post client rq")
      (auto simp: webhook_send_def client_answers_def answer_storable_def text_ok_take dest!: spec [of _ rq])
qed

lemma configured_webhook_worker:
  assumes "progress_settings s" "worker_policy s = Inr policy" and "client_answers client"
  shows "good_env (WEBHOOK_RETRY_ATTEMPTS s) (worker_deliver_env s policy (webhook_send client) clock locked)"
  using assms webhook_send_answers by (auto simp: good_env_def progress_settings_def worker_deliver_env_def worker_policy_def
      mk_retry_policy_def split: if_splits)

end
