(* ===== verification/Ports.thy ===== *)
theory Ports
  imports CreatePayment OutboxRepo
begin

text \<open>
  \<open>domain/repositories/\<close> and \<open>domain/uow.py\<close>: the ports the handlers are written against, as records
  of operations on a state, and the adapters that \<open>infrastructure/uow.py\<close> binds to them. A port's
  operation may raise, returns a value and changes the state. What the adapters read besides the
  tables, the row locks of others and the clock of the database, is an argument of the adapter.
\<close>

section \<open>The ports\<close>

record 's payment_repository =
  pp_try_insert :: "payment \<Rightarrow> 's \<Rightarrow> exn + payment option \<times> 's"
  pp_get :: "uuid \<Rightarrow> 's \<Rightarrow> exn + payment option \<times> 's"
  pp_get_by_idempotency_key :: "string \<Rightarrow> 's \<Rightarrow> exn + payment option \<times> 's"
  pp_begin_processing :: "uuid \<Rightarrow> int \<Rightarrow> payment_status \<Rightarrow> 's \<Rightarrow> exn + bool \<times> 's"
  pp_mark_succeeded :: "uuid \<Rightarrow> int \<Rightarrow> payment_status \<Rightarrow> datetime \<Rightarrow> 's \<Rightarrow> exn + bool \<times> 's"
  pp_mark_failed :: "uuid \<Rightarrow> int \<Rightarrow> payment_status \<Rightarrow> datetime \<Rightarrow> 's \<Rightarrow> exn + bool \<times> 's"

record 's attempt_repository =
  ap_add :: "attempt \<Rightarrow> 's \<Rightarrow> exn + unit \<times> 's"
  ap_get_by_payment_id :: "uuid \<Rightarrow> 's \<Rightarrow> exn + attempt list \<times> 's"
  ap_update :: "attempt \<Rightarrow> 's \<Rightarrow> exn + unit \<times> 's"

record 's outbox_repository =
  op_release_expired_claims :: "datetime \<Rightarrow> int \<Rightarrow> int \<Rightarrow> 's \<Rightarrow> exn + (nat \<times> nat) \<times> 's"
  op_claim_batch :: "int \<Rightarrow> datetime \<Rightarrow> uuid \<Rightarrow> int \<Rightarrow> 's \<Rightarrow> exn + outbox_message list \<times> 's"
  op_mark_processed :: "uuid \<Rightarrow> uuid \<Rightarrow> 's \<Rightarrow> exn + unit \<times> 's"
  op_mark_publish_failure :: "uuid \<Rightarrow> uuid \<Rightarrow> int \<Rightarrow> datetime option \<Rightarrow> 's \<Rightarrow> exn + unit \<times> 's"
  op_reap_exhausted :: "int \<Rightarrow> 's \<Rightarrow> exn + unit \<times> 's"
  op_purge_processed :: "datetime \<Rightarrow> 's \<Rightarrow> exn + unit \<times> 's"

record 's webhook_delivery_repository =
  dp_add :: "delivery \<Rightarrow> 's \<Rightarrow> exn + unit \<times> 's"
  dp_get :: "uuid \<Rightarrow> 's \<Rightarrow> exn + delivery option \<times> 's"
  dp_claim_due :: "int \<Rightarrow> datetime \<Rightarrow> 's \<Rightarrow> exn + delivery list \<times> 's"
  dp_update :: "delivery \<Rightarrow> 's \<Rightarrow> exn + unit \<times> 's"

text \<open>A unit of work over a world \<open>'w\<close> that holds the state \<open>'s\<close> of the repositories.\<close>

record ('s, 'w) unit_of_work =
  payment_repository :: "'s payment_repository"
  attempt_repository :: "'s attempt_repository"
  outbox_repository :: "'s outbox_repository"
  webhook_delivery_repository :: "'s webhook_delivery_repository"
  collected_events :: "'s \<Rightarrow> domain_event list"
  uw_enter :: "'w \<Rightarrow> 'w"
  uw_exit :: "bool \<Rightarrow> 'w \<Rightarrow> 'w"
  uw_commit :: "'w \<Rightarrow> (exn + unit) \<times> 'w"
  uw_rollback :: "'w \<Rightarrow> 'w"
  uw_collect_events :: "domain_event list \<Rightarrow> 's \<Rightarrow> exn + unit \<times> 's"

section \<open>The adapters\<close>

definition sqlalchemy_payments :: "uow payment_repository" where
  "sqlalchemy_payments =
     \<lparr>pp_try_insert = (\<lambda>p. repo (try_insert p)), pp_get = (\<lambda>i. repo (get_payment i)),
      pp_get_by_idempotency_key = (\<lambda>k. repo (get_by_idempotency_key k)),
      pp_begin_processing = (\<lambda>i v st. repo (begin_processing i v st)),
      pp_mark_succeeded = (\<lambda>i v st t. repo (repo_mark_succeeded i v st t)),
      pp_mark_failed = (\<lambda>i v st t. repo (repo_mark_failed i v st t))\<rparr>"

definition sqlalchemy_attempts :: "uow attempt_repository" where
  "sqlalchemy_attempts =
     \<lparr>ap_add = (\<lambda>a. repo_add (attempt_add a)), ap_get_by_payment_id = (\<lambda>i. repo (get_by_payment_id i)),
      ap_update = (\<lambda>a. repo (attempt_update a))\<rparr>"

definition sqlalchemy_outbox :: "(uuid \<Rightarrow> bool) \<Rightarrow> datetime \<Rightarrow> uow outbox_repository" where
  "sqlalchemy_outbox locked db_now =
     \<lparr>op_release_expired_claims = (\<lambda>now timeout m. repo (release_expired_claims db_now now timeout m)),
      op_claim_batch = (\<lambda>limit now worker m. repo (claim_batch locked limit now worker m)),
      op_mark_processed = (\<lambda>i worker. repo (mark_processed db_now i worker)),
      op_mark_publish_failure = (\<lambda>i worker m next. repo (mark_publish_failure db_now i worker m next)),
      op_reap_exhausted = (\<lambda>m. repo (reap_exhausted db_now m)),
      op_purge_processed = (\<lambda>cutoff. repo (purge_processed cutoff))\<rparr>"

definition sqlalchemy_deliveries :: "(uuid \<Rightarrow> bool) \<Rightarrow> uow webhook_delivery_repository" where
  "sqlalchemy_deliveries locked =
     \<lparr>dp_add = (\<lambda>d. repo_add (delivery_add d)), dp_get = (\<lambda>i. repo (get_delivery i)),
      dp_claim_due = (\<lambda>limit now. repo (claim_due locked limit now)), dp_update = (\<lambda>d. repo (delivery_update d))\<rparr>"

definition sqlalchemy_uow :: "(uuid \<Rightarrow> bool) \<Rightarrow> datetime \<Rightarrow> (nat \<Rightarrow> uuid) \<Rightarrow> (uow, world) unit_of_work" where
  "sqlalchemy_uow locked db_now fresh =
     \<lparr>payment_repository = sqlalchemy_payments, attempt_repository = sqlalchemy_attempts,
      outbox_repository = sqlalchemy_outbox locked db_now,
      webhook_delivery_repository = sqlalchemy_deliveries locked, collected_events = u_collected,
      uw_enter = (\<lambda>w. (uow_enter (snd w) (fst w), snd w)), uw_exit = uow_exit, uw_commit = uow_commit,
      uw_rollback = uow_rollback, uw_collect_events = collect_events fresh\<rparr>"

section \<open>The contract of the payment port\<close>

text \<open>
  What \<open>try_insert\<close> and \<open>get_by_idempotency_key\<close> promise together: an inserted payment can be found by
  its key, and a key that can be found is not inserted again.
\<close>

abbreviation payment_key :: "payment \<Rightarrow> string" where
  "payment_key p \<equiv> key_value (p_idempotency_key p)"

locale payment_store =
  fixes R :: "'s payment_repository" and ok :: "'s \<Rightarrow> bool"
  assumes inserted: "ok s \<Longrightarrow> payment_ok p \<Longrightarrow> pp_try_insert R p s = Inr (Some q, s') \<Longrightarrow>
      ok s' \<and> (\<exists>q'. pp_get_by_idempotency_key R (payment_key p) s' = Inr (Some q', s') \<and> p_id q' = p_id q)"
    and taken: "ok s \<Longrightarrow> pp_get_by_idempotency_key R (payment_key p) s = Inr (Some q, s) \<Longrightarrow>
      pp_try_insert R p s = Inr (r, s') \<Longrightarrow> r = None \<and> s' = s"
begin

lemma same_key_same_payment:
  assumes "ok s" "payment_ok p" "pp_try_insert R p s = Inr (Some q, s1)"
    and "payment_key p' = payment_key p" "pp_try_insert R p' s1 = Inr (r, s2)"
  shows "r = None \<and> s2 = s1 \<and>
    (\<exists>q'. pp_get_by_idempotency_key R (payment_key p') s2 = Inr (Some q', s2) \<and> p_id q' = p_id q)"
proof -
  from inserted [OF assms(1-3)] obtain q' where ok: "ok s1"
    and q': "pp_get_by_idempotency_key R (payment_key p') s1 = Inr (Some q', s1)" "p_id q' = p_id q"
    unfolding assms(4) by blast
  from taken [OF ok q'(1) assms(5)] q' show ?thesis by simp
qed

end

definition store_ok :: "uow \<Rightarrow> bool" where
  "store_ok u = (case u_session u of
     None \<Rightarrow> False
   | Some s \<Rightarrow> s_pending s = [] \<and> list_all (\<lambda>r. is_ok (payment_to_domain r)) (payments (s_db s)))"

lemma store_okE:
  assumes "store_ok u"
  obtains s where "u_session u = Some s" "s_pending s = []"
    "\<And>r. r \<in> set (payments (s_db s)) \<Longrightarrow> \<exists>p. payment_to_domain r = Inr p"
  using assms by (auto simp: store_ok_def list_all_iff is_ok_iff split: option.splits)

lemma row_by_snoc_new: "row_by f (f r) t = None \<Longrightarrow> row_by f (f r) (t @ [r]) = Some r"
  by (induction t) (auto simp: row_by_def)

interpretation sql_store: payment_store sqlalchemy_payments store_ok
proof
  fix s p q s'
  assume ok: "store_ok s" and p: "payment_ok p" and run: "pp_try_insert sqlalchemy_payments p s = Inr (Some q, s')"
  obtain x where x: "u_session s = Some x" "s_pending x = []"
    and readable: "\<And>r. r \<in> set (payments (s_db x)) \<Longrightarrow> \<exists>p. payment_to_domain r = Inr p"
    by (rule store_okE [OF ok]) (rule that)
  from run x obtain r where chk: "payment_row_check (payment_values p) = Inr r"
    and fresh: "row_by pr_idempotency_key (pr_idempotency_key r) (payments (s_db x)) = None"
    and q: "q = p" and s': "s' = s\<lparr>u_session := Some (x\<lparr>s_db := (s_db x)\<lparr>payments := payments (s_db x) @ [r]\<rparr>\<rparr>)\<rparr>"
    by (auto simp: sqlalchemy_payments_def repo_def session_provider_def try_insert_def res_simps split: if_splits)
  note row = payment_row_check_Inr [OF p chk]
  have key: "pr_idempotency_key r = payment_key p" using row by (simp add: payment_values_def)
  have dom: "payment_to_domain r = Inr (p\<lparr>p_money := stored_money (p_money p), p_events := [], p_attempts := []\<rparr>)"
    using row by blast
  have "store_ok s'" using x readable dom by (auto simp: s' store_ok_def list_all_iff is_ok_iff)
  moreover have "row_by pr_idempotency_key (payment_key p) (payments (s_db x) @ [r]) = Some r"
    using row_by_snoc_new [OF fresh] by (simp add: key)
  then have "pp_get_by_idempotency_key sqlalchemy_payments (payment_key p) s' =
      Inr (Some (p\<lparr>p_money := stored_money (p_money p), p_events := [], p_attempts := []\<rparr>), s')"
    using x(2) by (simp add: s' sqlalchemy_payments_def repo_def session_provider_def get_by_idempotency_key_def
        map_row_def dom)
  ultimately show "store_ok s' \<and> (\<exists>q'. pp_get_by_idempotency_key sqlalchemy_payments (payment_key p) s' =
      Inr (Some q', s') \<and> p_id q' = p_id q)" by (simp add: q)
next
  fix s p q r s'
  assume ok: "store_ok s" and found: "pp_get_by_idempotency_key sqlalchemy_payments (payment_key p) s = Inr (Some q, s)"
    and run: "pp_try_insert sqlalchemy_payments p s = Inr (r, s')"
  obtain x where x: "u_session s = Some x" "s_pending x = []" by (rule store_okE [OF ok])
  from found x have "row_by pr_idempotency_key (payment_key p) (payments (s_db x)) \<noteq> None"
    by (auto simp: sqlalchemy_payments_def repo_def session_provider_def get_by_idempotency_key_def map_row_def res_simps
        split: option.splits)
  moreover from run x obtain y where "payment_row_check (payment_values p) = Inr y"
    by (auto simp: sqlalchemy_payments_def repo_def session_provider_def try_insert_def res_simps)
  moreover from this have "pr_idempotency_key y = payment_key p"
    by (auto simp: payment_row_check_def payment_values_def res_simps split: if_splits option.splits)
  ultimately show "r = None \<and> s' = s"
    using run x by (auto simp: sqlalchemy_payments_def repo_def session_provider_def try_insert_def res_simps)
qed

text \<open>
  The handler's create path is the port's operations in order: what it stores and finds does not
  depend on more of the adapter than the contract says.
\<close>

lemma create_body_over_port:
  "create_body env c =
     (let R = payment_repository (sqlalchemy_uow locked db_now (ce_fresh env))
      in bind_act (lift_act (command_values c)) (\<lambda>(k, m).
         let p = new_payment env c k m in
         bind_act (pp_try_insert R p) (\<lambda>inserted.
           case inserted of
             None \<Rightarrow>
               bind_act (pp_get_by_idempotency_key R (cc_idempotency_key c)) (\<lambda>existing.
                 case existing of
                   None \<Rightarrow> raise_act (IdempotencyConflict (cc_idempotency_key c))
                 | Some q \<Rightarrow> return_act (from_payment q None))
           | Some _ \<Rightarrow>
               (let (events, p') = pull_events p in
                bind_act (uw_collect_events (sqlalchemy_uow locked db_now (ce_fresh env)) events) (\<lambda>_.
                  return_act (from_payment p' None))))))"
  by (simp add: create_body_def sqlalchemy_uow_def sqlalchemy_payments_def)

end
