(* ===== verification/Metrics.thy ===== *)
theory Metrics
  imports Consumer OutboxWorker Webhook
begin

text \<open>
  \<open>runtime/observability/metrics.py\<close> and \<open>runtime/http/api/routes/metrics.py\<close>: the declared metrics, and
  what each update of the code is in terms of them. The metrics library is outside the repository. Of
  its documented behaviour the code relies on this: \<open>labels\<close> accepts exactly the declared label names,
  and each kind of metric has its own operations; anything else raises. The help texts are left out.
\<close>

section \<open>The declarations\<close>

datatype metric_kind = Counter | Gauge | Histogram "rat list"

record metric_spec =
  ms_name :: string
  ms_kind :: metric_kind
  ms_labels :: "string list"

definition metric_specs :: "metric_spec list" where
  "metric_specs =
     [\<lparr>ms_name = ''payments_total'', ms_kind = Counter, ms_labels = [''status'']\<rparr>,
      \<lparr>ms_name = ''payments_inflight'', ms_kind = Gauge, ms_labels = []\<rparr>,
      \<lparr>ms_name = ''payments_processing_duration_seconds'',
       ms_kind = Histogram [1/10, 1/4, 1/2, 1, 5/2, 5, 10, 30, 60], ms_labels = []\<rparr>,
      \<lparr>ms_name = ''payments_retry_count'', ms_kind = Counter, ms_labels = []\<rparr>,
      \<lparr>ms_name = ''webhook_failures_total'', ms_kind = Counter, ms_labels = []\<rparr>,
      \<lparr>ms_name = ''outbox_messages_total'', ms_kind = Counter, ms_labels = [''status'']\<rparr>,
      \<lparr>ms_name = ''outbox_claims_released_total'', ms_kind = Counter, ms_labels = [''dest'']\<rparr>,
      \<lparr>ms_name = ''outbox_lag_seconds'', ms_kind = Gauge, ms_labels = []\<rparr>,
      \<lparr>ms_name = ''outbox_publish_duration_seconds'',
       ms_kind = Histogram [1/1000, 1/200, 1/100, 1/20, 1/10, 1/2, 1, 5/2, 5], ms_labels = []\<rparr>,
      \<lparr>ms_name = ''worker_cycles_total'', ms_kind = Counter, ms_labels = [''worker'']\<rparr>]"

section \<open>The updates\<close>

datatype metric_action = Inc rat | Dec rat | SetTo rat | Observe rat

text \<open>Name, labels and operation of each update.\<close>

fun metric_update :: "metric \<Rightarrow> string \<times> (string \<times> string) list \<times> metric_action" where
  "metric_update (PaymentsTotal s) = (''payments_total'', [(''status'', s)], Inc 1)"
| "metric_update PaymentsInflightInc = (''payments_inflight'', [], Inc 1)"
| "metric_update PaymentsInflightDec = (''payments_inflight'', [], Dec 1)"
| "metric_update (PaymentDuration t) = (''payments_processing_duration_seconds'', [], Observe t)"
| "metric_update PaymentsRetryCount = (''payments_retry_count'', [], Inc 1)"
| "metric_update (WebhookFailures n) = (''webhook_failures_total'', [], Inc (of_nat n))"
| "metric_update (OutboxMessages s) = (''outbox_messages_total'', [(''status'', s)], Inc 1)"
| "metric_update (OutboxClaimsReleased s n) = (''outbox_claims_released_total'', [(''dest'', s)], Inc (of_nat n))"
| "metric_update (OutboxLag t) = (''outbox_lag_seconds'', [], SetTo t)"
| "metric_update (PublishDuration t) = (''outbox_publish_duration_seconds'', [], Observe t)"
| "metric_update (WorkerCycles s) = (''worker_cycles_total'', [(''worker'', s)], Inc 1)"

text \<open>What the library accepts: a counter only grows.\<close>

fun kind_accepts :: "metric_kind \<Rightarrow> metric_action \<Rightarrow> bool" where
  "kind_accepts Counter (Inc x) \<longleftrightarrow> 0 \<le> x"
| "kind_accepts Gauge (Inc x) \<longleftrightarrow> True"
| "kind_accepts Gauge (Dec x) \<longleftrightarrow> True"
| "kind_accepts Gauge (SetTo x) \<longleftrightarrow> True"
| "kind_accepts (Histogram b) (Observe x) \<longleftrightarrow> True"
| "kind_accepts _ _ \<longleftrightarrow> False"

definition update_accepted :: "metric_spec list \<Rightarrow> metric \<Rightarrow> bool" where
  "update_accepted specs x =
     (let (name, labels, action) = metric_update x in
      case filter (\<lambda>s. ms_name s = name) specs of
        [s] \<Rightarrow> map fst labels = ms_labels s \<and> kind_accepts (ms_kind s) action
      | _ \<Rightarrow> False)"

text \<open>No update of the program raises: each finds exactly one declaration, with its labels and its operation.\<close>

lemma updates_accepted: "update_accepted metric_specs x"
  by (cases x) (simp_all add: update_accepted_def metric_specs_def)

lemma metric_names_distinct: "distinct (map ms_name metric_specs)"
  by (simp add: metric_specs_def)

text \<open>
  The number of time series is bounded: the label values come from fixed lists, whatever payments,
  messages and merchants there are.
\<close>

fun bounded_labels :: "metric \<Rightarrow> bool" where
  "bounded_labels (PaymentsTotal s) \<longleftrightarrow> s \<in> {''succeeded'', ''failed''}"
| "bounded_labels (OutboxMessages s) \<longleftrightarrow> s \<in> {''published'', ''failed'', ''dead''}"
| "bounded_labels (OutboxClaimsReleased s n) \<longleftrightarrow> s \<in> {''dead'', ''pending''}"
| "bounded_labels (WorkerCycles s) \<longleftrightarrow> s \<in> {''outbox'', ''webhook''}"
| "bounded_labels _ \<longleftrightarrow> True"

lemma consumer_bounded_labels:
  "consumer_handle env msg d = (r, ef, d') \<Longrightarrow> Metric x \<in> set ef \<Longrightarrow> bounded_labels x"
  by (auto simp: consumer_handle_def route_def send_to_dlq_def consume_process_def outcome_metrics_def Let_def
      split: sum.splits exn.splits pyval.splits if_splits prod.splits)

lemma webhook_bounded_labels:
  "webhook_cycle env d = (r, em, d') \<Longrightarrow> x \<in> set em \<Longrightarrow> bounded_labels x"
  by (auto simp: webhook_cycle_def process_once_def split: sum.splits prod.splits)

lemma claim_bounded_labels:
  "transactional True (claim_body env) d = (Inr (em, ms), d1) \<Longrightarrow> x \<in> set em \<Longrightarrow> bounded_labels x"
  by (auto simp: transactional_Inr claim_body_def Let_def res_simps split: prod.splits if_splits)

lemma publish_bounded_labels:
  "mapM_res (publish_one env) ms = Inr rs \<Longrightarrow> list_all bounded_labels (concat (map snd rs))"
  by (induction ms arbitrary: rs) (auto simp: res_simps publish_one_def split: sum.splits if_splits)

lemma mark_failures_bounded_labels:
  "mark_failures env ms u = Inr (em, u') \<Longrightarrow> list_all bounded_labels em"
  by (induction ms arbitrary: u em u') (auto simp: Let_def res_simps split: if_splits)

lemma mark_bounded_labels:
  "transactional True (mark_body env published failed) d = (Inr em, d') \<Longrightarrow> list_all bounded_labels em"
  by (auto simp: transactional_Inr mark_body_def res_simps dest: mark_failures_bounded_labels)

lemma publish_batch_bounded_labels:
  assumes "publish_batch env d = (r, em, d')"
  shows "list_all bounded_labels em"
proof (cases "transactional True (claim_body env) d")
  case (Pair c d1)
  show ?thesis
  proof (cases c)
    case (Inl e)
    with assms Pair show ?thesis by (simp add: publish_batch_def)
  next
    case (Inr p)
    obtain em0 ms where p: "p = (em0, ms)" by (cases p)
    have "list_all bounded_labels em0" using claim_bounded_labels Pair Inr p by (simp add: list_all_iff)
    with assms Pair Inr p show ?thesis
      by (auto simp: publish_batch_def publish_all_def Let_def dest!: publish_bounded_labels mark_bounded_labels
          split: if_splits sum.splits prod.splits)
  qed
qed

lemma outbox_bounded_labels:
  "outbox_cycle env now st = (r, em, st') \<Longrightarrow> list_all bounded_labels em"
  by (auto simp: outbox_cycle_def Let_def dest: publish_batch_bounded_labels split: prod.splits sum.splits if_splits)

section \<open>The endpoint\<close>

text \<open>\<open>generate_latest\<close> and \<open>CONTENT_TYPE_LATEST\<close> are the library's.\<close>

record metrics_response =
  mr_content :: string
  mr_media_type :: string

definition metrics_endpoint :: "exn + string \<Rightarrow> string \<Rightarrow> exn + metrics_response" where
  "metrics_endpoint latest content_type =
     map_res (\<lambda>c. \<lparr>mr_content = c, mr_media_type = content_type\<rparr>) latest"

end
