(* ===== verification/AlembicEnv.thy ===== *)
theory AlembicEnv
  imports Schema Engine PyText
begin

text \<open>
  \<open>alembic/env.py\<close>: which modules register their tables, which database the migrations run against,
  and with which options. Alembic itself and the import machinery are parameters. Its configuration
  is a \<open>ConfigParser\<close> of the standard library, whose interpolation of \<open>%\<close> is modelled since the
  database URL passes through it. The logging set-up of the tool (\<open>fileConfig\<close>) is left out.
\<close>

section \<open>The configuration\<close>

text \<open>After \<open>%(\<close>: the name up to \<open>)s\<close> and what follows.\<close>

definition reference :: "string \<Rightarrow> (string \<times> string) option" where
  "reference r =
     (let n = takeWhile (\<lambda>c. c \<noteq> CHR '')'') r; t = drop (length n) r
      in if n \<noteq> [] \<and> starts_with '')s'' t then Some (n, drop 2 t) else None)"

lemma reference_shorter [termination_simp]: "reference r = Some (n, t) \<Longrightarrow> length t < length r"
proof -
  assume r: "reference r = Some (n, t)"
  then have n: "n = takeWhile (\<lambda>c. c \<noteq> CHR '')'') r" and ne: "n \<noteq> []" and t: "t = drop 2 (drop (length n) r)"
    by (auto simp: reference_def Let_def split: if_splits)
  have "length n \<le> length r" unfolding n by (rule length_takeWhile_le)
  moreover have "0 < length n" using ne by simp
  ultimately have "0 < length r" by linarith
  then show ?thesis unfolding t by simp
qed

text \<open>\<open>BasicInterpolation.before_set\<close>: a percent sign that starts no reference is rejected.\<close>

function strip_refs :: "string \<Rightarrow> string" where
  "strip_refs [] = []"
| "strip_refs (c # s) =
     (if c = CHR ''%'' \<and> starts_with ''('' s
      then (case reference (tl s) of Some (n, t) \<Rightarrow> strip_refs t | None \<Rightarrow> c # strip_refs s)
      else c # strip_refs s)"
  by pat_completeness auto
termination
  by (relation "measure length") (auto dest!: reference_shorter)

definition before_set :: "string \<Rightarrow> exn + string" where
  "before_set v =
     (let tmp = strip_refs (replace_all ''%%'' [] v)
      in if CHR ''%'' \<in> set tmp
         then Inl (ValueError (''invalid interpolation syntax in '' @ py_repr v @ '' at position '' @
                int_str (int (length (takeWhile (\<lambda>c. c \<noteq> CHR ''%'') tmp)))))
         else Inr v)"

text \<open>\<open>BasicInterpolation.before_get\<close>, at most ten levels deep.\<close>

function interpolate :: "nat \<Rightarrow> (string \<Rightarrow> string option) \<Rightarrow> string \<Rightarrow> exn + string" where
  "interpolate n opts s =
     (if n = 0 then Inl (External ''InterpolationDepthError'')
      else (case s of
          [] \<Rightarrow> Inr []
        | c # r \<Rightarrow>
            if c \<noteq> CHR ''%'' then map_res (\<lambda>u. c # u) (interpolate n opts r)
            else (case r of
                [] \<Rightarrow> Inl (External ''InterpolationSyntaxError'')
              | x # r' \<Rightarrow>
                  if x = CHR ''%'' then map_res (\<lambda>u. c # u) (interpolate n opts r')
                  else if x \<noteq> CHR ''('' then Inl (External ''InterpolationSyntaxError'')
                  else (case reference r' of
                      None \<Rightarrow> Inl (External ''InterpolationSyntaxError'')
                    | Some (name, t) \<Rightarrow> (case opts (map ascii_lower name) of
                          None \<Rightarrow> Inl (External ''InterpolationMissingOptionError'')
                        | Some v \<Rightarrow>
                            bind_res (if CHR ''%'' \<in> set v then interpolate (n - 1) opts v else Inr v) (\<lambda>u.
                              map_res (\<lambda>w. u @ w) (interpolate n opts t)))))))"
  by pat_completeness auto
termination
  by (relation "measures [\<lambda>(n, opts, s). n, \<lambda>(n, opts, s). length s]") (auto dest!: reference_shorter)

declare interpolate.simps [simp del]

text \<open>The main section of the configuration, and its option names, which are in lower case.\<close>

type_synonym alembic_options = "(string \<times> string) list"

definition set_main_option :: "string \<Rightarrow> string \<Rightarrow> alembic_options \<Rightarrow> exn + alembic_options" where
  "set_main_option name v cfg = map_res (\<lambda>v. (name, v) # filter (\<lambda>kv. fst kv \<noteq> name) cfg) (before_set v)"

definition get_main_option :: "string \<Rightarrow> alembic_options \<Rightarrow> exn + string option" where
  "get_main_option name cfg =
     (case map_of cfg name of None \<Rightarrow> Inr None
      | Some v \<Rightarrow> map_res Some (interpolate 10 (map_of cfg) v))"

section \<open>The script\<close>

text \<open>What the script calls: Alembic's context, the package walk, imports and the driver.\<close>

record alembic_context =
  ax_options :: alembic_options
  ax_offline :: bool
  ax_packages :: "string list"
  ax_import :: "string \<Rightarrow> exn + unit"
  ax_metadata :: "string list \<Rightarrow> schema"
  ax_connect :: "string \<Rightarrow> exn + unit"

text \<open>The arguments of \<open>context.configure\<close>; \<open>run\<close> is \<open>run_migrations\<close> in its transaction.\<close>

record migration_config =
  mg_url :: "string option"
  mg_connection :: "string option"
  mg_target_metadata :: schema
  mg_literal_binds :: bool
  mg_paramstyle :: "string option"
  mg_compare_type :: bool

definition import_all_models :: "alembic_context \<Rightarrow> exn + string list" where
  "import_all_models ax =
     (let names = filter (ends_with ''infrastructure.models'') (ax_packages ax)
      in map_res (\<lambda>_. names) (mapM_res (ax_import ax) names))"

definition migration_url :: "settings \<Rightarrow> string" where
  "migration_url s =
     ''postgresql://'' @ POSTGRES_USER s @ '':'' @ POSTGRES_PASSWORD s @ ''@'' @ POSTGRES_HOST s @ '':'' @
     int_str (POSTGRES_PORT s) @ ''/'' @ POSTGRES_DB s"

definition run_migrations_offline :: "(migration_config \<Rightarrow> exn + 'a) \<Rightarrow> schema \<Rightarrow> alembic_options \<Rightarrow> exn + 'a" where
  "run_migrations_offline run metadata cfg =
     bind_res (get_main_option ''sqlalchemy.url'' cfg) (\<lambda>url.
       run \<lparr>mg_url = url, mg_connection = None, mg_target_metadata = metadata, mg_literal_binds = True,
            mg_paramstyle = Some ''named'', mg_compare_type = False\<rparr>)"

definition run_migrations_online ::
    "(migration_config \<Rightarrow> exn + 'a) \<Rightarrow> alembic_context \<Rightarrow> schema \<Rightarrow> string \<Rightarrow> exn + 'a" where
  "run_migrations_online run ax metadata url =
     bind_res (ax_connect ax url) (\<lambda>_.
       run \<lparr>mg_url = None, mg_connection = Some url, mg_target_metadata = metadata, mg_literal_binds = False,
            mg_paramstyle = None, mg_compare_type = True\<rparr>)"

definition run_env :: "(migration_config \<Rightarrow> exn + 'a) \<Rightarrow> alembic_context \<Rightarrow> settings \<Rightarrow> exn + 'a" where
  "run_env run ax s =
     bind_res (import_all_models ax) (\<lambda>imported.
     bind_res (set_main_option ''sqlalchemy.url'' (migration_url s) (ax_options ax)) (\<lambda>cfg.
       let target_metadata = ax_metadata ax imported
       in if ax_offline ax then run_migrations_offline run target_metadata cfg
          else run_migrations_online run ax target_metadata (migration_url s)))"

section \<open>Which database is migrated\<close>

lemma strip_refs_plain: "CHR ''%'' \<notin> set s \<Longrightarrow> strip_refs s = s"
  by (induction s) auto

lemma replace_plain: "CHR ''%'' \<notin> set s \<Longrightarrow> replace_all ''%%'' [] s = s"
  by (rule replace_all_absent) (auto simp: contains_iff)

lemma before_set_plain: "CHR ''%'' \<notin> set s \<Longrightarrow> before_set s = Inr s"
  by (simp add: before_set_def replace_plain strip_refs_plain)

lemma interpolate_plain: "CHR ''%'' \<notin> set s \<Longrightarrow> 0 < n \<Longrightarrow> interpolate n opts s = Inr s"
proof (induction s)
  case (Cons c s)
  then have "c \<noteq> CHR ''%''" "interpolate n opts s = Inr s" by auto
  with Cons.prems(2) show ?case by (subst interpolate.simps) (simp only: list.case if_True if_False map_res.simps not_False_eq_True nat_neq_iff split: if_split; blast)
qed (simp add: interpolate.simps)

text \<open>A percent sign without a second one or a bracket behind it survives the stripping.\<close>

lemma before_set_stray:
  assumes "CHR ''%'' \<notin> set a" "CHR ''%'' \<notin> set b" "\<not> starts_with ''('' b"
  shows "\<exists>m. before_set (a @ CHR ''%'' # b) = Inl (ValueError m)"
proof -
  have "replace_all ''%%'' [] (a @ CHR ''%'' # b) = a @ CHR ''%'' # b"
    using assms(1,2)
  proof (induction a)
    case Nil
    then have "\<not> starts_with ''%%'' (CHR ''%'' # b)" by (cases b) (auto simp: starts_with_def)
    with Nil show ?case by (simp add: replace_plain)
  next
    case (Cons c a)
    then have "\<not> starts_with ''%%'' ((c # a) @ CHR ''%'' # b)" by (auto simp: starts_with_def)
    with Cons show ?case by simp
  qed
  moreover have "strip_refs (a @ CHR ''%'' # b) = a @ CHR ''%'' # b"
    using assms by (induction a) (auto simp: strip_refs_plain)
  ultimately show ?thesis by (simp add: before_set_def Let_def)
qed

lemma int_str_plain: "CHR ''%'' \<notin> set (int_str n)"
proof -
  have "\<not> is_digit (CHR ''%'')" by (simp add: is_digit_def)
  then have "CHR ''%'' \<notin> set (nat_str k)" for k using nat_str_digits [of k] by (metis list_all_iff)
  then show ?thesis by (simp add: int_str_def)
qed

lemma get_after_set:
  assumes "CHR ''%'' \<notin> set v" "set_main_option n v cfg = Inr cfg'"
  shows "get_main_option n cfg' = Inr (Some v)"
proof -
  have "cfg' = (n, v) # filter (\<lambda>kv. fst kv \<noteq> n) cfg"
    using assms(2) by (simp add: set_main_option_def before_set_plain [OF assms(1)])
  then have "map_of cfg' n = Some v" by simp
  moreover have "interpolate 10 (map_of cfg') v = Inr v" by (rule interpolate_plain [OF assms(1)]) simp
  ultimately show ?thesis by (simp add: get_main_option_def)
qed

definition migration_config_for :: "bool \<Rightarrow> string \<Rightarrow> schema \<Rightarrow> migration_config" where
  "migration_config_for offline url metadata =
     (if offline
      then \<lparr>mg_url = Some url, mg_connection = None, mg_target_metadata = metadata,
            mg_literal_binds = True, mg_paramstyle = Some ''named'', mg_compare_type = False\<rparr>
      else \<lparr>mg_url = None, mg_connection = Some url, mg_target_metadata = metadata,
            mg_literal_binds = False, mg_paramstyle = None, mg_compare_type = True\<rparr>)"

text \<open>
  Without percent signs in the settings both modes migrate the same database, which is the one the
  application's engine opens, with the metadata of the imported models.
\<close>

lemma migrations_env_plain:
  assumes "\<And>m. ax_import ax m = Inr ()" and "ax_connect ax (migration_url s) = Inr ()"
    and "CHR ''%'' \<notin> set (POSTGRES_USER s @ POSTGRES_PASSWORD s @ POSTGRES_HOST s @ POSTGRES_DB s)"
  shows "\<exists>rest. migration_url s = ''postgresql'' @ rest \<and> database_url s = POSTGRES_SCHEMA s @ rest"
    and "run_env run ax s = run (migration_config_for (ax_offline ax) (migration_url s)
      (ax_metadata ax (filter (ends_with ''infrastructure.models'') (ax_packages ax))))"
proof -
  show "\<exists>rest. migration_url s = ''postgresql'' @ rest \<and> database_url s = POSTGRES_SCHEMA s @ rest"
    by (simp add: migration_url_def database_url_def)
  have url: "CHR ''%'' \<notin> set (migration_url s)" using assms(3) int_str_plain by (simp add: migration_url_def)
  have "mapM_res (ax_import ax) ms = Inr (map (\<lambda>_. ()) ms)" for ms using assms(1) by (intro mapM_res_total)
  moreover obtain cfg where cfg: "set_main_option ''sqlalchemy.url'' (migration_url s) (ax_options ax) = Inr cfg"
    using before_set_plain [OF url] by (simp add: set_main_option_def)
  ultimately show "run_env run ax s = run (migration_config_for (ax_offline ax) (migration_url s)
      (ax_metadata ax (filter (ends_with ''infrastructure.models'') (ax_packages ax))))"
    using assms(2) by (simp add: run_env_def import_all_models_def run_migrations_offline_def migration_config_for_def
        run_migrations_online_def get_after_set [OF url cfg] Let_def)
qed

text \<open>A password with a percent sign, which the application's engine takes, stops the migrations.\<close>

lemma migrations_env_percent:
  assumes "\<And>m. ax_import ax m = Inr ()"
    and "POSTGRES_PASSWORD s = a @ CHR ''%'' # b" "CHR ''%'' \<notin> set a" "CHR ''%'' \<notin> set b" "\<not> starts_with ''('' b"
    and "CHR ''%'' \<notin> set (POSTGRES_USER s @ POSTGRES_HOST s @ POSTGRES_DB s)"
  shows "\<exists>m. run_env run ax s = Inl (ValueError m)"
proof -
  define pre where "pre = ''postgresql://'' @ POSTGRES_USER s @ '':'' @ a"
  define post where "post = b @ ''@'' @ POSTGRES_HOST s @ '':'' @ int_str (POSTGRES_PORT s) @ ''/'' @ POSTGRES_DB s"
  have "migration_url s = pre @ CHR ''%'' # post" by (simp add: migration_url_def pre_def post_def assms(2))
  moreover have "CHR ''%'' \<notin> set pre" "CHR ''%'' \<notin> set post"
    using assms(3,4,6) int_str_plain by (simp_all add: pre_def post_def)
  moreover have "\<not> starts_with ''('' post" using assms(5) by (cases b) (simp_all add: post_def starts_with_def)
  ultimately obtain m where "before_set (migration_url s) = Inl (ValueError m)" using before_set_stray by metis
  moreover have "mapM_res (ax_import ax) ms = Inr (map (\<lambda>_. ()) ms)" for ms using assms(1) by (intro mapM_res_total)
  ultimately show ?thesis by (simp add: run_env_def import_all_models_def set_main_option_def Let_def)
qed

end
