(* ===== verification/RateLimiter.thy ===== *)
theory RateLimiter
  imports PyBase
begin

text \<open>
  \<open>runtime/security/rate_limiter.py\<close>: the sliding-window limiter. The store is the
  \<open>defaultdict(list)\<close>, total with empty lists; a call gets the reading of \<open>time.time()\<close>, a rational.
\<close>

type_synonym limiter = "string \<Rightarrow> rat list"

definition new_limiter :: limiter where
  "new_limiter = (\<lambda>_. [])"

definition allow :: "rat \<Rightarrow> string \<Rightarrow> int \<Rightarrow> rat \<Rightarrow> limiter \<Rightarrow> bool \<times> limiter" where
  "allow now key limit window s =
     (let kept = filter (\<lambda>t. now - t < window) (s key)
      in if limit \<le> int (length kept) then (False, s(key := kept))
         else (True, s(key := kept @ [now])))"

text \<open>A sequence of calls with one limit and one window: the answers.\<close>

fun allow_all :: "int \<Rightarrow> rat \<Rightarrow> (rat \<times> string) list \<Rightarrow> limiter \<Rightarrow> bool list" where
  "allow_all limit window [] s = []"
| "allow_all limit window ((now, key) # cs) s =
     (let (ok, s') = allow now key limit window s in ok # allow_all limit window cs s')"

section \<open>The reference\<close>

text \<open>What the limiter promises, over the full history \<open>h\<close> of the calls it granted.\<close>

definition recent :: "rat \<Rightarrow> rat \<Rightarrow> string \<Rightarrow> (rat \<times> string) list \<Rightarrow> rat list" where
  "recent window now key h = map fst (filter (\<lambda>(t, k). k = key \<and> now - t < window) h)"

fun allow_spec :: "int \<Rightarrow> rat \<Rightarrow> (rat \<times> string) list \<Rightarrow> (rat \<times> string) list \<Rightarrow> bool list" where
  "allow_spec limit window h [] = []"
| "allow_spec limit window h ((now, key) # cs) =
     (let ok = int (length (recent window now key h)) < limit
      in ok # allow_spec limit window (if ok then h @ [(now, key)] else h) cs)"

text \<open>The store holds, of every key, at least the grants that can still count.\<close>

definition tracks :: "rat \<Rightarrow> rat \<Rightarrow> limiter \<Rightarrow> (rat \<times> string) list \<Rightarrow> bool" where
  "tracks window t0 s h \<longleftrightarrow>
     (\<forall>key now. t0 \<le> now \<longrightarrow> filter (\<lambda>t. now - t < window) (s key) = recent window now key h)"

lemma tracksD: "tracks window t0 s h \<Longrightarrow> t0 \<le> now \<Longrightarrow> filter (\<lambda>t. now - t < window) (s key) = recent window now key h"
  by (simp add: tracks_def)

lemma recent_snoc:
  "recent window now key (h @ [(t, k)]) = recent window now key h @ (if k = key \<and> now - t < window then [t] else [])"
  by (simp add: recent_def)

lemma recent_narrow: "t0 \<le> now \<Longrightarrow> filter (\<lambda>t. now - t < window) (recent window t0 key h) = recent window now key h"
  by (induction h) (auto simp: recent_def)

lemma tracks_later: "tracks window t0 s h \<Longrightarrow> t0 \<le> t1 \<Longrightarrow> tracks window t1 s h"
  by (auto simp: tracks_def)

lemma allow_tracks:
  assumes "tracks window t0 s h" "t0 \<le> now"
  shows "case allow now key limit window s of (ok, s') \<Rightarrow>
    ok = (int (length (recent window now key h)) < limit) \<and>
    tracks window now s' (if ok then h @ [(now, key)] else h)"
proof -
  have kept: "filter (\<lambda>t. now - t < window) (s key) = recent window now key h" by (rule tracksD [OF assms])
  have "tracks window now (s(key := recent window now key h)) h"
    using tracks_later [OF assms] by (auto simp: tracks_def recent_narrow)
  moreover from this have "tracks window now (s(key := recent window now key h @ [now])) (h @ [(now, key)])"
    by (auto simp: tracks_def recent_snoc split: if_splits)
  ultimately show ?thesis by (auto simp: allow_def kept Let_def)
qed

lemma allow_all_spec:
  assumes "sorted_wrt (\<le>) (t0 # map fst cs)" "tracks window t0 s h"
  shows "allow_all limit window cs s = allow_spec limit window h cs"
  using assms
proof (induction limit window cs s arbitrary: t0 h rule: allow_all.induct)
  case (2 limit window now key cs s)
  obtain ok s' where a: "allow now key limit window s = (ok, s')" by (cases "allow now key limit window s")
  from allow_tracks [OF "2.prems"(2), of now key limit] "2.prems"(1) a
  have ok: "ok = (int (length (recent window now key h)) < limit)"
    and tr: "tracks window now s' (if ok then h @ [(now, key)] else h)" by auto
  from "2.IH" [OF a [symmetric] refl _ tr] "2.prems"(1) a ok show ?case by (simp add: Let_def)
qed simp

section \<open>The bound\<close>

definition grants :: "(rat \<times> string) list \<Rightarrow> bool list \<Rightarrow> (rat \<times> string) list" where
  "grants cs oks = map fst (filter snd (zip cs oks))"

lemma grants_simps [simp]:
  "grants [] oks = []" "grants (c # cs) (ok # oks) = (if ok then [c] else []) @ grants cs oks"
  by (simp_all add: grants_def)

text \<open>The grants of a key in the window that ends at \<open>x\<close>.\<close>

definition in_window :: "rat \<Rightarrow> rat \<Rightarrow> string \<Rightarrow> (rat \<times> string) list \<Rightarrow> nat" where
  "in_window window x key h = length (filter (\<lambda>(t, k). k = key \<and> x - window < t \<and> t \<le> x) h)"

lemma in_window_le_recent: "in_window window x key h \<le> length (recent window now key h)" if "now \<le> x"
  using that by (induction h) (auto simp: in_window_def recent_def)

lemma spec_bounded:
  assumes "sorted (map fst cs)" "\<And>x. in_window window x key h \<le> nat limit"
  shows "in_window window x key (h @ grants cs (allow_spec limit window h cs)) \<le> nat limit"
  using assms
proof (induction limit window h cs rule: allow_spec.induct)
  case (1 limit window h)
  then show ?case by simp
next
  case (2 limit window h now k cs)
  let ?ok = "int (length (recent window now k h)) < limit"
  let ?h = "if ?ok then h @ [(now, k)] else h"
  have step: "in_window window y key ?h \<le> nat limit" for y
  proof (cases "?ok \<and> k = key \<and> now \<le> y")
    case True
    then have "now \<le> y" "int (length (recent window now key h)) < limit" by auto
    with in_window_le_recent [of now y window key h] have "in_window window y key h + 1 \<le> nat limit" by simp
    moreover have "in_window window y key (h @ [(now, k)]) \<le> in_window window y key h + 1"
      by (simp add: in_window_def)
    ultimately show ?thesis using True by simp
  next
    case False
    with "2.prems"(2) [of y] show ?thesis by (auto simp: in_window_def)
  qed
  have "sorted (map fst cs)" using "2.prems"(1) by simp
  from "2.IH" [OF refl this step] show ?case by (simp add: Let_def split: if_splits)
qed

text \<open>
  Property C36. The limiter implements the sliding window exactly. When the clock does not run
  backwards, a call is granted iff fewer than \<open>limit\<close> calls of its key were granted in the last
  \<open>window\<close> seconds, although the limiter forgets old calls; calls of other keys never count; and
  in every interval of that length, wherever it ends, at most \<open>limit\<close> calls of a key are granted.
\<close>

theorem rate_limiter_window:
  assumes "sorted (map fst cs)"
  shows "allow_all limit window cs new_limiter = allow_spec limit window [] cs \<and>
    in_window window x key (grants cs (allow_all limit window cs new_limiter)) \<le> nat limit"
proof -
  have "allow_all limit window cs new_limiter = allow_spec limit window [] cs"
  proof (cases cs)
    case (Cons c cs')
    have "tracks window (fst c) new_limiter []" by (simp add: tracks_def new_limiter_def recent_def)
    with assms Cons show ?thesis by (intro allow_all_spec) auto
  qed simp
  with spec_bounded [OF assms, of window key "[]" limit x] show ?thesis by (simp add: in_window_def)
qed

theorem rate_limiter_window_witness:
  "allow_all 2 60 [(0, ''a''), (10, ''a''), (20, ''b''), (30, ''a''), (60, ''a'')] new_limiter =
     [True, True, True, False, True]"
  using rate_limiter_window [of "[(0, ''a''), (10, ''a''), (20, ''b''), (30, ''a''), (60, ''a'')]" 2 60]
  by (simp add: recent_def)

end
