(* ===== verification/Uuid7.thy ===== *)
theory Uuid7
  imports PyBase "HOL-Library.Log_Nat"
begin

text \<open>
  \<open>shared/utils/uuid.py\<close>: time-ordered identifiers. The reading of \<open>time.time()\<close> (the value of a double,
  as a rational) and the two random numbers of \<open>secrets.randbits\<close> are arguments; Python's integers are
  unbounded, and the product of two floats is rounded to a double.
\<close>

unbundle bit_operations_syntax

section \<open>Rounding to a double\<close>

text \<open>
  The double nearest to a rational, ties to the even mantissa: 53 bits, and no bit below
  \<open>2\<^sup>-\<^sup>1\<^sup>0\<^sup>7\<^sup>4\<close>. Values beyond the largest double are not told from infinity.
\<close>

definition double_exponent :: "rat \<Rightarrow> int" where
  "double_exponent r =
     (let (p, q) = quotient_of \<bar>r\<bar>; e = bitlen p - bitlen q
      in if 2 powi e \<le> \<bar>r\<bar> then e else e - 1)"

definition double_round :: "rat \<Rightarrow> rat" where
  "double_round r =
     (let quantum = 2 powi max (double_exponent r - 52) (- 1074)
      in of_int (round_half_even (r / quantum)) * quantum)"

lemma bitlen_range:
  assumes "0 < (n :: int)"
  shows "2 powi (bitlen n - 1) \<le> (of_int n :: rat)" "of_int n < (2 powi bitlen n :: rat)"
proof -
  from assms have len: "1 \<le> bitlen n" by (simp add: bitlen_nonneg bitlen_def floorlog_def)
  have b: "2 ^ nat (bitlen n - 1) \<le> n" "n < 2 ^ nat (bitlen n)" using bitlen_bounds [OF assms] by simp_all
  have pow: "2 powi k = (of_int (2 ^ nat k) :: rat)" if "0 \<le> k" for k using that by (simp add: power_int_def)
  show "2 powi (bitlen n - 1) \<le> (of_int n :: rat)" using b(1) len by (simp only: pow of_int_le_iff)
  show "of_int n < (2 powi bitlen n :: rat)" using b(2) len by (simp only: pow of_int_less_iff)
qed

text \<open>The exponent is that of the leading bit.\<close>

lemma double_exponent_range:
  assumes "0 < r"
  shows "2 powi double_exponent r \<le> r" "r < 2 powi (double_exponent r + 1)"
proof -
  obtain p q where pq: "quotient_of r = (p, q)" by fastforce
  from quotient_of_div [OF this] have r: "r = of_int p / of_int q" .
  from quotient_of_denom_pos [OF pq] have q: "0 < q" .
  with assms r have p: "0 < p" by (simp add: zero_less_divide_iff)
  note ranges = bitlen_range [OF p] bitlen_range [OF q]
  define e where "e = bitlen p - bitlen q"
  have "2 powi (e - 1) * of_int q \<le> 2 powi (e - 1) * (2 powi bitlen q :: rat)"
    using ranges(4) by (intro mult_left_mono) auto
  also have "\<dots> = 2 powi (bitlen p - 1)" by (simp add: e_def flip: power_int_add)
  also note ranges(1)
  finally have low: "2 powi (e - 1) \<le> r" using q by (simp add: r pos_le_divide_eq)
  have "of_int p < (2 powi bitlen p :: rat)" by (rule ranges(2))
  also have "\<dots> = 2 powi (e + 1) * 2 powi (bitlen q - 1)" by (simp add: e_def flip: power_int_add)
  also have "\<dots> \<le> 2 powi (e + 1) * of_int q" using ranges(3) by (intro mult_left_mono) auto
  finally have high: "r < 2 powi (e + 1)" using q by (simp add: r pos_divide_less_eq)
  have exp: "double_exponent r = (if 2 powi e \<le> r then e else e - 1)"
    using assms by (simp add: double_exponent_def pq e_def)
  show "2 powi double_exponent r \<le> r" "r < 2 powi (double_exponent r + 1)" using low high by (auto simp: exp)
qed

text \<open>Rounding does not cross an integer, as long as integers are doubles.\<close>

lemma double_round_between:
  assumes "0 \<le> r" "r < 2 ^ 53"
  shows "of_int \<lfloor>r\<rfloor> \<le> double_round r" "double_round r \<le> of_int \<lceil>r\<rceil>"
proof -
  define k where "k = max (double_exponent r - 52) (- 1074)"
  have "k \<le> 0"
  proof (cases "r = 0")
    case True
    then show ?thesis by (simp add: k_def double_exponent_def bitlen_def floorlog_def)
  next
    case False
    with assms double_exponent_range(1) [of r] have "(2 :: rat) powi double_exponent r < 2 powi 53" by simp
    then have "\<not> (53 :: int) \<le> double_exponent r" using power_int_increasing [of 53 "double_exponent r" "2 :: rat"] by linarith
    then show ?thesis by (simp add: k_def)
  qed
  then obtain j where "k = - int j" by (metis nonpos_int_cases)
  then have "(2 :: rat) powi k = inverse (2 ^ nat (- k))" by (simp add: power_int_minus)
  then have scale: "of_int n / 2 powi k = (of_int (n * 2 ^ nat (- k)) :: rat)" for n
    by (simp only: divide_inverse inverse_inverse_eq of_int_mult of_int_power of_int_numeral)
  have val: "double_round r = of_int (round_half_even (r / 2 powi k)) * 2 powi k"
    by (simp only: double_round_def Let_def k_def)
  have pos: "(0 :: rat) < 2 powi k" by simp
  have "round_half_even (of_int \<lfloor>r\<rfloor> / 2 powi k) \<le> round_half_even (r / 2 powi k)"
    by (intro round_half_even_mono divide_right_mono) simp_all
  then have "of_int (\<lfloor>r\<rfloor> * 2 ^ nat (- k)) \<le> (of_int (round_half_even (r / 2 powi k)) :: rat)"
    by (simp only: scale round_half_even_of_int of_int_le_iff)
  then show "of_int \<lfloor>r\<rfloor> \<le> double_round r" unfolding val scale [symmetric] by (simp add: pos_divide_le_eq)
  have "round_half_even (r / 2 powi k) \<le> round_half_even (of_int \<lceil>r\<rceil> / 2 powi k)"
    by (intro round_half_even_mono divide_right_mono) simp_all
  then have "(of_int (round_half_even (r / 2 powi k)) :: rat) \<le> of_int (\<lceil>r\<rceil> * 2 ^ nat (- k))"
    by (simp only: scale round_half_even_of_int of_int_le_iff)
  then show "double_round r \<le> of_int \<lceil>r\<rceil>" unfolding val scale [symmetric] by (simp add: pos_le_divide_eq)
qed

section \<open>Identifiers\<close>

text \<open>\<open>int(time.time() * 1000)\<close>: the product is a double, and \<open>int\<close> drops its fraction.\<close>

definition timestamp_ms :: "rat \<Rightarrow> int" where
  "timestamp_ms time =
     (let product = double_round (time * 1000) in if 0 \<le> product then \<lfloor>product\<rfloor> else \<lceil>product\<rceil>)"

definition uuid7_int :: "rat \<Rightarrow> int \<Rightarrow> int \<Rightarrow> int" where
  "uuid7_int time rand_a rand_b =
     (let ms = timestamp_ms time AND 0xFFFFFFFFFFFF
      in push_bit 80 ms OR push_bit 76 0x7 OR push_bit 64 rand_a OR push_bit 62 0x2 OR rand_b)"

text \<open>\<open>uuid.UUID(int=value)\<close> rejects values outside 128 bits.\<close>

definition uuid7 :: "rat \<Rightarrow> int \<Rightarrow> int \<Rightarrow> exn + uuid" where
  "uuid7 time rand_a rand_b =
     (let value = uuid7_int time rand_a rand_b
      in if 0 \<le> value \<and> value < 2 ^ 128 then Inr (word_of_int value)
         else Inl (ValueError ''int is out of range (need a 128-bit value)''))"

section \<open>The fields of an identifier\<close>

lemma push_or_add: "0 \<le> b \<Longrightarrow> b < 2 ^ n \<Longrightarrow> push_bit n a OR b = a * 2 ^ n + (b :: int)"
proof -
  assume "0 \<le> b" "b < 2 ^ n"
  then have b: "take_bit n b = b" by (simp add: take_bit_int_eq_self)
  have "push_bit n a + take_bit n b = push_bit n a OR take_bit n b"
    by (rule disjunctive_add_eq_or) (auto simp: bit_eq_iff bit_simps)
  then show ?thesis by (simp add: b push_bit_eq_mult)
qed

definition unix_ms :: "rat \<Rightarrow> int" where
  "unix_ms time = timestamp_ms time mod 2 ^ 48"

text \<open>The milliseconds are those of the exact reading, or the next one where the product rounds up to it.\<close>

lemma timestamp_ms_bounds:
  assumes "0 \<le> time" "time * 1000 < 2 ^ 53"
  shows "\<lfloor>time * 1000\<rfloor> \<le> timestamp_ms time" "timestamp_ms time \<le> \<lceil>time * 1000\<rceil>"
proof -
  have "0 \<le> time * 1000" using assms(1) by simp
  note b = double_round_between [OF this assms(2)]
  from \<open>0 \<le> time * 1000\<close> have "0 \<le> (of_int \<lfloor>time * 1000\<rfloor> :: rat)" by simp
  with b(1) have "0 \<le> double_round (time * 1000)" by linarith
  then have ms: "timestamp_ms time = \<lfloor>double_round (time * 1000)\<rfloor>" by (simp add: timestamp_ms_def)
  show "\<lfloor>time * 1000\<rfloor> \<le> timestamp_ms time" "timestamp_ms time \<le> \<lceil>time * 1000\<rceil>"
    unfolding ms using b by linarith+
qed

lemma timestamp_ms_near:
  assumes "0 \<le> time" "time * 1000 < 2 ^ 53"
  shows "timestamp_ms time \<in> {\<lfloor>time * 1000\<rfloor>, \<lceil>time * 1000\<rceil>}"
proof -
  have "\<lceil>time * 1000\<rceil> \<le> \<lfloor>time * 1000\<rfloor> + 1" by linarith
  with timestamp_ms_bounds [OF assms] have "timestamp_ms time = \<lfloor>time * 1000\<rfloor> \<or> timestamp_ms time = \<lceil>time * 1000\<rceil>" by linarith
  then show ?thesis by simp
qed

lemma uuid7_int_sum:
  assumes "0 \<le> a" "a < 2 ^ 12" "0 \<le> b" "b < 2 ^ 62"
  shows "uuid7_int time a b = unix_ms time * 2 ^ 80 + (7 * 2 ^ 76 + (a * 2 ^ 64 + (2 * 2 ^ 62 + b)))"
proof -
  have mask: "x AND 0xFFFFFFFFFFFF = x mod 2 ^ 48" for x :: int
    using take_bit_eq_mask [of 48 x] by (simp add: take_bit_eq_mod mask_eq_exp_minus_1)
  have b: "push_bit 62 2 OR b = 2 * 2 ^ 62 + b" using assms by (intro push_or_add)
  have a: "push_bit 64 a OR (2 * 2 ^ 62 + b) = a * 2 ^ 64 + (2 * 2 ^ 62 + b)" using assms by (intro push_or_add) simp_all
  have v: "push_bit 76 7 OR (a * 2 ^ 64 + (2 * 2 ^ 62 + b)) = 7 * 2 ^ 76 + (a * 2 ^ 64 + (2 * 2 ^ 62 + b))"
    using assms by (intro push_or_add) simp_all
  have t: "push_bit 80 m OR (7 * 2 ^ 76 + (a * 2 ^ 64 + (2 * 2 ^ 62 + b))) =
      m * 2 ^ 80 + (7 * 2 ^ 76 + (a * 2 ^ 64 + (2 * 2 ^ 62 + b)))" for m :: int
    using assms by (intro push_or_add) simp_all
  show ?thesis
    by (simp only: uuid7_int_def Let_def mask unix_ms_def or.assoc a b v t)
qed

lemma unix_ms_bounds: "0 \<le> unix_ms time" "unix_ms time < 2 ^ 48"
  by (simp_all add: unix_ms_def)

lemma uint_uuid: "0 \<le> v \<Longrightarrow> v < 2 ^ 128 \<Longrightarrow> uint (word_of_int v :: uuid) = v"
  by (simp add: uint_word_of_int take_bit_int_eq_self)

lemma uuid7_value:
  assumes "0 \<le> a" "a < 2 ^ 12" "0 \<le> b" "b < 2 ^ 62"
  obtains u where "uuid7 time a b = Inr u"
    "uint u = unix_ms time * 2 ^ 80 + (7 * 2 ^ 76 + (a * 2 ^ 64 + (2 * 2 ^ 62 + b)))"
proof -
  let ?v = "unix_ms time * 2 ^ 80 + (7 * 2 ^ 76 + (a * 2 ^ 64 + (2 * 2 ^ 62 + b)))"
  have "0 \<le> ?v" "?v < 2 ^ 128" using assms unix_ms_bounds [of time] by simp_all
  moreover then have "uint (word_of_int ?v :: uuid) = ?v" by (rule uint_uuid)
  ultimately show thesis
    using that [of "word_of_int ?v"] unfolding uuid7_def uuid7_int_sum [OF assms] Let_def by (simp only: simp_thms if_True)
qed

text \<open>Two readings that are two milliseconds apart are in different milliseconds.\<close>

lemma timestamps_apart:
  assumes "0 \<le> time" "time + 2/1000 \<le> time'" "time' * 1000 < 2 ^ 48 - 1"
  shows "0 \<le> timestamp_ms time \<and> timestamp_ms time < timestamp_ms time' \<and> timestamp_ms time' < 2 ^ 48"
proof -
  have "time * 1000 + 2 \<le> time' * 1000" and "0 \<le> time'" using assms by simp_all
  have small: "time * 1000 < 2 ^ 53" "time' * 1000 < 2 ^ 53" using assms(2,3) by simp_all
  note bounds = timestamp_ms_bounds [OF assms(1) small(1)] timestamp_ms_bounds [OF \<open>0 \<le> time'\<close> small(2)]
  have "0 \<le> \<lfloor>time * 1000\<rfloor>" using assms(1) by simp
  with bounds(1) have "0 \<le> timestamp_ms time" by (rule order_trans [rotated])
  moreover have "\<lceil>time * 1000\<rceil> < \<lfloor>time' * 1000\<rfloor>" using \<open>time * 1000 + 2 \<le> time' * 1000\<close> by linarith
  with bounds(2,3) have "timestamp_ms time < timestamp_ms time'" by linarith
  moreover have "\<lceil>time' * 1000\<rceil> < 2 ^ 48" using assms(3) by (simp add: ceiling_less_iff)
  with bounds(4) have "timestamp_ms time' < 2 ^ 48" by (rule order_le_less_trans)
  ultimately show ?thesis by blast
qed

lemma uuid7_fields:
  assumes "0 \<le> a" "a < 2 ^ 12" "0 \<le> b" "b < 2 ^ 62"
    and v: "uint (u :: uuid) = x * 2 ^ 80 + (7 * 2 ^ 76 + (a * 2 ^ 64 + (2 * 2 ^ 62 + b)))"
  shows "uint u div 2 ^ 80 = x" "uint u div 2 ^ 76 mod 2 ^ 4 = 7" "uint u div 2 ^ 64 mod 2 ^ 12 = a"
    "uint u div 2 ^ 62 mod 2 ^ 2 = 2" "uint u mod 2 ^ 62 = b"
proof -
  have cut: "(q * m + c) div m = q" "(q * m + c) mod m = c" if "0 \<le> c" "c < m" for q m c :: int
    using that by simp_all
  show "uint u div 2 ^ 80 = x" unfolding v by (rule cut) (use assms in simp_all)
  have "uint u = (x * 2 ^ 4 + 7) * 2 ^ 76 + (a * 2 ^ 64 + (2 * 2 ^ 62 + b))" by (simp add: v)
  then have "uint u div 2 ^ 76 = x * 2 ^ 4 + 7" by (simp only:) (rule cut, use assms in simp_all)
  then show "uint u div 2 ^ 76 mod 2 ^ 4 = 7" by simp
  have "uint u = ((x * 2 ^ 4 + 7) * 2 ^ 12 + a) * 2 ^ 64 + (2 * 2 ^ 62 + b)" by (simp add: v)
  then have "uint u div 2 ^ 64 = (x * 2 ^ 4 + 7) * 2 ^ 12 + a" by (simp only:) (rule cut, use assms in simp_all)
  then show "uint u div 2 ^ 64 mod 2 ^ 12 = a" by (simp only:) (rule cut(2), use assms in simp_all)
  have low: "uint u = (((x * 2 ^ 4 + 7) * 2 ^ 12 + a) * 2 ^ 2 + 2) * 2 ^ 62 + b" by (simp add: v)
  show "uint u mod 2 ^ 62 = b" unfolding low by (rule cut(2)) (use assms in simp_all)
  have "uint u div 2 ^ 62 = ((x * 2 ^ 4 + 7) * 2 ^ 12 + a) * 2 ^ 2 + 2"
    unfolding low by (rule cut(1)) (use assms in simp_all)
  then show "uint u div 2 ^ 62 mod 2 ^ 2 = 2" by (simp only:) (rule cut(2), simp_all)
qed

text \<open>
  Property C39. \<open>uuid7\<close> gives valid version 7 identifiers that are ordered by time. For every clock
  reading and all random bits it returns an identifier whose first 48 bits are the milliseconds of the
  reading (the reading times 1000 as a double, its fraction dropped) modulo 2^48, whose version is 7
  and whose variant is 2, and that keeps all 74 random bits. For a reading from 1970 on and below 2^53
  milliseconds these are the elapsed milliseconds or, where the product rounds up to it, the next
  millisecond. Of two identifiers the one with the earlier millisecond is the smaller, whatever their
  random bits, as long as the milliseconds are not negative and fit 48 bits; so two readings from 1970
  on that are two milliseconds or more apart are in order.
\<close>

theorem uuid7_layout:
  assumes "0 \<le> a" "a < 2 ^ 12" and "0 \<le> b" "b < 2 ^ 62"
  shows "\<exists>u. uuid7 time a b = Inr u \<and> uint u div 2 ^ 80 = timestamp_ms time mod 2 ^ 48 \<and>
    (0 \<le> time \<and> time * 1000 < 2 ^ 53 \<longrightarrow> timestamp_ms time \<in> {\<lfloor>time * 1000\<rfloor>, \<lceil>time * 1000\<rceil>}) \<and>
    uint u div 2 ^ 76 mod 2 ^ 4 = 7 \<and> uint u div 2 ^ 64 mod 2 ^ 12 = a \<and>
    uint u div 2 ^ 62 mod 2 ^ 2 = 2 \<and> uint u mod 2 ^ 62 = b \<and>
    (\<forall>time' a' b' u'. uuid7 time' a' b' = Inr u' \<and> 0 \<le> a' \<and> a' < 2 ^ 12 \<and> 0 \<le> b' \<and> b' < 2 ^ 62 \<longrightarrow>
       (0 \<le> timestamp_ms time \<and> timestamp_ms time < timestamp_ms time' \<and> timestamp_ms time' < 2 ^ 48 \<longrightarrow> u < u') \<and>
       (0 \<le> time \<and> time + 2/1000 \<le> time' \<and> time' * 1000 < 2 ^ 48 - 1 \<longrightarrow> u < u'))"
proof -
  obtain u where u: "uuid7 time a b = Inr u"
    and v: "uint u = unix_ms time * 2 ^ 80 + (7 * 2 ^ 76 + (a * 2 ^ 64 + (2 * 2 ^ 62 + b)))"
    by (rule uuid7_value [OF assms])
  have later: "u < u'" if t: "0 \<le> timestamp_ms time" "timestamp_ms time < timestamp_ms time'" "timestamp_ms time' < 2 ^ 48"
    and r: "0 \<le> a'" "a' < 2 ^ 12" "0 \<le> b'" "b' < 2 ^ 62" and u': "uuid7 time' a' b' = Inr u'" for time' a' b' u'
  proof -
    obtain w where w: "uuid7 time' a' b' = Inr w"
      and v': "uint w = unix_ms time' * 2 ^ 80 + (7 * 2 ^ 76 + (a' * 2 ^ 64 + (2 * 2 ^ 62 + b')))"
      by (rule uuid7_value [OF r])
    have "unix_ms time + 1 \<le> unix_ms time'" using t by (simp add: unix_ms_def)
    then have "uint u < uint w" using v v' assms r by simp
    with w u' show ?thesis by (simp add: word_less_def)
  qed
  have apart: "0 \<le> timestamp_ms time \<and> timestamp_ms time < timestamp_ms time' \<and> timestamp_ms time' < 2 ^ 48"
    if "0 \<le> time" "time + 2/1000 \<le> time'" "time' * 1000 < 2 ^ 48 - 1" for time'
    by (rule timestamps_apart [OF that])
  have later2: "(0 \<le> timestamp_ms time \<and> timestamp_ms time < timestamp_ms time' \<and> timestamp_ms time' < 2 ^ 48 \<longrightarrow> u < u') \<and>
       (0 \<le> time \<and> time + 2/1000 \<le> time' \<and> time' * 1000 < 2 ^ 48 - 1 \<longrightarrow> u < u')"
    if "uuid7 time' a' b' = Inr u' \<and> 0 \<le> a' \<and> a' < 2 ^ 12 \<and> 0 \<le> b' \<and> b' < 2 ^ 62" for time' a' b' u'
    using later [of time' a' b' u'] apart [of time'] that by blast
  have fields: "uint u div 2 ^ 80 = timestamp_ms time mod 2 ^ 48" "uint u div 2 ^ 76 mod 2 ^ 4 = 7"
    "uint u div 2 ^ 64 mod 2 ^ 12 = a" "uint u div 2 ^ 62 mod 2 ^ 2 = 2" "uint u mod 2 ^ 62 = b"
    using uuid7_fields [OF assms v] by (simp_all only: unix_ms_def)
  have near: "0 \<le> time \<and> time * 1000 < 2 ^ 53 \<longrightarrow> timestamp_ms time \<in> {\<lfloor>time * 1000\<rfloor>, \<lceil>time * 1000\<rceil>}"
    using timestamp_ms_near by blast
  show ?thesis using u fields near later2 by blast
qed

text \<open>
  The reading \<open>1791707622.455\<close>: the exact product is below the millisecond 455, its double is not.
\<close>

lemma double_round_up:
  "\<lfloor>double_round (1791707622455/1000) * 1000\<rfloor> = 1791707622454"
  "timestamp_ms (double_round (1791707622455/1000)) = 1791707622455"
  by code_simp+

definition demo_reading :: "int \<Rightarrow> rat" where
  "demo_reading ms = double_round (of_int ms / 1000)"

lemma timestamp_demo: "timestamp_ms (demo_reading 1700000000123) = 1700000000123"
  "timestamp_ms (demo_reading 1700000000124) = 1700000000124"
  by code_simp+

theorem uuid7_layout_witness:
  "\<exists>u v. uuid7 (demo_reading 1700000000123) 5 9 = Inr u \<and> uuid7 (demo_reading 1700000000124) 0 0 = Inr v \<and>
     u < v \<and> uint u div 2 ^ 80 = 1700000000123"
proof -
  let ?t = "demo_reading 1700000000123" and ?t' = "demo_reading 1700000000124"
  obtain v where v: "uuid7 ?t' 0 0 = Inr v" by (rule uuid7_value [of 0 0 ?t']) simp_all
  obtain u where u: "uuid7 ?t 5 9 = Inr u" "uint u div 2 ^ 80 = timestamp_ms ?t mod 2 ^ 48"
    and later: "\<forall>time' a' b' u'. uuid7 time' a' b' = Inr u' \<and> 0 \<le> a' \<and> a' < 2 ^ 12 \<and> 0 \<le> b' \<and> b' < 2 ^ 62 \<longrightarrow>
       (0 \<le> timestamp_ms ?t \<and> timestamp_ms ?t < timestamp_ms time' \<and> timestamp_ms time' < 2 ^ 48 \<longrightarrow> u < u') \<and>
       (0 \<le> ?t \<and> ?t + 2/1000 \<le> time' \<and> time' * 1000 < 2 ^ 48 - 1 \<longrightarrow> u < u')"
    using uuid7_layout [of 5 9 ?t] by auto
  from later v have "u < v" by (elim allE [of _ ?t'] allE [of _ 0] allE [of _ v]) (simp add: timestamp_demo)
  with u v show ?thesis by (auto simp: timestamp_demo)
qed

end
