(* ===== verification/DocsPage.thy ===== *)
theory DocsPage
  imports Uuid7 ValueObjects Formats PyText
begin

text \<open>
  \<open>runtime/bootstrap/scalar_route.py\<close>: the documentation page and the script it adds, which puts a
  button into the row of the \<open>Idempotency-Key\<close> header that fills in a new UUIDv7. The page of the
  Scalar library is a parameter. The browser's document is a tree of elements and texts; an element
  is named by its path from the root. HTML's tag names are in lower case here.
\<close>

unbundle bit_operations_syntax

section \<open>The page\<close>

definition inject_uuid7_button :: "string \<Rightarrow> string \<Rightarrow> string \<Rightarrow> string" where
  "inject_uuid7_button style script page =
     (let page = replace_all ''</head>'' (style @ ''</head>'') page
      in replace_all ''</body>'' (script @ ''</body>'') page)"

text \<open>The arguments of \<open>get_scalar_api_reference\<close>.\<close>

record scalar_config =
  sc_title :: string
  sc_source_title :: string
  sc_source_url :: string
  sc_source_default :: bool
  sc_agent_disabled :: bool
  sc_layout :: string
  sc_show_sidebar :: bool
  sc_authentication :: pydict

definition scalar_authentication :: pydict where
  "scalar_authentication =
     [(''preferredSecurityScheme'', VStr ''XApiKey''),
      (''securitySchemes'', VDict [(''XApiKey'', VDict
         [(''type'', VStr ''apiKey''), (''in'', VStr ''header''), (''name'', VStr ''X-API-Key''),
          (''value'', VStr ''dev-key'')])])]"

definition scalar_html :: "(scalar_config \<Rightarrow> string) \<Rightarrow> string \<Rightarrow> string \<Rightarrow> string \<Rightarrow> string \<Rightarrow> string" where
  "scalar_html get_scalar_api_reference app_name source_title style script =
     (let reference = get_scalar_api_reference
        \<lparr>sc_title = app_name, sc_source_title = source_title, sc_source_url = ''/openapi.json'',
         sc_source_default = True, sc_agent_disabled = True, sc_layout = ''modern'', sc_show_sidebar = True,
         sc_authentication = scalar_authentication\<rparr>
      in inject_uuid7_button style script reference)"

section \<open>The identifier\<close>

fun to_hex :: "nat \<Rightarrow> string" where
  "to_hex n = (if n < 16 then [hex_char n] else to_hex (n div 16) @ [hex_char (n mod 16)])"

declare to_hex.simps [simp del]

definition pad_start :: "nat \<Rightarrow> char \<Rightarrow> string \<Rightarrow> string" where
  "pad_start n c s = replicate (n - length s) c @ s"

text \<open>\<open>rnd\<close> is what \<open>crypto.getRandomValues\<close> puts into the sixteen bytes, \<open>ts\<close> is \<open>Date.now()\<close>.\<close>

definition js_bytes :: "int \<Rightarrow> 8 word list \<Rightarrow> 8 word list" where
  "js_bytes ts rnd =
     (let bytes = rnd;
          bytes = bytes[0 := word_of_int (drop_bit 40 ts AND 0xff)];
          bytes = bytes[1 := word_of_int (drop_bit 32 ts AND 0xff)];
          bytes = bytes[2 := word_of_int (drop_bit 24 ts AND 0xff)];
          bytes = bytes[3 := word_of_int (drop_bit 16 ts AND 0xff)];
          bytes = bytes[4 := word_of_int (drop_bit 8 ts AND 0xff)];
          bytes = bytes[5 := word_of_int (ts AND 0xff)];
          bytes = bytes[6 := (bytes ! 6 AND 0x0f) OR 0x70]
      in bytes[8 := (bytes ! 8 AND 0x3f) OR 0x80])"

definition slice :: "nat \<Rightarrow> nat \<Rightarrow> string \<Rightarrow> string" where
  "slice m n s = take (n - m) (drop m s)"

definition js_uuid7 :: "int \<Rightarrow> 8 word list \<Rightarrow> string" where
  "js_uuid7 ts rnd =
     (let hex = concat (map (\<lambda>b. pad_start 2 (CHR ''0'') (to_hex (unat b))) (js_bytes ts rnd))
      in slice 0 8 hex @ ''-'' @ slice 8 12 hex @ ''-'' @ slice 12 16 hex @ ''-'' @ slice 16 20 hex @ ''-'' @
         drop 20 hex)"

section \<open>The document\<close>

datatype dom = Text string | Elem string "(string \<times> string) list" "dom list"

type_synonym path = "nat list"

fun tag_of :: "dom \<Rightarrow> string" where
  "tag_of (Text s) = []"
| "tag_of (Elem t a ks) = t"

fun attr :: "string \<Rightarrow> dom \<Rightarrow> string option" where
  "attr n (Text s) = None"
| "attr n (Elem t a ks) = map_of a n"

fun text_content :: "dom \<Rightarrow> string" where
  "text_content (Text s) = s"
| "text_content (Elem t a ks) = concat (map text_content ks)"

fun node_at :: "path \<Rightarrow> dom \<Rightarrow> dom option" where
  "node_at [] n = Some n"
| "node_at (i # p) (Text s) = None"
| "node_at (i # p) (Elem t a ks) = (if i < length ks then node_at p (ks ! i) else None)"

fun update_at :: "path \<Rightarrow> (dom \<Rightarrow> dom) \<Rightarrow> dom \<Rightarrow> dom" where
  "update_at [] f n = f n"
| "update_at (i # p) f (Text s) = Text s"
| "update_at (i # p) f (Elem t a ks) =
     (if i < length ks then Elem t a (ks[i := update_at p f (ks ! i)]) else Elem t a ks)"

text \<open>The elements that satisfy a selector, in document order, with the root and without it.\<close>

lemma enumerate_smaller [termination_simp]: "(i, k) \<in> set (enumerate m ks) \<Longrightarrow> size k < Suc (size_list size ks)"
  by (auto simp: in_set_enumerate_eq less_Suc_eq_le intro!: size_list_estimation' [where f = size] nth_mem)

fun matching :: "(dom \<Rightarrow> bool) \<Rightarrow> dom \<Rightarrow> path list" where
  "matching q (Text s) = []"
| "matching q (Elem t a ks) =
     (if q (Elem t a ks) then [[]] else []) @
     concat (map (\<lambda>(i, k). map (\<lambda>p. i # p) (matching q k)) (enumerate 0 ks))"

definition query :: "(dom \<Rightarrow> bool) \<Rightarrow> dom \<Rightarrow> path list" where
  "query q n = filter (\<lambda>p. p \<noteq> []) (matching q n)"

definition closest :: "string \<Rightarrow> dom \<Rightarrow> path \<Rightarrow> path option" where
  "closest t doc p =
     find (\<lambda>r. case node_at r doc of None \<Rightarrow> False | Some n \<Rightarrow> tag_of n = t)
       (map (\<lambda>k. take k p) (rev [0..<Suc (length p)]))"

text \<open>White space of JavaScript among the first 256 characters.\<close>

definition js_space :: "char \<Rightarrow> bool" where
  "js_space c \<longleftrightarrow> (of_char c :: nat) \<in> {9, 10, 11, 12, 13, 32, 160}"

text \<open>The tokens of a \<open>class\<close> attribute are separated by ASCII white space.\<close>

definition ascii_space :: "char \<Rightarrow> bool" where
  "ascii_space c \<longleftrightarrow> (of_char c :: nat) \<in> {9, 10, 12, 13, 32}"

fun tokens :: "string \<Rightarrow> string list" where
  "tokens [] = [[]]"
| "tokens (c # s) =
     (if ascii_space c then [] # tokens s
      else (case tokens s of [] \<Rightarrow> [[c]] | w # ws \<Rightarrow> (c # w) # ws))"

definition has_class :: "string \<Rightarrow> dom \<Rightarrow> bool" where
  "has_class c n \<longleftrightarrow> (case attr ''class'' n of None \<Rightarrow> False | Some v \<Rightarrow> c \<in> set (tokens v))"

section \<open>The script\<close>

definition is_editor :: "dom \<Rightarrow> bool" where
  "is_editor n \<longleftrightarrow> has_class ''code-input-lite__editor'' n"

definition js_trim :: "string \<Rightarrow> string" where
  "js_trim s = rev (dropWhile js_space (rev (dropWhile js_space s)))"

text \<open>\<open>/^idempotency[\s_-]*key$/i\<close>\<close>

definition label_matches :: "string \<Rightarrow> bool" where
  "label_matches s =
     (let t = map ascii_lower s
      in starts_with ''idempotency'' t \<and>
         dropWhile (\<lambda>c. js_space c \<or> c = CHR ''_'' \<or> c = CHR ''-'') (drop 11 t) = ''key'')"

definition labelled_row :: "dom \<Rightarrow> path \<Rightarrow> path option" where
  "labelled_row doc p =
     (case node_at p doc of
        None \<Rightarrow> None
      | Some n \<Rightarrow> if label_matches (js_trim (text_content n)) then closest ''tr'' doc p else None)"

definition find_idempotency_row :: "dom \<Rightarrow> path option" where
  "find_idempotency_row doc =
     (let by_label = (case List.map_filter (labelled_row doc) (matching is_editor doc) of [] \<Rightarrow> None | r # _ \<Rightarrow> Some r)
      in case matching (\<lambda>n. attr ''id'' n = Some ''Idempotency-Key'') doc of
           r # _ \<Rightarrow> if map_option tag_of (node_at r doc) = Some ''tr'' then Some r else by_label
         | [] \<Rightarrow> by_label)"

definition get_value_editor :: "dom \<Rightarrow> path option" where
  "get_value_editor row =
     (case query (\<lambda>n. is_editor n \<and> (case attr ''aria-label'' n of None \<Rightarrow> False | Some l \<Rightarrow> ends_with '' Value'' l)) row of
        e # _ \<Rightarrow> Some e
      | [] \<Rightarrow> (case query is_editor row of _ # e # _ \<Rightarrow> Some e | _ \<Rightarrow> None))"

datatype dom_event = Focus path | Input path string | Blur path

fun with_text :: "string \<Rightarrow> dom \<Rightarrow> dom" where
  "with_text v (Text s) = Text s"
| "with_text v (Elem t a ks) = Elem t a [Text v]"

definition set_value :: "path \<Rightarrow> string \<Rightarrow> dom \<Rightarrow> dom \<times> dom_event list" where
  "set_value e v doc = (update_at e (with_text v) doc, [Focus e, Input e v, Blur e])"

fun set_attr :: "string \<Rightarrow> string \<Rightarrow> dom \<Rightarrow> dom" where
  "set_attr n v (Text s) = Text s"
| "set_attr n v (Elem t a ks) = Elem t ((n, v) # filter (\<lambda>kv. fst kv \<noteq> n) a) ks"

fun append_child :: "dom \<Rightarrow> dom \<Rightarrow> dom" where
  "append_child k (Text s) = Text s"
| "append_child k (Elem t a ks) = Elem t a (ks @ [k])"

definition uuid7_button :: dom where
  "uuid7_button =
     Elem ''button'' [(''type'', ''button''), (''class'', ''scalar-uuid7-btn''), (''title'', ''Generate UUID7''),
         (''aria-label'', ''Generate UUID7'')]
       [Elem ''svg'' [(''xmlns'', ''http://www.w3.org/2000/svg''), (''width'', ''14''), (''height'', ''14''),
           (''viewBox'', ''0 0 24 24''), (''fill'', ''none''), (''stroke'', ''currentColor''),
           (''stroke-width'', ''2''), (''stroke-linecap'', ''round''), (''stroke-linejoin'', ''round'')]
         [Elem ''path'' [(''d'', ''M21 12a9 9 0 1 1-2.64-6.36'')] [],
          Elem ''polyline'' [(''points'', ''21 3 21 9 15 9'')] []]]"

definition flag :: string where
  "flag = ''data-uuid7-button''"

definition is_slot :: "dom \<Rightarrow> bool" where
  "is_slot n \<longleftrightarrow> tag_of n = ''div'' \<and> has_class ''centered-y'' n \<and> has_class ''absolute'' n \<and> has_class ''right-0'' n"

definition button_container :: "dom \<Rightarrow> path \<Rightarrow> path" where
  "button_container doc cell =
     (case node_at cell doc of
        None \<Rightarrow> cell
      | Some n \<Rightarrow> (case query is_slot n of s # _ \<Rightarrow> cell @ s | [] \<Rightarrow> cell))"

definition decorate_row :: "path \<Rightarrow> dom \<Rightarrow> dom" where
  "decorate_row r doc =
     (case node_at r doc of
        None \<Rightarrow> doc
      | Some row \<Rightarrow>
          if attr flag row \<notin> {None, Some []} then doc
          else (let doc = update_at r (set_attr flag ''1'') doc
                in case get_value_editor row of
                     None \<Rightarrow> doc
                   | Some e \<Rightarrow> (case closest ''td'' doc (r @ e) of
                         None \<Rightarrow> doc
                       | Some cell \<Rightarrow> update_at (button_container doc cell) (append_child uuid7_button) doc)))"

text \<open>The callback of the observer, which is also what the script does first.\<close>

definition observe :: "dom \<Rightarrow> dom" where
  "observe doc = (case find_idempotency_row doc of None \<Rightarrow> doc | Some r \<Rightarrow> decorate_row r doc)"

text \<open>The handler of a click on the button of row \<open>r\<close>.\<close>

definition button_click :: "path \<Rightarrow> int \<Rightarrow> 8 word list \<Rightarrow> dom \<Rightarrow> dom \<times> dom_event list" where
  "button_click r ts rnd doc =
     (case node_at r doc of
        None \<Rightarrow> (doc, [])
      | Some row \<Rightarrow> (case get_value_editor row of
            None \<Rightarrow> (doc, [])
          | Some e \<Rightarrow> set_value (r @ e) (js_uuid7 ts rnd) doc))"

section \<open>Where the additions go\<close>

text \<open>Into the head and at the end of the body, of a page that closes each once.\<close>

lemma inject_position:
  assumes "page = p @ ''</head>'' @ m @ ''</body>'' @ t"
    and "\<forall>q u. page = q @ ''</head>'' @ u \<longrightarrow> length p \<le> length q"
    and "\<not> contains ''</head>'' (m @ ''</body>'' @ t)"
    and "\<forall>q u. p @ style @ ''</head>'' @ m @ ''</body>'' @ t = q @ ''</body>'' @ u \<longrightarrow>
      length (p @ style @ ''</head>'' @ m) \<le> length q"
    and "\<not> contains ''</body>'' t"
  shows "inject_uuid7_button style script page = p @ style @ ''</head>'' @ m @ script @ ''</body>'' @ t"
proof -
  have "replace_all ''</head>'' (style @ ''</head>'') page = p @ style @ ''</head>'' @ m @ ''</body>'' @ t"
    using replace_all_first [OF assms(1) _ assms(2), of "style @ ''</head>''"] replace_all_absent [OF assms(3)] by simp
  moreover have "replace_all ''</body>'' (script @ ''</body>'') ((p @ style @ ''</head>'' @ m) @ ''</body>'' @ t) =
      (p @ style @ ''</head>'' @ m) @ (script @ ''</body>'') @ replace_all ''</body>'' (script @ ''</body>'') t"
    by (rule replace_all_first [OF refl]) (use assms(4) in simp_all)
  ultimately show ?thesis by (simp add: inject_uuid7_button_def replace_all_absent [OF assms(5)])
qed

section \<open>The observer comes to rest\<close>

text \<open>What a selector of the script can see of a node: all but the mark of a decorated row.\<close>

definition looks :: "dom \<Rightarrow> bool \<times> string \<times> (string \<Rightarrow> string option) \<times> string" where
  "looks n = (case n of Text _ \<Rightarrow> False | Elem _ _ _ \<Rightarrow> True, tag_of n,
     \<lambda>k. if k = flag then None else attr k n, text_content n)"

definition view_stable :: "(dom \<Rightarrow> bool) \<Rightarrow> bool" where
  "view_stable q \<longleftrightarrow> (\<forall>n n'. looks n = looks n' \<longrightarrow> q n = q n')"

lemma stableD: "view_stable q \<Longrightarrow> looks n = looks n' \<Longrightarrow> q n = q n'"
  unfolding view_stable_def by blast

definition same_view :: "dom \<Rightarrow> dom \<Rightarrow> bool" where
  "same_view d d' \<longleftrightarrow> looks d' = looks d \<and>
     (\<forall>q. view_stable q \<and> matching q uuid7_button = [] \<longrightarrow> matching q d' = matching q d) \<and>
     (\<forall>p m. node_at p d = Some m \<longrightarrow> (\<exists>m'. node_at p d' = Some m' \<and> looks m' = looks m))"

lemma view_at:
  assumes "same_view d d'" "node_at p d = Some m"
  obtains m' where "node_at p d' = Some m'" "looks m' = looks m"
  using assms unfolding same_view_def by blast

lemma same_view_refl [simp]: "same_view d d"
  by (simp add: same_view_def)

lemma same_view_trans: "same_view d d' \<Longrightarrow> same_view d' d'' \<Longrightarrow> same_view d d''"
  unfolding same_view_def by metis

lemma looks_Elem: "looks (Elem t a ks) = looks (Elem t' a' ks') \<longleftrightarrow>
    t = t' \<and> (\<forall>k. k \<noteq> flag \<longrightarrow> map_of a k = map_of a' k) \<and>
    concat (map text_content ks) = concat (map text_content ks')"
  by (auto simp: looks_def fun_eq_iff)

lemma matching_kids:
  "matching q (Elem t a ks) = (if q (Elem t a ks) then [[]] else []) @
     concat (map (\<lambda>j. map (\<lambda>p. j # p) (matching q (ks ! j))) [0..<length ks])"
proof -
  have "map (\<lambda>(i, k). map (\<lambda>p. i # p) (matching q k)) (enumerate 0 ks) =
      map (\<lambda>j. map (\<lambda>p. j # p) (matching q (ks ! j))) [0..<length ks]"
    by (rule nth_equalityI) (simp_all add: nth_enumerate_eq)
  then show ?thesis by simp
qed

declare matching.simps(2) [simp del]

lemma text_update:
  "i < length ks \<Longrightarrow> text_content k = text_content (ks ! i) \<Longrightarrow>
     map text_content (ks[i := k]) = map text_content ks"
  by (simp add: map_update list_update_same_conv)

lemma update_at_view:
  assumes "\<And>m. same_view m (f m)"
  shows "same_view n (update_at p f n)"
proof (induction p arbitrary: n)
  case Nil
  show ?case using assms by simp
next
  case (Cons i p)
  show ?case
  proof (cases n)
    case (Text s)
    then show ?thesis by simp
  next
    case (Elem t a ks)
    show ?thesis
    proof (cases "i < length ks")
      case False
      with Elem show ?thesis by simp
    next
      case True
      let ?k = "update_at p f (ks ! i)"
      have k: "same_view (ks ! i) ?k" by (rule Cons.IH)
      then have tc: "map text_content (ks[i := ?k]) = map text_content ks"
        using True by (intro text_update) (auto simp: same_view_def looks_def)
      then have looks: "looks (Elem t a (ks[i := ?k])) = looks (Elem t a ks)" by (simp only: looks_Elem) simp
      have "matching q (Elem t a (ks[i := ?k])) = matching q (Elem t a ks)"
        if q: "view_stable q" "matching q uuid7_button = []" for q
      proof -
        have "matching q (ks[i := ?k] ! j) = matching q (ks ! j)" for j
          using k q True by (cases "i = j") (auto simp: same_view_def)
        moreover have "q (Elem t a (ks[i := ?k])) = q (Elem t a ks)" by (rule stableD [OF q(1) looks])
        ultimately show ?thesis by (simp add: matching_kids)
      qed
      moreover have "\<exists>m'. node_at r (Elem t a (ks[i := ?k])) = Some m' \<and> looks m' = looks m"
        if "node_at r (Elem t a ks) = Some m" for r m
      proof (cases r)
        case Nil
        with that looks show ?thesis by auto
      next
        case (Cons j r')
        with that k True show ?thesis by (cases "i = j") (auto simp: same_view_def split: if_splits)
      qed
      ultimately show ?thesis using looks Elem True by (simp add: same_view_def)
    qed
  qed
qed

lemma set_flag_view: "same_view m (set_attr flag v m)"
proof (cases m)
  case (Elem t a ks)
  let ?a = "(flag, v) # filter (\<lambda>kv. fst kv \<noteq> flag) a"
  have keep: "map_of (filter (\<lambda>kv. fst kv \<noteq> flag) a) k = map_of a k" if "k \<noteq> flag" for k
    using that by (induction a) auto
  then have looks: "looks (Elem t ?a ks) = looks (Elem t a ks)" by (simp add: looks_Elem)
  have "matching q (Elem t ?a ks) = matching q (Elem t a ks)" if "view_stable q" for q
    using stableD [OF that looks] by (simp add: matching_kids)
  moreover have "\<exists>m'. node_at r (Elem t ?a ks) = Some m' \<and> looks m' = looks m"
    if "node_at r (Elem t a ks) = Some m" for r m
  proof (cases r)
    case Nil
    with that looks show ?thesis by simp
  next
    case (Cons i r')
    with that show ?thesis by simp
  qed
  ultimately show ?thesis using looks Elem by (simp add: same_view_def)
qed simp

lemma append_button_view: "same_view m (append_child uuid7_button m)"
proof (cases m)
  case (Elem t a ks)
  have "text_content uuid7_button = []" by (simp add: uuid7_button_def)
  then have looks: "looks (Elem t a (ks @ [uuid7_button])) = looks (Elem t a ks)" by (simp add: looks_Elem)
  have "matching q (Elem t a (ks @ [uuid7_button])) = matching q (Elem t a ks)"
    if q: "view_stable q" "matching q uuid7_button = []" for q
  proof -
    have "q (Elem t a (ks @ [uuid7_button])) = q (Elem t a ks)" by (rule stableD [OF q(1) looks])
    moreover have "map (\<lambda>j. map (\<lambda>p. j # p) (matching q ((ks @ [uuid7_button]) ! j))) [0..<length ks] =
        map (\<lambda>j. map (\<lambda>p. j # p) (matching q (ks ! j))) [0..<length ks]" (is "?new = ?old")
      by (rule map_cong) (simp_all add: nth_append)
    moreover have "matching q (Elem t a (ks @ [uuid7_button])) =
        (if q (Elem t a (ks @ [uuid7_button])) then [[]] else []) @ concat ?new"
      using q(2) by (simp add: matching_kids [of q t a "ks @ [uuid7_button]"])
    ultimately show ?thesis by (simp only: matching_kids [of q t a ks])
  qed
  moreover have "\<exists>m'. node_at r (Elem t a (ks @ [uuid7_button])) = Some m' \<and> looks m' = looks m"
    if "node_at r (Elem t a ks) = Some m" for r m
  proof (cases r)
    case Nil
    with that looks show ?thesis by simp
  next
    case (Cons i r')
    with that show ?thesis by (simp add: nth_append split: if_splits)
  qed
  ultimately show ?thesis using looks Elem by (simp add: same_view_def)
qed simp

lemma matching_exists: "p \<in> set (matching q n) \<Longrightarrow> \<exists>m. node_at p n = Some m \<and> q m"
proof (induction n arbitrary: p)
  case (Elem t a ks)
  show ?case
  proof (cases p)
    case Nil
    with Elem.prems show ?thesis by (auto simp: matching_kids split: if_splits)
  next
    case (Cons j r)
    with Elem.prems have "j < length ks" "r \<in> set (matching q (ks ! j))"
      by (auto simp: matching_kids split: if_splits)
    with Elem.IH [of "ks ! j" r] Cons show ?thesis by simp
  qed
qed simp

lemma node_at_take: "node_at p n = Some m \<Longrightarrow> \<exists>m'. node_at (take k p) n = Some m'"
proof (induction p arbitrary: n k)
  case (Cons i p)
  then show ?case by (cases n; cases k) (auto split: if_splits)
qed simp

lemma closest_view:
  assumes "same_view d d'" "node_at p d = Some m"
  shows "closest t d' p = closest t d p"
  unfolding closest_def
proof (rule find_cong [OF refl])
  fix r assume "r \<in> set (map (\<lambda>k. take k p) (rev [0..<Suc (length p)]))"
  then obtain k where "r = take k p" by (auto intro: that [of "length p"])
  then obtain n where n: "node_at r d = Some n" using node_at_take [OF assms(2)] by blast
  obtain n' where "node_at r d' = Some n'" "looks n' = looks n" by (rule view_at [OF assms(1) n])
  with n show "(case node_at r d' of None \<Rightarrow> False | Some n \<Rightarrow> tag_of n = t) =
      (case node_at r d of None \<Rightarrow> False | Some n \<Rightarrow> tag_of n = t)" by (simp add: looks_def)
qed

lemma labelled_row_view:
  assumes "same_view d d'" "node_at p d = Some m"
  shows "labelled_row d' p = labelled_row d p"
proof -
  obtain m' where "node_at p d' = Some m'" "looks m' = looks m" by (rule view_at [OF assms])
  with assms(2) closest_view [OF assms, of "''tr''"] show ?thesis by (simp add: labelled_row_def looks_def)
qed

lemma selectors_stable:
  "k \<noteq> flag \<Longrightarrow> view_stable (\<lambda>n. P (attr k n))"
  by (auto simp: view_stable_def looks_def fun_eq_iff)

lemma find_row_view:
  assumes "same_view d d'"
  shows "find_idempotency_row d' = find_idempotency_row d"
proof -
  let ?id = "\<lambda>n. attr ''id'' n = Some ''Idempotency-Key''"
  have "view_stable ?id" "view_stable is_editor"
    using selectors_stable [of "''id''" "\<lambda>v. v = Some ''Idempotency-Key''"]
      selectors_stable [of "''class''" "\<lambda>v. case v of None \<Rightarrow> False | Some v \<Rightarrow> ''code-input-lite__editor'' \<in> set (tokens v)"]
    unfolding is_editor_def has_class_def by (simp_all add: flag_def)
  moreover have "matching ?id uuid7_button = []" "matching is_editor uuid7_button = []"
    by (simp_all add: uuid7_button_def matching.simps is_editor_def has_class_def ascii_space_def)
  ultimately have m: "matching ?id d' = matching ?id d" "matching is_editor d' = matching is_editor d"
    using assms by (auto simp: same_view_def)
  have "labelled_row d' p = labelled_row d p" if "p \<in> set (matching is_editor d)" for p
    using labelled_row_view [OF assms] matching_exists [OF that] by blast
  then have l: "List.map_filter (labelled_row d') (matching is_editor d) = List.map_filter (labelled_row d) (matching is_editor d)"
    by (simp add: List.map_filter_def cong: filter_cong)
  have "map_option tag_of (node_at r d') = map_option tag_of (node_at r d)" if "r \<in> set (matching ?id d)" for r
  proof -
    from matching_exists [OF that] obtain n where n: "node_at r d = Some n" by blast
    obtain n' where "node_at r d' = Some n'" "looks n' = looks n" by (rule view_at [OF assms n])
    with n show ?thesis by (simp add: looks_def)
  qed
  then show ?thesis by (cases "matching ?id d") (simp_all add: find_idempotency_row_def m l)
qed

lemma closest_exists:
  assumes "closest t doc p = Some r"
  shows "\<exists>n. node_at r doc = Some n \<and> tag_of n = t"
proof -
  have "P x" if "find P xs = Some x" for P :: "path \<Rightarrow> bool" and xs x using that by (auto simp: find_Some_iff)
  from this [OF assms [unfolded closest_def]] show ?thesis by (auto split: option.splits)
qed

lemma find_row_exists: "find_idempotency_row doc = Some r \<Longrightarrow> \<exists>row. node_at r doc = Some row \<and> tag_of row = ''tr''"
proof -
  assume r: "find_idempotency_row doc = Some r"
  have label: "\<exists>row. node_at r' doc = Some row \<and> tag_of row = ''tr''"
    if "List.map_filter (labelled_row doc) ps = r' # rs" for ps r' rs
  proof -
    have "r' \<in> set (List.map_filter (labelled_row doc) ps)" by (simp add: that)
    then obtain p where "labelled_row doc p = Some r'" by (auto simp: List.map_filter_def)
    then have "closest ''tr'' doc p = Some r'" by (auto simp: labelled_row_def split: option.splits if_splits)
    then show ?thesis by (rule closest_exists)
  qed
  show ?thesis
  proof (cases "matching (\<lambda>n. attr ''id'' n = Some ''Idempotency-Key'') doc")
    case Nil
    with r show ?thesis by (auto simp: find_idempotency_row_def split: list.splits dest!: label)
  next
    case (Cons p ps)
    with r show ?thesis by (auto simp: find_idempotency_row_def split: list.splits if_splits dest!: label)
  qed
qed

lemma node_at_update: "node_at p n = Some m \<Longrightarrow> node_at p (update_at p f n) = Some (f m)"
proof (induction p arbitrary: n)
  case (Cons i p)
  then show ?case by (cases n) (auto split: if_splits)
qed simp

lemma append_keeps_attr: "attr k (append_child b m) = attr k m"
  by (cases m) simp_all

lemma node_at_append:
  "node_at p n = Some m \<Longrightarrow> \<exists>m'. node_at p (update_at c (append_child b) n) = Some m' \<and> attr k m' = attr k m"
proof (induction c arbitrary: n p)
  case Nil
  then show ?case
  proof (cases n)
    case (Elem t a ks)
    with Nil show ?thesis by (cases p) (auto simp: nth_append split: if_splits)
  qed simp
next
  case (Cons i c)
  show ?case
  proof (cases n)
    case (Elem t a ks)
    show ?thesis
    proof (cases p)
      case Nil
      with Elem Cons.prems show ?thesis by auto
    next
      case (Cons j p')
      with Elem Cons.prems Cons.IH [of p' "ks ! i"] show ?thesis by (cases "i = j") (auto split: if_splits)
    qed
  qed (use Cons.prems in simp)
qed

lemma decorated_marked:
  assumes "node_at r doc = Some row" "tag_of row \<noteq> []" "attr flag row \<in> {None, Some []}"
  shows "\<exists>row'. node_at r (decorate_row r doc) = Some row' \<and> attr flag row' = Some ''1''"
proof -
  let ?d = "update_at r (set_attr flag ''1'') doc"
  obtain t a ks where row: "row = Elem t a ks" using assms(2) by (cases row) auto
  have "node_at r ?d = Some (set_attr flag ''1'' row)" by (rule node_at_update [OF assms(1)])
  moreover have "attr flag (set_attr flag ''1'' row) = Some ''1''" by (simp add: row)
  moreover have "decorate_row r doc = ?d \<or> (\<exists>c. decorate_row r doc = update_at c (append_child uuid7_button) ?d)"
    using assms(1,3) by (auto simp: decorate_row_def Let_def split: option.split)
  ultimately show ?thesis
    using node_at_append [of r ?d "set_attr flag ''1'' row" _ uuid7_button flag] by (metis (no_types))
qed

lemma decorate_view: "same_view doc (decorate_row r doc)"
proof -
  let ?d = "update_at r (set_attr flag ''1'') doc"
  have "decorate_row r doc = doc \<or> decorate_row r doc = ?d \<or>
      (\<exists>c. decorate_row r doc = update_at c (append_child uuid7_button) ?d)"
    by (auto simp: decorate_row_def Let_def split: option.split)
  moreover have "same_view doc ?d" by (rule update_at_view [OF set_flag_view])
  moreover have "same_view ?d (update_at c (append_child uuid7_button) ?d)" for c
    by (rule update_at_view [OF append_button_view])
  ultimately show ?thesis by (metis same_view_refl same_view_trans)
qed

lemma observe_rests: "observe (observe doc) = observe doc"
proof (cases "find_idempotency_row doc")
  case None
  then show ?thesis by (simp add: observe_def)
next
  case (Some r)
  then obtain row where row: "node_at r doc = Some row" "tag_of row = ''tr''" using find_row_exists by blast
  have o: "observe doc = decorate_row r doc" by (simp add: observe_def Some)
  have "find_idempotency_row (observe doc) = Some r" using find_row_view [OF decorate_view] Some o by simp
  then have oo: "observe (observe doc) = decorate_row r (observe doc)" by (simp add: observe_def)
  show ?thesis
  proof (cases "attr flag row \<in> {None, Some []}")
    case True
    with decorated_marked [OF row(1)] row(2) obtain row' where "node_at r (observe doc) = Some row'" "attr flag row' = Some ''1''"
      by (auto simp: o)
    then show ?thesis unfolding oo by (simp add: decorate_row_def)
  next
    case False
    then have "observe doc = doc" using row(1) by (simp add: o decorate_row_def)
    then show ?thesis by simp
  qed
qed

section \<open>What a click fills in\<close>

lemma query_exists: "p \<in> set (query q n) \<Longrightarrow> \<exists>m. node_at p n = Some m \<and> q m"
  by (auto simp: query_def dest: matching_exists)

lemma value_editor_exists: "get_value_editor row = Some e \<Longrightarrow> \<exists>m. node_at e row = Some m \<and> is_editor m"
proof -
  assume e: "get_value_editor row = Some e"
  let ?q = "\<lambda>n. is_editor n \<and> (case attr ''aria-label'' n of None \<Rightarrow> False | Some l \<Rightarrow> ends_with '' Value'' l)"
  from e have "e \<in> set (query ?q row) \<or> e \<in> set (query is_editor row)"
    by (auto simp: get_value_editor_def split: list.splits)
  then show ?thesis using query_exists [of e ?q row] query_exists [of e is_editor row] by blast
qed

lemma node_at_append_path: "node_at (p @ q) n = (case node_at p n of None \<Rightarrow> None | Some m \<Rightarrow> node_at q m)"
proof (induction p arbitrary: n)
  case (Cons i p)
  then show ?case by (cases n) auto
qed simp

lemma click_fills:
  assumes "node_at r doc = Some row" "get_value_editor row = Some e"
  shows "\<exists>doc' m. button_click r ts rnd doc =
      (doc', [Focus (r @ e), Input (r @ e) (js_uuid7 ts rnd), Blur (r @ e)]) \<and>
    node_at (r @ e) doc' = Some m \<and> text_content m = js_uuid7 ts rnd"
proof -
  obtain m where m: "node_at e row = Some m" "is_editor m" using value_editor_exists [OF assms(2)] by blast
  then have "node_at (r @ e) doc = Some m" by (simp add: node_at_append_path assms(1))
  from node_at_update [OF this, of "with_text (js_uuid7 ts rnd)"]
  have "node_at (r @ e) (update_at (r @ e) (with_text (js_uuid7 ts rnd)) doc) = Some (with_text (js_uuid7 ts rnd) m)" .
  moreover have "text_content (with_text v m) = v" for v using m(2) by (cases m) (simp_all add: is_editor_def has_class_def)
  ultimately show ?thesis by (simp add: button_click_def assms set_value_def)
qed

section \<open>Which identifier it is\<close>

definition bytes_val :: "8 word list \<Rightarrow> int" where
  "bytes_val bs = foldl (\<lambda>n b. 256 * n + uint b) 0 bs"

lemma bytes_val_snoc: "bytes_val (bs @ [b]) = 256 * bytes_val bs + uint b"
  by (simp add: bytes_val_def)

lemma bytes_val_nonneg: "0 \<le> bytes_val bs"
  by (induction bs rule: rev_induct) (simp_all add: bytes_val_snoc bytes_val_def [of "[]"])

lemma byte_hex: "pad_start 2 (CHR ''0'') (to_hex (unat (b :: 8 word))) = [hex_char (unat b div 16), hex_char (unat b mod 16)]"
proof -
  have b: "unat b div 16 < 16" using unsigned_less [of b] by (simp add: div_less_iff_less_mult)
  have zero: "hex_char 0 = CHR ''0''" by (simp add: hex_char_def)
  show ?thesis
  proof (cases "unat b < 16")
    case True
    then show ?thesis by (subst to_hex.simps) (simp add: pad_start_def zero)
  next
    case False
    with b show ?thesis by (subst to_hex.simps) (simp add: pad_start_def to_hex.simps [of "unat b div 16"])
  qed
qed

lemma two_digits:
  assumes "u < 256"
  shows "hexs (Suc (Suc w)) (256 * n + u) = hexs w n @ [hex_char (u div 16), hex_char (u mod 16)]"
proof -
  define p q where "p = u div 16" and "q = u mod 16"
  have pq: "u = 16 * p + q" "p < 16" "q < 16" using assms by (auto simp: p_def q_def)
  have "256 * n + u = 16 * (16 * n + p) + q" by (simp add: pq(1))
  moreover have "(16 * m + q) div 16 = m" "(16 * m + q) mod 16 = q" for m using pq(3) by simp_all
  ultimately have "(256 * n + u) div 16 = 16 * n + p" "(256 * n + u) mod 16 = q" by metis+
  moreover have "(16 * n + p) div 16 = n" "(16 * n + p) mod 16 = p" using pq(2) by simp_all
  ultimately show ?thesis by (simp flip: p_def q_def)
qed

lemma bytes_hex:
  "concat (map (\<lambda>b. pad_start 2 (CHR ''0'') (to_hex (unat b))) bs) = hexs (2 * length bs) (nat (bytes_val bs))"
proof (induction bs rule: rev_induct)
  case (snoc b bs)
  have n: "nat (bytes_val (bs @ [b])) = 256 * nat (bytes_val bs) + unat b"
    using bytes_val_nonneg [of bs] by (simp add: bytes_val_snoc nat_add_distrib nat_mult_distrib flip: unat_eq_nat_uint)
  have lt: "unat b < 256" using unsigned_less [of b] by simp
  have "2 * length (bs @ [b]) = Suc (Suc (2 * length bs))" by simp
  then show ?case by (simp only: map_append concat_append snoc n two_digits [OF lt]) (simp add: byte_hex)
qed (simp add: bytes_val_def)

lemma low_byte: "x AND 0xff = (x :: int) mod 256"
  using take_bit_eq_mask [of 8 x] by (simp add: take_bit_eq_mod mask_eq_exp_minus_1)

lemma uint_low_byte: "uint (word_of_int (x AND 0xff) :: 8 word) = x mod 256"
  by (simp add: low_byte uint_word_of_int take_bit_eq_mod)

lemma version_byte: "uint ((b AND 0x0f) OR 0x70 :: 8 word) = 112 + uint b mod 16"
proof -
  have "uint b AND 15 = uint b mod 16"
    using take_bit_eq_mask [of 4 "uint b"] by (simp add: take_bit_eq_mod mask_eq_exp_minus_1)
  moreover have "push_bit 4 7 OR uint b mod 16 = 7 * 2 ^ 4 + uint b mod 16" by (rule push_or_add) simp_all
  ultimately show ?thesis by (simp add: unsigned_or_eq unsigned_and_eq or.commute)
qed

lemma variant_byte: "uint ((b AND 0x3f) OR 0x80 :: 8 word) = 128 + uint b mod 64"
proof -
  have "uint b AND 63 = uint b mod 64"
    using take_bit_eq_mask [of 6 "uint b"] by (simp add: take_bit_eq_mod mask_eq_exp_minus_1)
  moreover have "push_bit 6 2 OR uint b mod 64 = 2 * 2 ^ 6 + uint b mod 64" by (rule push_or_add) simp_all
  ultimately show ?thesis by (simp add: unsigned_or_eq unsigned_and_eq or.commute)
qed

lemma six_bytes:
  "(x :: int) mod 2 ^ 48 = (x div 2 ^ 40 mod 256) * 2 ^ 40 + ((x div 2 ^ 32 mod 256) * 2 ^ 32 +
     ((x div 2 ^ 24 mod 256) * 2 ^ 24 + ((x div 2 ^ 16 mod 256) * 2 ^ 16 + ((x div 2 ^ 8 mod 256) * 2 ^ 8 + x mod 2 ^ 8))))"
proof -
  have step: "x mod 2 ^ (k + 8) = (x div 2 ^ k mod 256) * 2 ^ k + x mod 2 ^ k" for k
  proof -
    have "x mod (2 ^ k * 256) = 2 ^ k * (x div 2 ^ k mod 256) + x mod 2 ^ k" by (rule zmod_zmult2_eq) simp
    then show ?thesis by (simp add: power_add mult.commute)
  qed
  note steps = step [of 40] step [of 32] step [of 24] step [of 16] step [of 8]
  show ?thesis using steps by (simp only: numeral_plus_numeral add_num_simps)
qed

text \<open>The random bits the script keeps, as \<open>uuid7\<close> names them.\<close>

definition js_rand_a :: "8 word list \<Rightarrow> int" where
  "js_rand_a rnd = (uint (rnd ! 6) mod 16) * 256 + uint (rnd ! 7)"

definition js_rand_b :: "8 word list \<Rightarrow> int" where
  "js_rand_b rnd = (uint (rnd ! 8) mod 64) * 2 ^ 56 + bytes_val (drop 9 rnd)"

lemma list16:
  assumes "length rnd = 16"
  obtains f :: "nat \<Rightarrow> 'a" where "rnd = [f 0, f 1, f 2, f 3, f 4, f 5, f 6, f 7, f 8, f 9, f 10, f 11, f 12, f 13, f 14, f 15]"
proof (rule that [of "nth rnd"])
  have "rnd = map (nth rnd) [0..<16]" using map_nth [of rnd] assms by simp
  also have "[0..<16] = [0, 1, 2, 3, 4, 5, 6, 7, 8, 9, 10, 11, 12, 13, 14, 15 :: nat]" by (simp add: upt_rec)
  finally show "rnd = [rnd ! 0, rnd ! 1, rnd ! 2, rnd ! 3, rnd ! 4, rnd ! 5, rnd ! 6, rnd ! 7, rnd ! 8, rnd ! 9, rnd ! 10, rnd ! 11, rnd ! 12, rnd ! 13, rnd ! 14, rnd ! 15]" by simp
qed

lemma js_bytes_val:
  assumes "length rnd = 16"
  shows "bytes_val (js_bytes ts rnd) =
    (ts mod 2 ^ 48) * 2 ^ 80 + (7 * 2 ^ 76 + (js_rand_a rnd * 2 ^ 64 + (2 * 2 ^ 62 + js_rand_b rnd)))"
    "length (js_bytes ts rnd) = 16"
proof -
  obtain f :: "nat \<Rightarrow> 8 word" where rnd: "rnd = [f 0, f 1, f 2, f 3, f 4, f 5, f 6, f 7, f 8, f 9, f 10, f 11, f 12, f 13, f 14, f 15]" by (rule list16 [OF assms])
  have js: "js_bytes ts rnd = [word_of_int (drop_bit 40 ts AND 0xff), word_of_int (drop_bit 32 ts AND 0xff),
      word_of_int (drop_bit 24 ts AND 0xff), word_of_int (drop_bit 16 ts AND 0xff),
      word_of_int (drop_bit 8 ts AND 0xff), word_of_int (ts AND 0xff), (f 6 AND 0x0f) OR 0x70, f 7,
      (f 8 AND 0x3f) OR 0x80, f 9, f 10, f 11, f 12, f 13, f 14, f 15]"
    by (simp add: rnd js_bytes_def Let_def numeral_eq_Suc)
  define x0 x1 x2 x3 x4 x5 where x: "x0 = ts div 2 ^ 40 mod 256" "x1 = ts div 2 ^ 32 mod 256" "x2 = ts div 2 ^ 24 mod 256"
    "x3 = ts div 2 ^ 16 mod 256" "x4 = ts div 2 ^ 8 mod 256" "x5 = ts mod 2 ^ 8"
  have u: "uint (word_of_int (drop_bit q ts AND 0xff) :: 8 word) = ts div 2 ^ q mod 256" for q
    by (simp only: uint_low_byte drop_bit_eq_div)
  have u0: "uint (word_of_int (ts AND 0xff) :: 8 word) = ts mod 2 ^ 8" by (simp add: uint_low_byte)
  have tail: "bytes_val (drop 9 rnd) = bytes_val [f 9, f 10, f 11, f 12, f 13, f 14, f 15]"
    by (simp add: rnd numeral_eq_Suc)
  have ab: "js_rand_a rnd = (uint (f 6) mod 16) * 256 + uint (f 7)"
    "js_rand_b rnd = (uint (f 8) mod 64) * 2 ^ 56 + bytes_val [f 9, f 10, f 11, f 12, f 13, f 14, f 15]"
    unfolding js_rand_b_def tail by (simp_all add: js_rand_a_def rnd)
  show "bytes_val (js_bytes ts rnd) =
    (ts mod 2 ^ 48) * 2 ^ 80 + (7 * 2 ^ 76 + (js_rand_a rnd * 2 ^ 64 + (2 * 2 ^ 62 + js_rand_b rnd)))"
    unfolding six_bytes ab js bytes_val_def foldl.simps u u0 version_byte variant_byte
      x(1) [symmetric] x(2) [symmetric] x(3) [symmetric] x(4) [symmetric] x(5) [symmetric] x(6) [symmetric]
    by simp
  show "length (js_bytes ts rnd) = 16" using assms by (simp add: js_bytes_def Let_def)
qed

lemma bytes_val_less: "bytes_val bs < 256 ^ length bs"
proof (induction bs rule: rev_induct)
  case (snoc b bs)
  have "uint b < 256" using unsigned_less [of b] by simp
  with snoc show ?case by (simp add: bytes_val_snoc)
qed (simp add: bytes_val_def)

lemma js_rand_bounds:
  assumes "length rnd = 16"
  shows "0 \<le> js_rand_a rnd" "js_rand_a rnd < 2 ^ 12" "0 \<le> js_rand_b rnd" "js_rand_b rnd < 2 ^ 62"
proof -
  have pack: "0 \<le> y * k + x \<and> y * k + x < m * k" if "0 \<le> x" "x < k" "0 \<le> y" "y < m" for x y k m :: int
  proof -
    have "(y + 1) * k \<le> m * k" using that by (intro mult_right_mono) auto
    with that show ?thesis by (simp add: algebra_simps)
  qed
  have "uint (rnd ! 7) < 256" using unsigned_less [of "rnd ! 7"] by simp
  with pack [of "uint (rnd ! 7)" 256 "uint (rnd ! 6) mod 16" 16]
  show "0 \<le> js_rand_a rnd" "js_rand_a rnd < 2 ^ 12" by (simp_all add: js_rand_a_def)
  have "length (drop 9 rnd) = 7" using assms by simp
  then have "bytes_val (drop 9 rnd) < 256 ^ 7" using bytes_val_less [of "drop 9 rnd"] by metis
  also have "(256 :: int) ^ 7 = 2 ^ 56" by simp
  finally have tail: "bytes_val (drop 9 rnd) < 2 ^ 56" .
  have low: "0 \<le> k mod 64" "k mod 64 < 64" for k :: int by simp_all
  from pack [OF bytes_val_nonneg tail low]
  have "0 \<le> js_rand_b rnd \<and> js_rand_b rnd < 64 * 2 ^ 56" unfolding js_rand_b_def .
  moreover have "(64 :: int) * 2 ^ 56 = 2 ^ 62" by simp
  ultimately show "0 \<le> js_rand_b rnd" "js_rand_b rnd < 2 ^ 62" by metis+
qed

lemma js_uuid7_value:
  assumes "timestamp_ms time mod 2 ^ 48 = ts mod 2 ^ 48" "length rnd = 16"
  shows "\<exists>u. uuid7 time (js_rand_a rnd) (js_rand_b rnd) = Inr u \<and> js_uuid7 ts rnd = uuid_str u"
proof -
  obtain u where u: "uuid7 time (js_rand_a rnd) (js_rand_b rnd) = Inr u"
    and v: "uint u = unix_ms time * 2 ^ 80 +
      (7 * 2 ^ 76 + (js_rand_a rnd * 2 ^ 64 + (2 * 2 ^ 62 + js_rand_b rnd)))"
    by (rule uuid7_value [OF js_rand_bounds [OF assms(2)]])
  have "unix_ms time = ts mod 2 ^ 48" using assms(1) by (simp only: unix_ms_def)
  with v js_bytes_val(1) [OF assms(2), of ts] have "bytes_val (js_bytes ts rnd) = uint u" by (simp only:)
  then have "nat (bytes_val (js_bytes ts rnd)) = unat u" by (simp only: unat_eq_nat_uint)
  then have "concat (map (\<lambda>b. pad_start 2 (CHR ''0'') (to_hex (unat b))) (js_bytes ts rnd)) = hexs 32 (unat u)"
    by (simp add: bytes_hex js_bytes_val(2) [OF assms(2)])
  then have "js_uuid7 ts rnd = uuid_str u" by (simp add: js_uuid7_def uuid_str_def slice_def Let_def)
  with u show ?thesis by blast
qed

lemma hex_char_printable: "d < 16 \<Longrightarrow> printable (hex_char d)"
  by (drule hex_digit_cases) (auto simp: hex_char_def printable_def)

lemma hexs_printable: "list_all printable (hexs w n)"
  by (induction w arbitrary: n) (auto simp: hex_char_printable)

lemma uuid_str_printable: "list_all printable (uuid_str u)"
proof -
  have "c \<in> set (hexs 32 (unat u)) \<Longrightarrow> printable c" for c using hexs_printable by (auto simp: list_all_iff)
  moreover have "printable CHR ''-''" by (simp add: printable_def)
  ultimately show ?thesis
    by (auto simp: list_all_iff uuid_str_def Let_def dest!: in_set_takeD in_set_dropD)
qed

lemma uuid_str_key: "mk_idempotency_key (uuid_str u) = Inr (IdempotencyKey (uuid_str u))"
proof -
  have len: "length (uuid_str u) = 36" by (simp add: uuid_str_def Let_def)
  moreover have "key_re_match (uuid_str u)"
    using len uuid_str_printable [of u] by (auto simp: key_re_match_iff intro!: exI [of _ "uuid_str u"])
  ultimately show ?thesis by (auto simp: mk_idempotency_key_def key_max_length_def)
qed

text \<open>
  Property C40. The button of the documentation page does what the server does. A click puts into the
  value field of the row the text of exactly the identifier that the server's \<open>uuid7\<close> makes in the
  same millisecond from the same random bits (the page counts milliseconds with \<open>Date.now()\<close>, the
  server with \<open>int(time.time() * 1000)\<close>), and tells the page about it by an input event with that
  text. The text is the standard form of the identifier, from which \<open>uuid.UUID\<close> would give it back,
  and the API accepts it as an idempotency key. The observer that adds the button comes to rest: its
  own changes make it change nothing more.
\<close>

theorem docs_button_fills_key:
  assumes "node_at r doc = Some row" and "get_value_editor row = Some e"
    and "timestamp_ms time mod 2 ^ 48 = ts mod 2 ^ 48" and "length rnd = 16"
  shows "\<exists>u doc' m. uuid7 time (js_rand_a rnd) (js_rand_b rnd) = Inr u \<and>
    button_click r ts rnd doc = (doc', [Focus (r @ e), Input (r @ e) (uuid_str u), Blur (r @ e)]) \<and>
    node_at (r @ e) doc' = Some m \<and> text_content m = uuid_str u \<and>
    parse_uuid (uuid_str u) = Inr u \<and> mk_idempotency_key (uuid_str u) = Inr (IdempotencyKey (uuid_str u)) \<and>
    observe (observe doc) = observe doc"
  using click_fills [OF assms(1,2), of ts rnd] js_uuid7_value [OF assms(3,4)] uuid_str_key observe_rests
  by auto

section \<open>A concrete page\<close>

definition demo_editor :: "string \<Rightarrow> dom" where
  "demo_editor l = Elem ''div'' [(''class'', ''code-input-lite__editor''), (''aria-label'', l)] []"

definition demo_doc_row :: dom where
  "demo_doc_row = Elem ''tr'' [(''id'', ''Idempotency-Key''), (''class'', ''group'')]
     [Elem ''td'' [] [demo_editor ''Idempotency-Key Key''],
      Elem ''td'' [] [demo_editor ''Idempotency-Key Value'',
        Elem ''div'' [(''class'', ''centered-y absolute right-0'')] []]]"

definition demo_page :: dom where
  "demo_page = Elem ''body'' [] [Elem ''table'' [] [demo_doc_row]]"

lemma demo_page_row: "find_idempotency_row demo_page = Some [0, 0]" "get_value_editor demo_doc_row = Some [1, 0]"
  "node_at [0, 0] demo_page = Some demo_doc_row"
  by code_simp+

lemma demo_page_decorated:
  "node_at [0, 0, 1, 1, 0] (observe demo_page) = Some uuid7_button"
  by code_simp

theorem docs_button_fills_key_witness:
  "\<exists>doc' u. uuid7 (demo_reading 1700000000123) (js_rand_a (replicate 16 0xAB)) (js_rand_b (replicate 16 0xAB)) = Inr u \<and>
     button_click [0, 0] 1700000000123 (replicate 16 0xAB) demo_page =
       (doc', [Focus [0, 0, 1, 0], Input [0, 0, 1, 0] (uuid_str u), Blur [0, 0, 1, 0]]) \<and>
     mk_idempotency_key (uuid_str u) = Inr (IdempotencyKey (uuid_str u)) \<and>
     observe (observe demo_page) = observe demo_page"
  using docs_button_fills_key [OF demo_page_row(3,2), of "demo_reading 1700000000123" 1700000000123 "replicate 16 0xAB"]
  by (auto simp: timestamp_demo)

text \<open>
  A row that is in the document before its editors never gets its button: it is marked although no
  button was added, and a marked row is left alone.
\<close>

lemma early_row_never_decorated:
  assumes "find_idempotency_row doc = Some r" "node_at r doc = Some row" "get_value_editor row = None"
    and "attr flag row = None"
  shows "\<exists>row'. node_at r (observe doc) = Some row' \<and> attr flag row' = Some ''1''"
    and "node_at r doc2 = Some row2 \<Longrightarrow> attr flag row2 = Some ''1'' \<Longrightarrow> decorate_row r doc2 = doc2"
proof -
  have "tag_of row = ''tr''" using find_row_exists [OF assms(1)] assms(2) by auto
  then show "\<exists>row'. node_at r (observe doc) = Some row' \<and> attr flag row' = Some ''1''"
    using decorated_marked [OF assms(2)] assms(1,4) by (simp add: observe_def)
qed (simp add: decorate_row_def)

end
